theory Spec2Isabelle
  imports Complex_Main "HOL-Library.Word" "HOL-Library.Log_Nat"
begin

section \<open>Data model\<close>

text \<open>
  The package \<open>tint\<close> (\<open>handler.go\<close>, \<open>logger.go\<close> and the buffer file) is a
  \<open>slog.Handler\<close> that renders one record into one text line. Go strings and the
  \<open>buffer\<close> (\<open>type buffer []byte\<close>) are byte sequences: HOL's \<open>string\<close>.
  \<open>slog.Level\<close> is Go's \<open>int\<close>, taken at 64 bits, read signed with \<open>sint\<close>.
\<close>

type_synonym buffer = string
type_synonym slog_Level = "64 word"
type_synonym writes = "(nat \<times> string) list"

text \<open>
  \<open>time.Time\<close>: the instant (nanoseconds after the zero time) and the optional
  monotonic clock reading, which \<open>Round(0)\<close> strips.
\<close>

record gotime =
  instant :: int
  mono :: "int option"

definition IsZero :: "gotime \<Rightarrow> bool" where
  "IsZero t = (instant t = 0)"

definition Round0 :: "gotime \<Rightarrow> gotime" where
  "Round0 t = t\<lparr>mono := None\<rparr>"

text \<open>\<open>slog.Source\<close>.\<close>

record Source =
  Function :: string
  File :: string
  Line :: int

text \<open>
  The dynamic value held by a \<open>slog.Value\<close> of kind \<open>KindAny\<close>, split the way the
  type switches of \<open>appendAttr\<close> and \<open>appendValue\<close> split it: the nil interface, a
  \<open>slog.Level\<close>, an \<open>encoding.TextMarshaler\<close> (with the result of its \<open>MarshalText\<close>:
  \<open>Inl\<close> the error, \<open>Inr\<close> the data), a \<open>*slog.Source\<close>, the marker type
  \<open>tint.Error\<close> (with the text of the wrapped error's \<open>Error()\<close>), and any other
  value (with its \<open>fmt.Sprint\<close> text).
\<close>

datatype anyval =
    AnyNil
  | AnyLevel slog_Level
  | AnyTextMarshaler "string + string"
  | AnySource Source
  | AnyTintError string
  | AnyOther string

text \<open>
  \<open>slog.Value\<close> and \<open>slog.Attr\<close>. A float is kept as its 64 bits, a duration as
  its nanoseconds, a \<open>LogValuer\<close> as an opaque reference.
\<close>

datatype val =
    VString string
  | VInt64 "64 word"
  | VUint64 "64 word"
  | VFloat64 "64 word"
  | VBool bool
  | VDuration "64 word"
  | VTime gotime
  | VGroup "attr list"
  | VAny anyval
  | VLogValuer nat
and attr = Attr (Key: string) (Value: val)

datatype Kind =
    KindAny | KindBool | KindDuration | KindFloat64 | KindInt64 | KindString
  | KindTime | KindUint64 | KindGroup | KindLogValuer

fun Kind_of :: "val \<Rightarrow> Kind" where
  "Kind_of (VString s) = KindString"
| "Kind_of (VInt64 i) = KindInt64"
| "Kind_of (VUint64 u) = KindUint64"
| "Kind_of (VFloat64 f) = KindFloat64"
| "Kind_of (VBool b) = KindBool"
| "Kind_of (VDuration d) = KindDuration"
| "Kind_of (VTime t) = KindTime"
| "Kind_of (VGroup as) = KindGroup"
| "Kind_of (VAny x) = KindAny"
| "Kind_of (VLogValuer x) = KindLogValuer"

text \<open>\<open>Value.Group()\<close>: the attributes of a group value.\<close>

fun Group :: "val \<Rightarrow> attr list" where
  "Group (VGroup as) = as"
| "Group v = []"

text \<open>
  \<open>attr.Equal(slog.Attr{})\<close>: the key is empty and the value equals the zero
  \<open>slog.Value\<close>, which is of kind \<open>KindAny\<close> and holds nil.
\<close>

definition Equal_zero :: "attr \<Rightarrow> bool" where
  "Equal_zero a = (Key a = [] \<and> Value a = VAny AnyNil)"

text \<open>The constructors \<open>slog.String\<close>, \<open>slog.Time\<close> and \<open>slog.Any\<close> as the code uses them.\<close>

definition slog_String :: "string \<Rightarrow> string \<Rightarrow> attr" where
  "slog_String k s = Attr k (VString s)"

definition slog_Time :: "string \<Rightarrow> gotime \<Rightarrow> attr" where
  "slog_Time k t = Attr k (VTime t)"

definition slog_Any :: "string \<Rightarrow> anyval \<Rightarrow> attr" where
  "slog_Any k x = Attr k (VAny x)"

definition TimeKey :: string where "TimeKey = ''time''"
definition LevelKey :: string where "LevelKey = ''level''"
definition MessageKey :: string where "MessageKey = ''msg''"
definition SourceKey :: string where "SourceKey = ''source''"

definition LevelDebug :: slog_Level where "LevelDebug = - 4"
definition LevelInfo :: slog_Level where "LevelInfo = 0"
definition LevelWarn :: slog_Level where "LevelWarn = 4"
definition LevelError :: slog_Level where "LevelError = 8"

text \<open>
  What the code calls in Go's library and runtime and this development does not
  define: the Unicode tables, the formatting of times and of float attributes,
  \<open>path/filepath\<close>, what a \<open>LogValuer\<close> resolves to, the frame of a program
  counter, the destination's \<open>Write\<close> (its error, \<open>None\<close> for nil),
  \<open>slog.AnyValue\<close> on the arguments of \<open>Record.Add\<close>, and the capacity that the
  runtime gives a slice which \<open>append\<close> has to grow (from the old capacity and
  the length needed). Every function below takes them as the parameter \<open>L\<close>.
\<close>

datatype arg = ArgString string | ArgAttr attr | ArgOther nat

record golib =
  unicode_IsSpace :: "int \<Rightarrow> bool"
  unicode_IsPrint :: "int \<Rightarrow> bool"
  strconv_IsPrint :: "int \<Rightarrow> bool"
  Time_Format :: "gotime \<Rightarrow> string \<Rightarrow> string"
  Time_String :: "gotime \<Rightarrow> string"
  Duration_String :: "64 word \<Rightarrow> string"
  FormatFloat_g :: "64 word \<Rightarrow> string"
  filepath_Split :: "string \<Rightarrow> string \<times> string"
  filepath_Base :: "string \<Rightarrow> string"
  filepath_Join :: "string \<Rightarrow> string \<Rightarrow> string"
  Resolved :: "nat \<Rightarrow> val"
  CallersFrame :: "nat \<Rightarrow> Source"
  Writer_Write :: "nat \<Rightarrow> string \<Rightarrow> string option"
  AnyValue :: "arg \<Rightarrow> val"
  growslice :: "nat \<Rightarrow> nat \<Rightarrow> nat"

text \<open>
  \<open>Value.Resolve\<close>: a value of kind \<open>KindLogValuer\<close> is replaced by what its
  \<open>LogValue\<close> calls end in; any other value is returned as it is.
\<close>

fun Resolve :: "golib \<Rightarrow> val \<Rightarrow> val" where
  "Resolve L (VLogValuer x) = Resolved L x"
| "Resolve L v = v"

subsection \<open>Slices of strings\<close>

text \<open>
  A Go slice is a reference to an underlying array together with a length and a
  capacity; assigning or passing a slice copies the reference, not the array.
  The arrays that hold group names live in a store and are addressed by their
  position in it. The nil slice has length and capacity 0 and no array.
\<close>

record slice =
  arr :: nat
  slen :: nat
  scap :: nat

type_synonym store = "string list list"

definition nil_slice :: slice where
  "nil_slice = \<lparr>arr = 0, slen = 0, scap = 0\<rparr>"

definition elems :: "store \<Rightarrow> slice \<Rightarrow> string list" where
  "elems st s = (if slen s = 0 then [] else take (slen s) (st ! arr s))"

text \<open>
  The built-in \<open>append(s, x)\<close>: when the capacity suffices, the element is written
  into the underlying array, where every slice on that array sees it; otherwise
  a new array is allocated, the elements are copied into it and the rest of it is
  zero. The new capacity is the runtime's choice, at least the length needed.
\<close>

definition append_slice :: "golib \<Rightarrow> store \<Rightarrow> slice \<Rightarrow> string \<Rightarrow> store \<times> slice" where
  "append_slice L st s x =
     (if slen s < scap s then
        (st[arr s := (st ! arr s)[slen s := x]], s\<lparr>slen := slen s + 1\<rparr>)
      else
        (let c = max (slen s + 1) (growslice L (scap s) (slen s + 1))
         in (st @ [elems st s @ x # replicate (c - (slen s + 1)) []],
             \<lparr>arr = length st, slen = slen s + 1, scap = c\<rparr>)))"

subsection \<open>Handler state and options\<close>

record Options =
  AddSource :: bool
  Level :: "slog_Level option"
  ReplaceAttr :: "(string list \<Rightarrow> attr \<Rightarrow> attr) option"
  TimeFormat :: string
  NoColor :: bool
  Skip :: int

text \<open>
  \<open>type Handler struct\<close>. The writer \<open>w\<close> is a reference (an identifier of the
  destination) and \<open>groups\<close> is a slice, so handlers can share its array. The
  struct also holds \<open>mu sync.Mutex\<close> by value; it only serialises the final write
  and has no part in this sequential model.
\<close>

record Handler =
  attrsPrefix :: string
  groupPrefix :: string
  groups :: slice
  w :: nat
  addSource :: bool
  level :: slog_Level
  replaceAttr :: "(string list \<Rightarrow> attr \<Rightarrow> attr) option"
  timeFormat :: string
  noColor :: bool
  skip :: int

text \<open>\<open>slog.Record\<close>, with its attributes as the list \<open>r.Attrs\<close> walks.\<close>

record Record =
  Time :: gotime
  Message :: string
  Level :: slog_Level
  PC :: nat
  Attrs :: "attr list"

subsection \<open>ANSI modes and defaults\<close>

definition ansiReset :: string where "ansiReset = CHR 0x1B # ''[0m''"
definition ansiFaint :: string where "ansiFaint = CHR 0x1B # ''[2m''"
definition ansiResetFaint :: string where "ansiResetFaint = CHR 0x1B # ''[22m''"
definition ansiBrightRed :: string where "ansiBrightRed = CHR 0x1B # ''[91m''"
definition ansiBrightGreen :: string where "ansiBrightGreen = CHR 0x1B # ''[92m''"
definition ansiBrightYellow :: string where "ansiBrightYellow = CHR 0x1B # ''[93m''"
definition ansiBrightRedFaint :: string where "ansiBrightRedFaint = CHR 0x1B # ''[91;2m''"
definition ansiBrightBlue :: string where "ansiBrightBlue = CHR 0x1B # ''[34;1m''"

definition errKey :: string where "errKey = ''err''"

definition defaultLevel :: slog_Level where "defaultLevel = LevelInfo"
definition defaultTimeFormat :: string where "defaultTimeFormat = ''2006-01-02 15:04:05''"

section \<open>The buffer\<close>

definition newBuffer :: buffer where
  "newBuffer = []"

definition WriteByte :: "buffer \<Rightarrow> char \<Rightarrow> buffer" where
  "WriteByte b c = b @ [c]"

definition WriteString :: "buffer \<Rightarrow> string \<Rightarrow> buffer" where
  "WriteString b str = b @ str"

definition WriteStringIf :: "buffer \<Rightarrow> bool \<Rightarrow> string \<Rightarrow> buffer" where
  "WriteStringIf b ok str = (if \<not> ok then b else WriteString b str)"

section \<open>Library functions modelled from their documentation\<close>

text \<open>
  \<open>strconv.AppendInt\<close>, \<open>strconv.AppendUint\<close> and \<open>strconv.Itoa\<close> in base 10, and
  \<open>strconv.AppendBool\<close>.
\<close>

definition digit_char :: "nat \<Rightarrow> char" where
  "digit_char d = ''0123456789'' ! d"

fun FormatUint :: "nat \<Rightarrow> string" where
  "FormatUint n =
     (if n < 10 then [digit_char n] else FormatUint (n div 10) @ [digit_char (n mod 10)])"

definition FormatInt :: "int \<Rightarrow> string" where
  "FormatInt i = (if i < 0 then CHR ''-'' # FormatUint (nat (- i)) else FormatUint (nat i))"

definition FormatBool :: "bool \<Rightarrow> string" where
  "FormatBool b = (if b then ''true'' else ''false'')"

text \<open>
  \<open>float64\<close> arithmetic. A finite float is a sign, a significand \<open>m\<close> and an
  exponent \<open>e\<close> and stands for \<open>m * 2 ^ e\<close>, negated when the sign is set. The
  conversion of an integer and the division give the exact result rounded to 53
  significant bits, to nearest and ties to even. \<open>scale2 p q e\<close> is the fraction
  \<open>p / q\<close> divided by \<open>2 ^ e\<close>; \<open>float64_round p q\<close> rounds the positive fraction
  \<open>p / q\<close>: the exponent is the one that puts the quotient between \<open>2 ^ 52\<close> and
  \<open>2 ^ 53\<close>. Overflow, the subnormal range and a zero divisor are left out:
  the code divides a 64-bit integer by \<open>1e6\<close>, and the quotient is zero or lies
  between \<open>1e-6\<close> and \<open>1e13\<close>.
\<close>

definition round_half_even :: "int \<Rightarrow> int \<Rightarrow> int" where
  "round_half_even p q =
     (let d = p div q; r = p mod q in
      if 2 * r < q \<or> (2 * r = q \<and> even d) then d else d + 1)"

definition scale2 :: "int \<Rightarrow> int \<Rightarrow> int \<Rightarrow> int \<times> int" where
  "scale2 p q e = (if 0 \<le> e then (p, q * 2 ^ nat e) else (p * 2 ^ nat (- e), q))"

definition float64_round :: "int \<Rightarrow> int \<Rightarrow> int \<times> int" where
  "float64_round p q =
     (if p = 0 then (0, 0)
      else
        let e0 = bitlen p - bitlen q;
            (p0, q0) = scale2 p q e0;
            e = (if q0 \<le> p0 then e0 else e0 - 1) - 52;
            (p1, q1) = scale2 p q e
        in (round_half_even p1 q1, e))"

type_synonym float64 = "bool \<times> int \<times> int"

definition float64_of_int :: "int \<Rightarrow> float64" where
  "float64_of_int n = (n < 0, float64_round \<bar>n\<bar> 1)"

definition float64_div :: "float64 \<Rightarrow> float64 \<Rightarrow> float64" where
  "float64_div x y =
     (case (x, y) of
        ((s1, m1, e1), (s2, m2, e2)) \<Rightarrow>
          (let (p, q) = scale2 m1 m2 (e2 - e1) in (s1 \<noteq> s2, float64_round p q)))"

text \<open>
  The verb \<open>%.3f\<close> rounds the exact value of the float to thousandths, ties to
  even, and prints the sign, the integer part, a point and three digits.
  \<open>thousandths\<close> is the rounded magnitude, in thousandths.
\<close>

definition thousandths :: "float64 \<Rightarrow> nat" where
  "thousandths x =
     (case x of
        (s, m, e) \<Rightarrow> (let (p, q) = scale2 (m * 1000) 1 (- e) in nat (round_half_even p q)))"

definition Sprintf_3f :: "float64 \<Rightarrow> string" where
  "Sprintf_3f x =
     (let k = thousandths x in
      (if fst x then ''-'' else []) @ FormatUint (k div 1000) @ ''.''
        @ [digit_char (k div 100 mod 10), digit_char (k div 10 mod 10), digit_char (k mod 10)])"

text \<open>\<open>fmt.Sprintf("%.3fms", float64(ns)/1e6)\<close>, as \<open>Trace\<close> calls it.\<close>

definition Sprintf_3fms :: "int \<Rightarrow> string" where
  "Sprintf_3fms ns =
     Sprintf_3f (float64_div (float64_of_int ns) (float64_of_int 1000000)) @ ''ms''"

text \<open>
  \<open>utf8.DecodeRuneInString\<close>: the rune (Go's \<open>rune\<close> is a signed integer) and its
  width in bytes; an invalid or short encoding is \<open>RuneError\<close> of width 1. The loop
  \<open>for _, r := range s\<close> decodes the same way.
\<close>

definition RuneError :: int where
  "RuneError = 0xFFFD"

fun DecodeRuneInString :: "string \<Rightarrow> int \<times> nat" where
  "DecodeRuneInString [] = (RuneError, 0)"
| "DecodeRuneInString (c # cs) =
     (let s0 = (of_char c :: int) in
      if s0 < 0x80 then (s0, 1)
      else if s0 < 0xC2 \<or> 0xF4 < s0 then (RuneError, 1)
      else
        let sz = (if s0 < 0xE0 then 2 else if s0 < 0xF0 then 3 else (4::nat));
            lo = (if s0 = 0xE0 then 0xA0 else if s0 = 0xF0 then 0x90 else (0x80::int));
            hi = (if s0 = 0xED then 0x9F else if s0 = 0xF4 then 0x8F else (0xBF::int))
        in
          if length (c # cs) < sz then (RuneError, 1)
          else
            let s1 = (of_char (cs ! 0) :: int) in
            if s1 < lo \<or> hi < s1 then (RuneError, 1)
            else if sz \<le> 2 then ((s0 mod 32) * 64 + s1 mod 64, 2)
            else
              let s2 = (of_char (cs ! 1) :: int) in
              if s2 < 0x80 \<or> 0xBF < s2 then (RuneError, 1)
              else if sz \<le> 3 then ((s0 mod 16) * 4096 + (s1 mod 64) * 64 + s2 mod 64, 3)
              else
                let s3 = (of_char (cs ! 2) :: int) in
                if s3 < 0x80 \<or> 0xBF < s3 then (RuneError, 1)
                else ((s0 mod 8) * 262144 + (s1 mod 64) * 4096 + (s2 mod 64) * 64 + s3 mod 64, 4))"

fun runes :: "string \<Rightarrow> int list" where
  "runes [] = []"
| "runes (c # cs) =
     (let (r, width) = DecodeRuneInString (c # cs) in r # runes (drop (width - 1) cs))"

text \<open>
  \<open>utf8.AppendRune\<close>: the UTF-8 encoding of a rune. The code compares \<open>uint32(r)\<close>, so
  a negative rune is out of range and is encoded as \<open>RuneError\<close>.
\<close>

definition utf8_AppendRune :: "int \<Rightarrow> string" where
  "utf8_AppendRune r =
     (if 0 \<le> r \<and> r \<le> 0x7F then [char_of r]
      else if 0 \<le> r \<and> r \<le> 0x7FF then [char_of (0xC0 + r div 64), char_of (0x80 + r mod 64)]
      else if r < 0 \<or> 0x10FFFF < r \<or> (0xD800 \<le> r \<and> r \<le> 0xDFFF) then
        [char_of (0xEF::int), char_of (0xBF::int), char_of (0xBD::int)]
      else if r \<le> 0xFFFF then
        [char_of (0xE0 + r div 4096), char_of (0x80 + r div 64 mod 64), char_of (0x80 + r mod 64)]
      else
        [char_of (0xF0 + r div 262144), char_of (0x80 + r div 4096 mod 64),
         char_of (0x80 + r div 64 mod 64), char_of (0x80 + r mod 64)])"

text \<open>
  \<open>strconv.AppendQuote\<close>: a double-quoted Go string literal. The quote and the
  backslash are always backslashed; a printable rune is copied; the others are
  escaped (\<open>\a \b \f \n \r \t \v\<close>, \<open>\x\<close>, \<open>\u\<close>, \<open>\U\<close>); an invalid byte is \<open>\x\<close>
  and its two hex digits.
\<close>

definition lowerhex :: "nat \<Rightarrow> char" where
  "lowerhex d = ''0123456789abcdef'' ! d"

definition backslash :: char where
  "backslash = CHR 0x5C"

definition dquote :: char where
  "dquote = CHR 0x22"

definition appendEscapedRune :: "golib \<Rightarrow> buffer \<Rightarrow> int \<Rightarrow> buffer" where
  "appendEscapedRune L buf r =
     (if r = 0x22 \<or> r = 0x5C then buf @ [backslash, char_of r]
      else if strconv_IsPrint L r then buf @ utf8_AppendRune r
      else if r = 7 then buf @ [backslash, CHR ''a'']
      else if r = 8 then buf @ [backslash, CHR ''b'']
      else if r = 12 then buf @ [backslash, CHR ''f'']
      else if r = 10 then buf @ [backslash, CHR ''n'']
      else if r = 13 then buf @ [backslash, CHR ''r'']
      else if r = 9 then buf @ [backslash, CHR ''t'']
      else if r = 11 then buf @ [backslash, CHR ''v'']
      else if r < 0x20 \<or> r = 0x7F then
        buf @ [backslash, CHR ''x'', lowerhex (nat (r mod 256 div 16)), lowerhex (nat (r mod 16))]
      else if 0x10FFFF < r \<or> (0xD800 \<le> r \<and> r \<le> 0xDFFF) then
        buf @ [backslash, CHR ''u'', CHR ''f'', CHR ''f'', CHR ''f'', CHR ''d'']
      else if r < 0x10000 then
        buf @ [backslash, CHR ''u'', lowerhex (nat (r div 4096 mod 16)),
               lowerhex (nat (r div 256 mod 16)), lowerhex (nat (r div 16 mod 16)),
               lowerhex (nat (r mod 16))]
      else
        buf @ [backslash, CHR ''U'', lowerhex (nat (r div 268435456 mod 16)),
               lowerhex (nat (r div 16777216 mod 16)), lowerhex (nat (r div 1048576 mod 16)),
               lowerhex (nat (r div 65536 mod 16)), lowerhex (nat (r div 4096 mod 16)),
               lowerhex (nat (r div 256 mod 16)), lowerhex (nat (r div 16 mod 16)),
               lowerhex (nat (r mod 16))])"

definition first_rune :: "char \<Rightarrow> string \<Rightarrow> int \<times> nat" where
  "first_rune c cs =
     (if (of_char c :: int) \<ge> 0x80 then DecodeRuneInString (c # cs) else (of_char c, 1))"

fun quote_loop :: "golib \<Rightarrow> buffer \<Rightarrow> string \<Rightarrow> buffer" where
  "quote_loop L buf [] = buf"
| "quote_loop L buf (c # cs) =
     (let (r, width) = first_rune c cs
      in
        if width = 1 \<and> r = RuneError then
          quote_loop L
            (buf @ [backslash, CHR ''x'', lowerhex (of_char c div 16), lowerhex (of_char c mod 16)]) cs
        else quote_loop L (appendEscapedRune L buf r) (drop (width - 1) cs))"

definition AppendQuote :: "golib \<Rightarrow> buffer \<Rightarrow> string \<Rightarrow> buffer" where
  "AppendQuote L buf s = quote_loop L (buf @ [dquote]) s @ [dquote]"

text \<open>\<open>fmt.Sprint\<close> of the value held by a \<open>KindAny\<close>, for the default case of \<open>appendValue\<close>.\<close>

fun Sprint :: "anyval \<Rightarrow> string" where
  "Sprint AnyNil = ''<nil>''"
| "Sprint (AnyTintError m) = m"
| "Sprint (AnyOther s) = s"
| "Sprint x = []"

text \<open>
  \<open>slog.NewRecord\<close>, \<open>Record.AddAttrs\<close> (which omits empty groups) and \<open>Record.Add\<close>
  (which pairs a string key with the argument after it, takes an \<open>Attr\<close> as it is
  and gives anything else the key \<open>!BADKEY\<close>).
\<close>

definition NewRecord :: "gotime \<Rightarrow> slog_Level \<Rightarrow> string \<Rightarrow> nat \<Rightarrow> Record" where
  "NewRecord t lvl msg pc = \<lparr>Time = t, Message = msg, Level = lvl, PC = pc, Attrs = []\<rparr>"

definition isEmptyGroup :: "val \<Rightarrow> bool" where
  "isEmptyGroup v = (Kind_of v = KindGroup \<and> length (Group v) = 0)"

definition AddAttrs :: "Record \<Rightarrow> attr list \<Rightarrow> Record" where
  "AddAttrs r as = r\<lparr>Attrs := Attrs r @ filter (\<lambda>a. \<not> isEmptyGroup (Value a)) as\<rparr>"

definition badKey :: string where
  "badKey = ''!BADKEY''"

fun argsToAttrs :: "golib \<Rightarrow> arg list \<Rightarrow> attr list" where
  "argsToAttrs L [] = []"
| "argsToAttrs L [ArgString x] = [slog_String badKey x]"
| "argsToAttrs L (ArgString x # y # rest) = Attr x (AnyValue L y) # argsToAttrs L rest"
| "argsToAttrs L (ArgAttr a # rest) = a # argsToAttrs L rest"
| "argsToAttrs L (ArgOther x # rest) = Attr badKey (AnyValue L (ArgOther x)) # argsToAttrs L rest"

definition Add :: "golib \<Rightarrow> Record \<Rightarrow> arg list \<Rightarrow> Record" where
  "Add L r args = AddAttrs r (argsToAttrs L args)"

text \<open>
  A loop over a list whose body may fail to return: the first \<open>None\<close> ends it.
\<close>

fun fold_opt :: "('b \<Rightarrow> 'a \<Rightarrow> 'b option) \<Rightarrow> 'a list \<Rightarrow> 'b \<Rightarrow> 'b option" where
  "fold_opt f [] b = Some b"
| "fold_opt f (x # xs) b = (case f b x of None \<Rightarrow> None | Some b' \<Rightarrow> fold_opt f xs b')"

section \<open>The line formatter (handler.go)\<close>

subsection \<open>Strings and quoting\<close>

fun needsQuoting_loop :: "golib \<Rightarrow> int list \<Rightarrow> bool" where
  "needsQuoting_loop L [] = False"
| "needsQuoting_loop L (r # rs) =
     (if unicode_IsSpace L r \<or> r = 0x22 \<or> r = 0x3D \<or> \<not> unicode_IsPrint L r then True
      else needsQuoting_loop L rs)"

definition needsQuoting :: "golib \<Rightarrow> string \<Rightarrow> bool" where
  "needsQuoting L s = (if length s = 0 then True else needsQuoting_loop L (runes s))"

definition appendString :: "golib \<Rightarrow> buffer \<Rightarrow> string \<Rightarrow> bool \<Rightarrow> buffer" where
  "appendString L buf s quote =
     (if quote \<and> needsQuoting L s then AppendQuote L buf s else WriteString buf s)"

subsection \<open>Time, level and source\<close>

definition appendTime :: "golib \<Rightarrow> Handler \<Rightarrow> buffer \<Rightarrow> gotime \<Rightarrow> buffer" where
  "appendTime L h buf t =
     (let buf = WriteStringIf buf (\<not> noColor h) ansiFaint;
          buf = buf @ Time_Format L t (timeFormat h);
          buf = WriteStringIf buf (\<not> noColor h) ansiReset
      in buf)"

definition appendLevelDelta :: "buffer \<Rightarrow> slog_Level \<Rightarrow> buffer" where
  "appendLevelDelta buf delta =
     (if delta = 0 then buf
      else
        let buf = (if 0 <s delta then WriteByte buf (CHR ''+'') else buf)
        in buf @ FormatInt (sint delta))"

definition appendLevel :: "Handler \<Rightarrow> buffer \<Rightarrow> slog_Level \<Rightarrow> buffer" where
  "appendLevel h buf lvl =
     (if lvl <s LevelInfo then
        (let buf = WriteStringIf buf (\<not> noColor h) ansiBrightBlue;
             buf = WriteString buf ''DEBUG'';
             buf = appendLevelDelta buf (lvl - LevelDebug);
             buf = WriteStringIf buf (\<not> noColor h) ansiReset
         in buf)
      else if lvl <s LevelWarn then
        (let buf = WriteStringIf buf (\<not> noColor h) ansiBrightGreen;
             buf = WriteString buf ''INFO'';
             buf = appendLevelDelta buf (lvl - LevelInfo);
             buf = WriteStringIf buf (\<not> noColor h) ansiReset
         in buf)
      else if lvl <s LevelError then
        (let buf = WriteStringIf buf (\<not> noColor h) ansiBrightYellow;
             buf = WriteString buf ''WARN'';
             buf = appendLevelDelta buf (lvl - LevelWarn);
             buf = WriteStringIf buf (\<not> noColor h) ansiReset
         in buf)
      else
        (let buf = WriteStringIf buf (\<not> noColor h) ansiBrightRed;
             buf = WriteString buf ''ERROR'';
             buf = appendLevelDelta buf (lvl - LevelError);
             buf = WriteStringIf buf (\<not> noColor h) ansiReset
         in buf))"

definition appendSource :: "golib \<Rightarrow> Handler \<Rightarrow> buffer \<Rightarrow> Source \<Rightarrow> buffer" where
  "appendSource L h buf src =
     (let (dir, file) = filepath_Split L (File src);
          buf = WriteStringIf buf (\<not> noColor h) ansiFaint;
          buf = WriteString buf (filepath_Join L (filepath_Base L dir) file);
          buf = WriteByte buf (CHR '':'');
          buf = WriteString buf (FormatInt (Line src));
          buf = WriteStringIf buf (\<not> noColor h) ansiReset
      in buf)"

subsection \<open>Keys, values and errors\<close>

definition appendKey :: "golib \<Rightarrow> Handler \<Rightarrow> buffer \<Rightarrow> string \<Rightarrow> string \<Rightarrow> buffer" where
  "appendKey L h buf key groupsPrefix =
     (let buf = WriteStringIf buf (\<not> noColor h) ansiFaint;
          buf = appendString L buf (groupsPrefix @ key) True;
          buf = WriteByte buf (CHR ''='');
          buf = WriteStringIf buf (\<not> noColor h) ansiReset
      in buf)"

fun appendValue :: "golib \<Rightarrow> Handler \<Rightarrow> buffer \<Rightarrow> val \<Rightarrow> bool \<Rightarrow> buffer" where
  "appendValue L h buf (VString s) quote = appendString L buf s quote"
| "appendValue L h buf (VInt64 i) quote = buf @ FormatInt (sint i)"
| "appendValue L h buf (VUint64 u) quote = buf @ FormatUint (unat u)"
| "appendValue L h buf (VFloat64 f) quote = buf @ FormatFloat_g L f"
| "appendValue L h buf (VBool b) quote = buf @ FormatBool b"
| "appendValue L h buf (VDuration d) quote = appendString L buf (Duration_String L d) quote"
| "appendValue L h buf (VTime t) quote = appendString L buf (Time_String L t) quote"
| "appendValue L h buf (VAny (AnyLevel cv)) quote = appendLevel h buf cv"
| "appendValue L h buf (VAny (AnyTextMarshaler cv)) quote =
     (case cv of
        Inl err \<Rightarrow> buf
      | Inr data \<Rightarrow> appendString L buf data quote)"
| "appendValue L h buf (VAny (AnySource cv)) quote = appendSource L h buf cv"
| "appendValue L h buf (VAny cv) quote = appendString L buf (Sprint cv) quote"
| "appendValue L h buf v quote = buf"

definition appendError :: "golib \<Rightarrow> Handler \<Rightarrow> buffer \<Rightarrow> string \<Rightarrow> string \<Rightarrow> buffer" where
  "appendError L h buf err groupsPrefix =
     (let buf = WriteStringIf buf (\<not> noColor h) ansiBrightRedFaint;
          buf = appendString L buf (groupsPrefix @ errKey) True;
          buf = WriteByte buf (CHR ''='');
          buf = WriteStringIf buf (\<not> noColor h) ansiResetFaint;
          buf = appendString L buf err True;
          buf = WriteStringIf buf (\<not> noColor h) ansiReset
      in buf)"

subsection \<open>Attributes\<close>

text \<open>
  \<open>appendAttr\<close> recurses into the attributes of a group, also of a group that the
  rewrite hook returned for an attribute that was none, so the recursion is not
  structural: the first argument after \<open>L\<close> bounds its depth, and \<open>None\<close> says that
  the bound was reached before the call returned. The parameter \<open>groups\<close> is a
  slice: the hook is given its elements as they are in the store at the call (a
  hook is a function of them; one that writes to the slice is outside this
  model), and \<open>groups = append(groups, attr.Key)\<close> may write into the array that
  the caller's slice refers to, so the store is threaded through.
\<close>

fun appendAttr ::
  "golib \<Rightarrow> nat \<Rightarrow> Handler \<Rightarrow> store \<Rightarrow> buffer \<Rightarrow> attr \<Rightarrow> string \<Rightarrow> slice
     \<Rightarrow> (buffer \<times> store) option" where
  "appendAttr L 0 h st buf a groupsPrefix gs = None"
| "appendAttr L (Suc n) h st buf a groupsPrefix gs =
     (let a = Attr (Key a) (Resolve L (Value a));
          a = (case replaceAttr h of
                 Some rep \<Rightarrow>
                   if Kind_of (Value a) \<noteq> KindGroup then
                     (let a = rep (elems st gs) a in Attr (Key a) (Resolve L (Value a)))
                   else a
               | None \<Rightarrow> a)
      in
        if Equal_zero a then Some (buf, st)
        else if Kind_of (Value a) = KindGroup then
          (let (groupsPrefix, st, gs) =
                 (if Key a \<noteq> [] then
                    (let (st, gs) = append_slice L st gs (Key a)
                     in (groupsPrefix @ Key a @ ''.'', st, gs))
                  else (groupsPrefix, st, gs))
           in fold_opt (\<lambda>(b, st) groupAttr. appendAttr L n h st b groupAttr groupsPrefix gs)
                (Group (Value a)) (buf, st))
        else
          (case Value a of
             VAny (AnyTintError err) \<Rightarrow>
               Some (WriteByte (appendError L h buf err groupsPrefix) (CHR '' ''), st)
           | _ \<Rightarrow>
               Some (WriteByte
                 (appendValue L h (appendKey L h buf (Key a) groupsPrefix) (Value a) True)
                 (CHR '' ''), st)))"

section \<open>The handler (handler.go)\<close>

definition NewHandler :: "nat \<Rightarrow> Options option \<Rightarrow> Handler" where
  "NewHandler wr opts =
     (let h = \<lparr>attrsPrefix = [], groupPrefix = [], groups = nil_slice, w = wr, addSource = False,
                level = defaultLevel, replaceAttr = None, timeFormat = defaultTimeFormat,
                noColor = False, skip = 0\<rparr>
      in
        case opts of
          None \<Rightarrow> h
        | Some opt \<Rightarrow>
            (let h = h\<lparr>addSource := AddSource opt\<rparr>;
                 h = (case Options.Level opt of Some l \<Rightarrow> h\<lparr>level := l\<rparr> | None \<Rightarrow> h);
                 h = h\<lparr>replaceAttr := ReplaceAttr opt\<rparr>;
                 h = (if TimeFormat opt \<noteq> [] then h\<lparr>timeFormat := TimeFormat opt\<rparr> else h);
                 h = h\<lparr>noColor := NoColor opt\<rparr>;
                 h = (if Skip opt > 0 then h\<lparr>skip := Skip opt\<rparr> else h\<lparr>skip := 4\<rparr>)
             in h))"

text \<open>
  \<open>clone\<close> builds a new struct from a literal that names nine fields. \<open>skip\<close> is
  not among them, so the new handler has Go's zero value there. \<open>groups\<close> is
  copied as a slice: the clone refers to the array of the original.
\<close>

definition clone :: "Handler \<Rightarrow> Handler" where
  "clone h =
     \<lparr>attrsPrefix = attrsPrefix h, groupPrefix = groupPrefix h, groups = groups h, w = w h,
      addSource = addSource h, level = level h, replaceAttr = replaceAttr h,
      timeFormat = timeFormat h, noColor = noColor h, skip = 0\<rparr>"

definition Enabled :: "Handler \<Rightarrow> slog_Level \<Rightarrow> bool" where
  "Enabled h lvl = (level h \<le>s lvl)"

fun Time_of :: "val \<Rightarrow> gotime" where
  "Time_of (VTime t) = t"
| "Time_of v = \<lparr>instant = 0, mono = None\<rparr>"

text \<open>
  \<open>Handle\<close> takes the store and the writes made so far and returns the store, the
  writes with the line added (a pair of the writer and the bytes) and the error of
  \<open>Write\<close>; \<open>None\<close> when an \<open>appendAttr\<close> does not return within the bound.
\<close>

definition Handle ::
  "golib \<Rightarrow> nat \<Rightarrow> Handler \<Rightarrow> Record \<Rightarrow> store \<Rightarrow> writes
     \<Rightarrow> (store \<times> writes \<times> string option) option" where
  "Handle L fuel h r st out =
     (let buf = newBuffer;
          rep = replaceAttr h;
          buf =
            (if \<not> IsZero (Time r) then
               (let val = Round0 (Time r) in
                case rep of
                  None \<Rightarrow> WriteByte (appendTime L h buf (Time r)) (CHR '' '')
                | Some f \<Rightarrow>
                    (let a = f [] (slog_Time TimeKey val) in
                     if Key a \<noteq> [] then
                       WriteByte
                         (if Kind_of (Value a) = KindTime then appendTime L h buf (Time_of (Value a))
                          else appendValue L h buf (Value a) False)
                         (CHR '' '')
                     else buf))
             else buf);
          buf =
            (case rep of
               None \<Rightarrow> WriteByte (appendLevel h buf (Level r)) (CHR '' '')
             | Some f \<Rightarrow>
                 (let a = f [] (slog_Any LevelKey (AnyLevel (Level r))) in
                  if Key a \<noteq> [] then WriteByte (appendValue L h buf (Value a) False) (CHR '' '')
                  else buf));
          buf =
            (if addSource h then
               (let f = CallersFrame L (PC r) in
                if File f \<noteq> [] then
                  (let src = \<lparr>Function = Function f, File = File f, Line = Line f\<rparr> in
                   case rep of
                     None \<Rightarrow> WriteByte (appendSource L h buf src) (CHR '' '')
                   | Some g \<Rightarrow>
                       (let a = g [] (slog_Any SourceKey (AnySource src)) in
                        if Key a \<noteq> [] then
                          WriteByte (appendValue L h buf (Value a) False) (CHR '' '')
                        else buf))
                else buf)
             else buf);
          buf =
            (case rep of
               None \<Rightarrow> WriteByte (WriteString buf (Message r)) (CHR '' '')
             | Some f \<Rightarrow>
                 (let a = f [] (slog_String MessageKey (Message r)) in
                  if Key a \<noteq> [] then WriteByte (appendValue L h buf (Value a) False) (CHR '' '')
                  else buf));
          buf = (if length (attrsPrefix h) > 0 then WriteString buf (attrsPrefix h) else buf)
      in
        case fold_opt (\<lambda>(b, st) a. appendAttr L fuel h st b a (groupPrefix h) (groups h))
               (Attrs r) (buf, st) of
          None \<Rightarrow> None
        | Some (buf, st) \<Rightarrow>
            if length buf = 0 then Some (st, out, None)
            else
              (let buf = buf[length buf - 1 := CHR 0x0A]
               in Some (st, out @ [(w h, buf)], Writer_Write L (w h) buf)))"

definition WithAttrs ::
  "golib \<Rightarrow> nat \<Rightarrow> Handler \<Rightarrow> attr list \<Rightarrow> store \<Rightarrow> (Handler \<times> store) option" where
  "WithAttrs L fuel h attrs st =
     (if length attrs = 0 then Some (h, st)
      else
        (let h2 = clone h;
             buf = newBuffer
         in
           case fold_opt (\<lambda>(b, st) a. appendAttr L fuel h st b a (groupPrefix h) (groups h))
                  attrs (buf, st) of
             None \<Rightarrow> None
           | Some (buf, st) \<Rightarrow> Some (h2\<lparr>attrsPrefix := attrsPrefix h @ buf\<rparr>, st)))"

definition WithGroup :: "golib \<Rightarrow> Handler \<Rightarrow> string \<Rightarrow> store \<Rightarrow> Handler \<times> store" where
  "WithGroup L h name st =
     (if name = [] then (h, st)
      else
        (let h2 = clone h;
             h2 = h2\<lparr>groupPrefix := groupPrefix h2 @ name @ ''.''\<rparr>;
             (st, gs) = append_slice L st (groups h2) name;
             h2 = h2\<lparr>groups := gs\<rparr>
         in (h2, st)))"

text \<open>
  \<open>Err\<close>: the argument is a Go \<open>error\<close>, \<open>None\<close> for nil and otherwise the text of
  its \<open>Error()\<close>; a non-nil one is wrapped in \<open>Error{err}\<close> before \<open>slog.Any\<close>.
\<close>

definition Err :: "string option \<Rightarrow> attr" where
  "Err err =
     (let x = (case err of Some e \<Rightarrow> AnyTintError e | None \<Rightarrow> AnyNil)
      in slog_Any errKey x)"

section \<open>The adapters (handler.go, logger.go)\<close>

text \<open>
  The adapter methods take \<open>time.Now()\<close> as \<open>now\<close>, the program counter that
  \<open>runtime.Callers\<close> stored as \<open>pc\<close>, the pair the callback \<open>fc\<close> returns and
  \<open>time.Since(begin)\<close> in nanoseconds as \<open>elapsed\<close>. They drop the error of
  \<open>Handle\<close> and return the store and the writes.
\<close>

definition drop_error :: "store \<times> writes \<times> string option \<Rightarrow> store \<times> writes" where
  "drop_error x = (fst x, fst (snd x))"

definition Handler_Info ::
  "golib \<Rightarrow> nat \<Rightarrow> Handler \<Rightarrow> gotime \<Rightarrow> nat \<Rightarrow> string \<Rightarrow> arg list \<Rightarrow> store \<Rightarrow> writes
     \<Rightarrow> (store \<times> writes) option" where
  "Handler_Info L fuel h now pc s i st out =
     (if Enabled h LevelInfo then
        (let r = NewRecord now LevelInfo [] pc;
             r = AddAttrs r [slog_String ''msg'' s];
             r = Add L r i
         in map_option drop_error (Handle L fuel h r st out))
      else Some (st, out))"

definition Handler_Warn ::
  "golib \<Rightarrow> nat \<Rightarrow> Handler \<Rightarrow> gotime \<Rightarrow> nat \<Rightarrow> string \<Rightarrow> arg list \<Rightarrow> store \<Rightarrow> writes
     \<Rightarrow> (store \<times> writes) option" where
  "Handler_Warn L fuel h now pc s i st out =
     (if Enabled h LevelWarn then
        (let r = NewRecord now LevelInfo [] pc;
             r = AddAttrs r [slog_String ''msg'' s];
             r = Add L r i
         in map_option drop_error (Handle L fuel h r st out))
      else Some (st, out))"

definition Handler_Error ::
  "golib \<Rightarrow> nat \<Rightarrow> Handler \<Rightarrow> gotime \<Rightarrow> nat \<Rightarrow> string \<Rightarrow> arg list \<Rightarrow> store \<Rightarrow> writes
     \<Rightarrow> (store \<times> writes) option" where
  "Handler_Error L fuel h now pc s i st out =
     (if Enabled h LevelError then
        (let r = NewRecord now LevelInfo [] pc;
             r = AddAttrs r [slog_String ''msg'' s];
             r = Add L r i
         in map_option drop_error (Handle L fuel h r st out))
      else Some (st, out))"

definition Handler_Trace ::
  "golib \<Rightarrow> nat \<Rightarrow> Handler \<Rightarrow> gotime \<Rightarrow> nat \<Rightarrow> string \<times> int \<Rightarrow> int \<Rightarrow> string option
     \<Rightarrow> store \<Rightarrow> writes \<Rightarrow> (store \<times> writes) option" where
  "Handler_Trace L fuel h now pc fc elapsed err st out =
     (if Enabled h LevelInfo then
        (let r = NewRecord now LevelInfo [] pc;
             (sql, rows) = fc;
             r = (if err \<noteq> None then AddAttrs r [Err err] else r);
             r = (if rows = - 1 then
                    AddAttrs r [slog_String ''time'' (Sprintf_3fms elapsed), slog_String ''sql'' ''-'']
                  else
                    AddAttrs r [slog_String ''time'' (Sprintf_3fms elapsed), slog_String ''sql'' sql])
         in map_option drop_error (Handle L fuel h r st out))
      else Some (st, out))"

text \<open>
  \<open>type Logger struct\<close> embeds \<open>*slog.Logger\<close> (built on the same handler) and
  \<open>*Handler\<close>; its adapter methods repeat those of the handler on the embedded one.
\<close>

record Logger =
  Logger_Handler :: Handler

definition NewLogger :: "nat \<Rightarrow> slog_Level \<Rightarrow> Logger" where
  "NewLogger writer lvl =
     (let h = NewHandler writer
                (Some \<lparr>AddSource = False, Level = Some lvl, ReplaceAttr = None,
                        TimeFormat = defaultTimeFormat, NoColor = False, Skip = 0\<rparr>)
      in \<lparr>Logger_Handler = h\<rparr>)"

definition Logger_Warn ::
  "golib \<Rightarrow> nat \<Rightarrow> Logger \<Rightarrow> gotime \<Rightarrow> nat \<Rightarrow> string \<Rightarrow> arg list \<Rightarrow> store \<Rightarrow> writes
     \<Rightarrow> (store \<times> writes) option" where
  "Logger_Warn L fuel lg now pc s i st out =
     (if Enabled (Logger_Handler lg) LevelWarn then
        (let r = NewRecord now LevelInfo [] pc;
             r = AddAttrs r [slog_String ''msg'' s];
             r = Add L r i
         in map_option drop_error (Handle L fuel (Logger_Handler lg) r st out))
      else Some (st, out))"

definition Logger_Error ::
  "golib \<Rightarrow> nat \<Rightarrow> Logger \<Rightarrow> gotime \<Rightarrow> nat \<Rightarrow> string \<Rightarrow> arg list \<Rightarrow> store \<Rightarrow> writes
     \<Rightarrow> (store \<times> writes) option" where
  "Logger_Error L fuel lg now pc s i st out =
     (if Enabled (Logger_Handler lg) LevelError then
        (let r = NewRecord now LevelInfo [] pc;
             r = AddAttrs r [slog_String ''msg'' s];
             r = Add L r i
         in map_option drop_error (Handle L fuel (Logger_Handler lg) r st out))
      else Some (st, out))"

definition Logger_Trace ::
  "golib \<Rightarrow> nat \<Rightarrow> Logger \<Rightarrow> gotime \<Rightarrow> nat \<Rightarrow> string \<times> int \<Rightarrow> int \<Rightarrow> string option
     \<Rightarrow> store \<Rightarrow> writes \<Rightarrow> (store \<times> writes) option" where
  "Logger_Trace L fuel lg now pc fc elapsed err st out =
     (if Enabled (Logger_Handler lg) LevelInfo then
        (let r = NewRecord now LevelInfo [] pc;
             (sql, rows) = fc;
             r = (if err \<noteq> None then AddAttrs r [Err err] else r);
             r = (if rows = - 1 then
                    AddAttrs r [slog_String ''time'' (Sprintf_3fms elapsed), slog_String ''sql'' ''-'']
                  else
                    AddAttrs r [slog_String ''time'' (Sprintf_3fms elapsed), slog_String ''sql'' sql])
         in map_option drop_error (Handle L fuel (Logger_Handler lg) r st out))
      else Some (st, out))"

section \<open>A library instance\<close>

text \<open>
  An instance of the library for concrete runs. The Unicode tables are those of
  ASCII (a space, a tab and the line breaks are spaces; the bytes from \<open>0x20\<close> to
  \<open>0x7E\<close> are printable); a time is shown as its instant; every write succeeds.
  \<open>path/filepath\<close> is that of Unix on paths that are already clean. Every program
  counter but 0 has the frame of line 42 of \<open>/srv/app/main.go\<close>. A slice that has
  to grow doubles its capacity, as Go's runtime does for small slices of strings.
\<close>

definition unix_Split :: "string \<Rightarrow> string \<times> string" where
  "unix_Split p =
     (let file = rev (takeWhile (\<lambda>c. c \<noteq> CHR ''/'') (rev p))
      in (take (length p - length file) p, file))"

definition unix_Base :: "string \<Rightarrow> string" where
  "unix_Base p =
     (if p = [] then ''.''
      else
        (let q = rev (dropWhile (\<lambda>c. c = CHR ''/'') (rev p))
         in if q = [] then ''/'' else snd (unix_Split q)))"

definition unix_Join :: "string \<Rightarrow> string \<Rightarrow> string" where
  "unix_Join d f = (if d = [] then f else if f = [] then d else d @ ''/'' @ f)"

definition lib0 :: golib where
  "lib0 =
     \<lparr>unicode_IsSpace = (\<lambda>r. r = 32 \<or> (9 \<le> r \<and> r \<le> 13)),
      unicode_IsPrint = (\<lambda>r. 32 \<le> r \<and> r < 127),
      strconv_IsPrint = (\<lambda>r. 32 \<le> r \<and> r < 127),
      Time_Format = (\<lambda>t layout. FormatInt (instant t)),
      Time_String = (\<lambda>t. FormatInt (instant t)),
      Duration_String = (\<lambda>d. FormatInt (sint d) @ ''ns''),
      FormatFloat_g = (\<lambda>f. ''0''),
      filepath_Split = unix_Split,
      filepath_Base = unix_Base,
      filepath_Join = unix_Join,
      Resolved = (\<lambda>x. VString []),
      CallersFrame =
        (\<lambda>pc. if pc = 0 then \<lparr>Function = [], File = [], Line = 0\<rparr>
              else \<lparr>Function = ''main.main'', File = ''/srv/app/main.go'', Line = 42\<rparr>),
      Writer_Write = (\<lambda>wr bytes. None),
      AnyValue = (\<lambda>x. case x of ArgString s \<Rightarrow> VString s | _ \<Rightarrow> VAny AnyNil),
      growslice = (\<lambda>old needed. if 2 * old < needed then needed else 2 * old)\<rparr>"

section \<open>Definitions for the statements\<close>

subsection \<open>Level bands\<close>

text \<open>
  The four bands as the specification words them, over the level read as an
  integer: the text, the canonical value, the colour, and the signed offset suffix.
\<close>

definition band_text :: "int \<Rightarrow> string" where
  "band_text i =
     (if i < 0 then ''DEBUG'' else if i < 4 then ''INFO'' else if i < 8 then ''WARN''
      else ''ERROR'')"

definition band_base :: "int \<Rightarrow> int" where
  "band_base i = (if i < 0 then - 4 else if i < 4 then 0 else if i < 8 then 4 else 8)"

definition band_color :: "int \<Rightarrow> string" where
  "band_color i =
     (if i < 0 then ansiBrightBlue else if i < 4 then ansiBrightGreen
      else if i < 8 then ansiBrightYellow else ansiBrightRed)"

definition delta_text :: "int \<Rightarrow> string" where
  "delta_text d = (if d = 0 then [] else if 0 < d then CHR ''+'' # FormatInt d else FormatInt d)"

subsection \<open>Rendered texts\<close>

text \<open>
  What each append function adds to the buffer, as a text of its own, written
  out from the colour modes, the library's texts and the level bands.
  \<open>quote_chunks\<close> lists what \<open>strconv.AppendQuote\<close> writes for each rune between
  the two quotes.
\<close>

fun quote_chunks :: "golib \<Rightarrow> string \<Rightarrow> string list" where
  "quote_chunks L [] = []"
| "quote_chunks L (c # cs) =
     (let (r, width) = first_rune c cs
      in
        if width = 1 \<and> r = RuneError then
          [backslash, CHR ''x'', lowerhex (of_char c div 16), lowerhex (of_char c mod 16)]
            # quote_chunks L cs
        else appendEscapedRune L [] r # quote_chunks L (drop (width - 1) cs))"

definition Quote :: "golib \<Rightarrow> string \<Rightarrow> string" where
  "Quote L s = [dquote] @ concat (quote_chunks L s) @ [dquote]"

definition string_text :: "golib \<Rightarrow> string \<Rightarrow> bool \<Rightarrow> string" where
  "string_text L s quote = (if quote \<and> needsQuoting L s then Quote L s else s)"

definition time_text :: "golib \<Rightarrow> Handler \<Rightarrow> gotime \<Rightarrow> string" where
  "time_text L h t =
     (if noColor h then [] else ansiFaint) @ Time_Format L t (timeFormat h)
       @ (if noColor h then [] else ansiReset)"

definition level_text :: "Handler \<Rightarrow> slog_Level \<Rightarrow> string" where
  "level_text h lvl =
     (if noColor h then [] else band_color (sint lvl)) @ band_text (sint lvl)
       @ delta_text (sint lvl - band_base (sint lvl)) @ (if noColor h then [] else ansiReset)"

definition source_text :: "golib \<Rightarrow> Handler \<Rightarrow> Source \<Rightarrow> string" where
  "source_text L h src =
     (if noColor h then [] else ansiFaint)
       @ filepath_Join L (filepath_Base L (fst (filepath_Split L (File src))))
           (snd (filepath_Split L (File src)))
       @ '':'' @ FormatInt (Line src) @ (if noColor h then [] else ansiReset)"

definition key_text :: "golib \<Rightarrow> Handler \<Rightarrow> string \<Rightarrow> string \<Rightarrow> string" where
  "key_text L h key groupsPrefix =
     (if noColor h then [] else ansiFaint) @ string_text L (groupsPrefix @ key) True @ ''=''
       @ (if noColor h then [] else ansiReset)"

fun value_text :: "golib \<Rightarrow> Handler \<Rightarrow> val \<Rightarrow> bool \<Rightarrow> string" where
  "value_text L h (VString s) quote = string_text L s quote"
| "value_text L h (VInt64 i) quote = FormatInt (sint i)"
| "value_text L h (VUint64 u) quote = FormatUint (unat u)"
| "value_text L h (VFloat64 f) quote = FormatFloat_g L f"
| "value_text L h (VBool b) quote = FormatBool b"
| "value_text L h (VDuration d) quote = string_text L (Duration_String L d) quote"
| "value_text L h (VTime t) quote = string_text L (Time_String L t) quote"
| "value_text L h (VAny (AnyLevel lvl)) quote = level_text h lvl"
| "value_text L h (VAny (AnyTextMarshaler (Inl err))) quote = []"
| "value_text L h (VAny (AnyTextMarshaler (Inr data))) quote = string_text L data quote"
| "value_text L h (VAny (AnySource src)) quote = source_text L h src"
| "value_text L h (VAny AnyNil) quote = string_text L ''<nil>'' quote"
| "value_text L h (VAny (AnyTintError m)) quote = string_text L m quote"
| "value_text L h (VAny (AnyOther s)) quote = string_text L s quote"
| "value_text L h (VGroup as) quote = []"
| "value_text L h (VLogValuer x) quote = []"

definition error_text :: "golib \<Rightarrow> Handler \<Rightarrow> string \<Rightarrow> string \<Rightarrow> string" where
  "error_text L h err groupsPrefix =
     (if noColor h then [] else ansiBrightRedFaint) @ string_text L (groupsPrefix @ errKey) True
       @ ''='' @ (if noColor h then [] else ansiResetFaint) @ string_text L err True
       @ (if noColor h then [] else ansiReset)"

subsection \<open>Attributes as texts\<close>

text \<open>
  \<open>rewritten\<close> is the attribute that \<open>appendAttr\<close> goes on with after resolving
  its value and calling the rewrite hook on the open groups \<open>gs\<close>; \<open>leaf_text\<close> is
  what is written for one that is no group, before the separating space.
  \<open>attr_text\<close> and \<open>attrs_text\<close> give the text of an attribute and of a list of
  attributes by a recursion of their own, over the open groups as a list of
  names: nothing for the zero attribute, the texts of the members for a group
  (behind its key, when it has one), the leaf text and a space otherwise. The
  first argument after \<open>L\<close> bounds the depth, as in \<open>appendAttr\<close>.
\<close>

definition rewritten :: "golib \<Rightarrow> Handler \<Rightarrow> string list \<Rightarrow> attr \<Rightarrow> attr" where
  "rewritten L h gs a =
     (let a = Attr (Key a) (Resolve L (Value a))
      in case replaceAttr h of
           Some rep \<Rightarrow>
             if Kind_of (Value a) \<noteq> KindGroup then
               (let a = rep gs a in Attr (Key a) (Resolve L (Value a)))
             else a
         | None \<Rightarrow> a)"

definition leaf_text :: "golib \<Rightarrow> Handler \<Rightarrow> attr \<Rightarrow> string \<Rightarrow> string" where
  "leaf_text L h a groupsPrefix =
     (case Value a of
        VAny (AnyTintError err) \<Rightarrow> error_text L h err groupsPrefix
      | _ \<Rightarrow> key_text L h (Key a) groupsPrefix @ value_text L h (Value a) True)"

fun attr_text ::
  "golib \<Rightarrow> nat \<Rightarrow> Handler \<Rightarrow> attr \<Rightarrow> string \<Rightarrow> string list \<Rightarrow> string option" where
  "attr_text L 0 h a groupsPrefix gs = None"
| "attr_text L (Suc n) h a groupsPrefix gs =
     (let a' = rewritten L h gs a in
      if Equal_zero a' then Some []
      else if Kind_of (Value a') = KindGroup then
        map_option concat
          (those (map (\<lambda>m. attr_text L n h m
                        (if Key a' \<noteq> [] then groupsPrefix @ Key a' @ ''.'' else groupsPrefix)
                        (if Key a' \<noteq> [] then gs @ [Key a'] else gs))
                   (Group (Value a'))))
      else Some (leaf_text L h a' groupsPrefix @ '' ''))"

definition attrs_text ::
  "golib \<Rightarrow> nat \<Rightarrow> Handler \<Rightarrow> attr list \<Rightarrow> string \<Rightarrow> string list \<Rightarrow> string option" where
  "attrs_text L n h as groupsPrefix gs =
     map_option concat (those (map (\<lambda>a. attr_text L n h a groupsPrefix gs) as))"

definition ends_space :: "string \<Rightarrow> bool" where
  "ends_space s = (s = [] \<or> last s = CHR '' '')"

subsection \<open>The fields of a line\<close>

text \<open>
  What \<open>Handle\<close> writes for the time, the level, the source location and the
  message: the field's text and one space, or nothing when the field is not
  emitted.
\<close>

definition time_field :: "golib \<Rightarrow> Handler \<Rightarrow> Record \<Rightarrow> string" where
  "time_field L h r =
     (if IsZero (Time r) then []
      else
        case replaceAttr h of
          None \<Rightarrow> time_text L h (Time r) @ '' ''
        | Some rep \<Rightarrow>
            (let a = rep [] (slog_Time TimeKey (Round0 (Time r))) in
             if Key a = [] then []
             else
               (if Kind_of (Value a) = KindTime then time_text L h (Time_of (Value a))
                else value_text L h (Value a) False) @ '' ''))"

definition level_field :: "golib \<Rightarrow> Handler \<Rightarrow> Record \<Rightarrow> string" where
  "level_field L h r =
     (case replaceAttr h of
        None \<Rightarrow> level_text h (Level r) @ '' ''
      | Some rep \<Rightarrow>
          (let a = rep [] (slog_Any LevelKey (AnyLevel (Level r))) in
           if Key a = [] then [] else value_text L h (Value a) False @ '' ''))"

definition source_field :: "golib \<Rightarrow> Handler \<Rightarrow> Record \<Rightarrow> string" where
  "source_field L h r =
     (if \<not> addSource h \<or> File (CallersFrame L (PC r)) = [] then []
      else
        (let f = CallersFrame L (PC r);
             src = \<lparr>Function = Function f, File = File f, Line = Line f\<rparr>
         in
           case replaceAttr h of
             None \<Rightarrow> source_text L h src @ '' ''
           | Some rep \<Rightarrow>
               (let a = rep [] (slog_Any SourceKey (AnySource src)) in
                if Key a = [] then [] else value_text L h (Value a) False @ '' '')))"

definition message_field :: "golib \<Rightarrow> Handler \<Rightarrow> Record \<Rightarrow> string" where
  "message_field L h r =
     (case replaceAttr h of
        None \<Rightarrow> Message r @ '' ''
      | Some rep \<Rightarrow>
          (let a = rep [] (slog_String MessageKey (Message r)) in
           if Key a = [] then [] else value_text L h (Value a) False @ '' ''))"

definition newline :: char where
  "newline = CHR 0x0A"

subsection \<open>Stores, handlers, hooks and whole lines\<close>

text \<open>
  \<open>valid_slice\<close>: the slice fits its array in the store. \<open>frame s st st'\<close>: the
  store \<open>st'\<close> has the arrays of \<open>st\<close> at their lengths, and perhaps more; the arrays
  other than the one of \<open>s\<close> are as they were, and so are the elements of \<open>s\<close>.
\<close>

definition valid_slice :: "store \<Rightarrow> slice \<Rightarrow> bool" where
  "valid_slice st s =
     (slen s \<le> scap s \<and> (scap s = 0 \<or> (arr s < length st \<and> length (st ! arr s) = scap s)))"

definition frame :: "slice \<Rightarrow> store \<Rightarrow> store \<Rightarrow> bool" where
  "frame s st st' =
     (length st \<le> length st'
      \<and> (\<forall>p<length st. length (st' ! p) = length (st ! p) \<and> (p \<noteq> arr s \<longrightarrow> st' ! p = st ! p))
      \<and> elems st' s = elems st s)"

text \<open>
  \<open>reachable L st hs\<close>: a program that starts with an empty store and uses the
  package through \<open>NewHandler\<close>, \<open>WithAttrs\<close>, \<open>WithGroup\<close> and \<open>Handle\<close> (the
  adapter methods are calls of \<open>Handle\<close>) can arrive at the store \<open>st\<close> holding the
  handlers \<open>hs\<close>.
\<close>

inductive reachable :: "golib \<Rightarrow> store \<Rightarrow> Handler list \<Rightarrow> bool" for L :: golib where
  reach_start: "reachable L [] []"
| reach_New: "reachable L st hs \<Longrightarrow> reachable L st (NewHandler wr opts # hs)"
| reach_WithAttrs:
    "reachable L st hs \<Longrightarrow> h \<in> set hs \<Longrightarrow> WithAttrs L fuel h as st = Some (h2, st2) \<Longrightarrow>
     reachable L st2 (h2 # hs)"
| reach_WithGroup:
    "reachable L st hs \<Longrightarrow> h \<in> set hs \<Longrightarrow> WithGroup L h name st = (h2, st2) \<Longrightarrow>
     reachable L st2 (h2 # hs)"
| reach_Handle:
    "reachable L st hs \<Longrightarrow> h \<in> set hs \<Longrightarrow> Handle L fuel h r st out = Some (st2, out2, e) \<Longrightarrow>
     reachable L st2 hs"

text \<open>
  \<open>plain_attr\<close>: no \<open>LogValuer\<close> anywhere in the attribute. \<open>flat_hook\<close>: the
  handler has no rewrite hook, or one that, given an attribute that is neither a
  group nor a \<open>LogValuer\<close>, returns one that is neither; a hook that returns the
  attribute it was given is one. \<open>rendered\<close>: the buffer of \<open>Handle\<close> after the
  last attribute, \<open>gs\<close> being the elements of the handler's \<open>groups\<close>.
\<close>

fun plain_val :: "val \<Rightarrow> bool" and plain_attr :: "attr \<Rightarrow> bool" where
  "plain_val (VGroup as) = list_all plain_attr as"
| "plain_val (VLogValuer x) = False"
| "plain_val v = True"
| "plain_attr (Attr k v) = plain_val v"

definition flat_hook :: "Handler \<Rightarrow> bool" where
  "flat_hook h =
     (case replaceAttr h of
        None \<Rightarrow> True
      | Some rep \<Rightarrow>
          (\<forall>gs a. Kind_of (Value a) \<noteq> KindGroup \<and> Kind_of (Value a) \<noteq> KindLogValuer \<longrightarrow>
                  Kind_of (Value (rep gs a)) \<noteq> KindGroup
                  \<and> Kind_of (Value (rep gs a)) \<noteq> KindLogValuer))"

definition rendered :: "golib \<Rightarrow> nat \<Rightarrow> Handler \<Rightarrow> string list \<Rightarrow> Record \<Rightarrow> string option" where
  "rendered L fuel h gs r =
     map_option
       (\<lambda>ts. time_field L h r @ level_field L h r @ source_field L h r @ message_field L h r
              @ attrsPrefix h @ concat ts)
       (those (map (\<lambda>a. attr_text L fuel h a (groupPrefix h) gs) (Attrs r)))"

text \<open>A handler without colour and a record, for concrete runs.\<close>

definition h_demo :: Handler where
  "h_demo =
     NewHandler 1
       (Some \<lparr>AddSource = False, Level = Some LevelDebug, ReplaceAttr = None,
               TimeFormat = defaultTimeFormat, NoColor = True, Skip = 0\<rparr>)"

definition r_demo :: Record where
  "r_demo =
     \<lparr>Time = \<lparr>instant = 17, mono = None\<rparr>, Message = ''Starting server'', Level = LevelInfo,
      PC = 0, Attrs = [slog_String ''addr'' '':8080'', slog_String ''env'' ''production'']\<rparr>"

text \<open>
  Handlers with a rewrite hook (one that returns the zero attribute, one that
  only empties the key), a handler with colour, and a record with an attribute
  whose \<open>MarshalText\<close> fails.
\<close>

definition h_drop :: Handler where
  "h_drop = h_demo\<lparr>replaceAttr := Some (\<lambda>gs a. Attr [] (VAny AnyNil))\<rparr>"

definition h_nokey :: Handler where
  "h_nokey = h_demo\<lparr>replaceAttr := Some (\<lambda>gs a. Attr [] (Value a))\<rparr>"

definition h_color :: Handler where
  "h_color = NewHandler 1 None"

definition r_marshal :: Record where
  "r_marshal =
     \<lparr>Time = \<lparr>instant = 17, mono = None\<rparr>, Message = ''msg'', Level = LevelInfo,
      PC = 0, Attrs = [Attr ''tm'' (VAny (AnyTextMarshaler (Inl ''failed'')))]\<rparr>"

subsection \<open>The records of the adapters\<close>

text \<open>
  The record that \<open>Info\<close>, \<open>Warn\<close> and \<open>Error\<close> hand to \<open>Handle\<close>, and the record
  the specification describes for \<open>Trace\<close>: the error attribute when there is an
  error, the elapsed time, and the SQL text or the placeholder.
\<close>

definition adapter_record :: "golib \<Rightarrow> gotime \<Rightarrow> nat \<Rightarrow> string \<Rightarrow> arg list \<Rightarrow> Record" where
  "adapter_record L now pc s i =
     \<lparr>Time = now, Message = [], Level = LevelInfo, PC = pc,
      Attrs = slog_String ''msg'' s # filter (\<lambda>a. \<not> isEmptyGroup (Value a)) (argsToAttrs L i)\<rparr>"

definition trace_record ::
  "gotime \<Rightarrow> nat \<Rightarrow> string \<Rightarrow> int \<Rightarrow> int \<Rightarrow> string option \<Rightarrow> Record" where
  "trace_record now pc sql rows elapsed err =
     \<lparr>Time = now, Message = [], Level = LevelInfo, PC = pc,
      Attrs = (case err of None \<Rightarrow> [] | Some e \<Rightarrow> [Attr errKey (VAny (AnyTintError e))])
        @ [Attr ''time'' (VString (Sprintf_3fms elapsed)),
           Attr ''sql'' (VString (if rows = - 1 then ''-'' else sql))]\<rparr>"

definition is_digit :: "char \<Rightarrow> bool" where
  "is_digit c = (c \<in> set ''0123456789'')"

subsection \<open>Escaped text\<close>

text \<open>
  \<open>escaped\<close> reads a text from the left, a backslash taking the byte after it
  with it: it holds when no double quote stands bare and no backslash is left
  without a byte to take. \<open>plain_text\<close> has neither byte; \<open>chunk_ok\<close> is a plain
  text or a backslash, one byte and a plain text.
\<close>

fun escaped :: "string \<Rightarrow> bool" where
  "escaped [] = True"
| "escaped [c] = (c \<noteq> backslash \<and> c \<noteq> dquote)"
| "escaped (c # d # cs) =
     (if c = backslash then escaped cs else if c = dquote then False else escaped (d # cs))"

definition plain_char :: "char \<Rightarrow> bool" where
  "plain_char c = (c \<noteq> backslash \<and> c \<noteq> dquote)"

definition plain_text :: "string \<Rightarrow> bool" where
  "plain_text s = list_all plain_char s"

definition chunk_ok :: "string \<Rightarrow> bool" where
  "chunk_ok ch = (plain_text ch \<or> (\<exists>x rest. ch = backslash # x # rest \<and> plain_text rest))"

text \<open>
  A handler whose hook returns every attribute as it is, and a record whose
  message and attribute value hold a space.
\<close>

definition h_ident :: Handler where
  "h_ident = h_demo\<lparr>replaceAttr := Some (\<lambda>gs a. a)\<rparr>"

definition r_spaced :: Record where
  "r_spaced =
     \<lparr>Time = \<lparr>instant = 17, mono = None\<rparr>, Message = ''a b'', Level = LevelInfo,
      PC = 0, Attrs = [slog_String ''k'' ''a b'']\<rparr>"

subsection \<open>Sibling handlers on one array\<close>

text \<open>
  The hook of the package documentation, which drops the built-in time, and a
  hook that besides shows the open groups under the key \<open>in\<close>. A handler with
  that hook and the source location; the handlers derived from it by the groups
  \<open>a\<close>, \<open>b\<close>, \<open>c\<close> and then, both from the third, \<open>d\<close> and \<open>e\<close>; and the one
  derived from the fourth by binding an attribute. The array of the third has
  room for one more name, which both \<open>d\<close> and \<open>e\<close> write.
\<close>

definition hook_doc :: "string list \<Rightarrow> attr \<Rightarrow> attr" where
  "hook_doc gs a = (if Key a = TimeKey \<and> length gs = 0 then Attr [] (VAny AnyNil) else a)"

definition hook_in :: "string list \<Rightarrow> attr \<Rightarrow> attr" where
  "hook_in gs a =
     (if Key a = ''in'' then Attr ''in'' (VString (concat (map (\<lambda>g. g @ ''/'') gs)))
      else hook_doc gs a)"

definition h_doc :: Handler where
  "h_doc =
     NewHandler 1
       (Some \<lparr>AddSource = False, Level = Some LevelDebug, ReplaceAttr = Some hook_doc,
               TimeFormat = defaultTimeFormat, NoColor = True, Skip = 0\<rparr>)"

definition h_src :: Handler where
  "h_src =
     NewHandler 1
       (Some \<lparr>AddSource = True, Level = Some LevelDebug, ReplaceAttr = Some hook_in,
               TimeFormat = defaultTimeFormat, NoColor = True, Skip = 0\<rparr>)"

definition run_a :: "Handler \<times> store" where
  "run_a = WithGroup lib0 h_src ''a'' []"

definition run_b :: "Handler \<times> store" where
  "run_b = WithGroup lib0 (fst run_a) ''b'' (snd run_a)"

definition run_c :: "Handler \<times> store" where
  "run_c = WithGroup lib0 (fst run_b) ''c'' (snd run_b)"

definition run_d :: "Handler \<times> store" where
  "run_d = WithGroup lib0 (fst run_c) ''d'' (snd run_c)"

definition run_e :: "Handler \<times> store" where
  "run_e = WithGroup lib0 (fst run_c) ''e'' (snd run_d)"

definition st_sib :: store where
  "st_sib = [[''a''], [''a'', ''b''], [''a'', ''b'', ''c'', ''e'']]"

definition h_sib :: Handler where
  "h_sib =
     \<lparr>attrsPrefix = ''a.b.c.d.svc=api '', groupPrefix = ''a.b.c.d.'',
      groups = \<lparr>arr = 2, slen = 4, scap = 4\<rparr>, w = 1, addSource = True, level = LevelDebug,
      replaceAttr = Some hook_in, timeFormat = defaultTimeFormat, noColor = True, skip = 0\<rparr>"

definition r_sib :: Record where
  "r_sib =
     \<lparr>Time = \<lparr>instant = 17, mono = None\<rparr>, Message = ''Starting server'', Level = LevelInfo,
      PC = 1,
      Attrs = [slog_String ''addr'' '':8080'', Attr ''req'' (VGroup [slog_String ''in'' []])]\<rparr>"

text \<open>
  A handler with colour and the source location and without a hook, and a record
  with a program counter that has a frame.
\<close>

definition h_loc :: Handler where
  "h_loc =
     NewHandler 1
       (Some \<lparr>AddSource = True, Level = None, ReplaceAttr = None, TimeFormat = [],
               NoColor = False, Skip = 0\<rparr>)"

definition r_loc :: Record where
  "r_loc =
     \<lparr>Time = \<lparr>instant = 17, mono = None\<rparr>, Message = ''Starting server'', Level = LevelWarn,
      PC = 1, Attrs = [slog_String ''addr'' '':8080'']\<rparr>"

section \<open>Properties\<close>

declare FormatUint.simps [simp del]

subsection \<open>Level rendering\<close>

lemma sint_add_4: "sint (l::64 word) < 0 \<Longrightarrow> sint (l + 4) = sint l + 4"
proof -
  assume a: "sint l < 0"
  have lo: "- (2 ^ 63) \<le> sint l" using sint_ge [of l] by simp
  have "sint (l + 4) = signed_take_bit 63 (sint l + 4)"
    by (simp add: sint_word_ariths)
  also have "\<dots> = sint l + 4"
    using a lo by (intro signed_take_bit_int_eq_self) auto
  finally show ?thesis .
qed

lemma sint_sub_4: "4 \<le> sint (l::64 word) \<Longrightarrow> sint (l - 4) = sint l - 4"
proof -
  assume a: "4 \<le> sint l"
  have hi: "sint l < 2 ^ 63" using sint_lt [of l] by simp
  have "sint (l - 4) = signed_take_bit 63 (sint l - 4)"
    by (simp add: sint_word_ariths)
  also have "\<dots> = sint l - 4"
    using a hi by (intro signed_take_bit_int_eq_self) auto
  finally show ?thesis .
qed

lemma sint_sub_8: "8 \<le> sint (l::64 word) \<Longrightarrow> sint (l - 8) = sint l - 8"
proof -
  assume a: "8 \<le> sint l"
  have hi: "sint l < 2 ^ 63" using sint_lt [of l] by simp
  have "sint (l - 8) = signed_take_bit 63 (sint l - 8)"
    by (simp add: sint_word_ariths)
  also have "\<dots> = sint l - 8"
    using a hi by (intro signed_take_bit_int_eq_self) auto
  finally show ?thesis .
qed

lemma appendLevelDelta_text: "appendLevelDelta buf d = buf @ delta_text (sint d)"
  by (simp add: appendLevelDelta_def delta_text_def WriteByte_def word_sless_alt signed_eq_0_iff)

lemma appendLevel_text:
  "appendLevel h buf lvl =
     buf @ (if noColor h then [] else band_color (sint lvl)) @ band_text (sint lvl)
       @ delta_text (sint lvl - band_base (sint lvl)) @ (if noColor h then [] else ansiReset)"
proof -
  consider (d) "sint lvl < 0" | (i) "0 \<le> sint lvl" "sint lvl < 4"
    | (w) "4 \<le> sint lvl" "sint lvl < 8" | (e) "8 \<le> sint lvl" by linarith
  then show ?thesis
  proof cases
    case d
    then show ?thesis
      by (simp add: appendLevel_def LevelInfo_def LevelDebug_def word_sless_alt
          appendLevelDelta_text sint_add_4 band_text_def band_base_def band_color_def
          WriteStringIf_def WriteString_def)
  next
    case i
    then show ?thesis
      by (simp add: appendLevel_def LevelInfo_def LevelWarn_def word_sless_alt
          appendLevelDelta_text band_text_def band_base_def band_color_def
          WriteStringIf_def WriteString_def)
  next
    case w
    then show ?thesis
      by (simp add: appendLevel_def LevelInfo_def LevelWarn_def LevelError_def word_sless_alt
          appendLevelDelta_text sint_sub_4 band_text_def band_base_def band_color_def
          WriteStringIf_def WriteString_def)
  next
    case e
    then show ?thesis
      by (simp add: appendLevel_def LevelInfo_def LevelWarn_def LevelError_def word_sless_alt
          appendLevelDelta_text sint_sub_8 band_text_def band_base_def band_color_def
          WriteStringIf_def WriteString_def)
  qed
qed

text \<open>
  C3. For every level, \<open>appendLevel\<close> appends the band's colour (when colour is on),
  the band text (DEBUG below Info, INFO below Warn, WARN below Error, ERROR
  otherwise), the offset of the level from the band's canonical value (nothing
  when it is zero, otherwise the signed decimal number, with a plus sign when
  positive) and the reset. The level is a 64-bit integer; the subtraction in the
  code never wraps, so the offset is the mathematical difference.
\<close>

theorem appendLevel_bands:
  "appendLevel h buf lvl =
     buf @ (if noColor h then [] else band_color (sint lvl)) @ band_text (sint lvl)
       @ delta_text (sint lvl - band_base (sint lvl)) @ (if noColor h then [] else ansiReset)
   \<and> band_text (sint LevelDebug) = ''DEBUG'' \<and> band_base (sint LevelDebug) = sint LevelDebug
   \<and> band_text (sint LevelInfo) = ''INFO'' \<and> band_base (sint LevelInfo) = sint LevelInfo
   \<and> band_text (sint LevelWarn) = ''WARN'' \<and> band_base (sint LevelWarn) = sint LevelWarn
   \<and> band_text (sint LevelError) = ''ERROR'' \<and> band_base (sint LevelError) = sint LevelError
   \<and> delta_text 0 = []"
  by (simp add: appendLevel_text band_text_def band_base_def delta_text_def
      LevelDebug_def LevelInfo_def LevelWarn_def LevelError_def)

lemma appendLevel_examples:
  "appendLevel (h\<lparr>noColor := True\<rparr>) [] (LevelError + 1) = ''ERROR+1''"
  "appendLevel (h\<lparr>noColor := True\<rparr>) [] (LevelWarn + 2) = ''WARN+2''"
  "appendLevel (h\<lparr>noColor := True\<rparr>) [] LevelWarn = ''WARN''"
  "appendLevel (h\<lparr>noColor := True\<rparr>) [] (LevelDebug - 3) = ''DEBUG-3''"
  "appendLevel (h\<lparr>noColor := False\<rparr>) [] LevelInfo = ansiBrightGreen @ ''INFO'' @ ansiReset"
  by (simp_all add: appendLevel_text LevelError_def LevelWarn_def LevelDebug_def LevelInfo_def
      band_text_def band_base_def band_color_def delta_text_def FormatInt_def
      FormatUint.simps digit_char_def)

subsection \<open>Appending to a buffer\<close>

lemma appendEscapedRune_app: "appendEscapedRune L buf r = buf @ appendEscapedRune L [] r"
  by (simp add: appendEscapedRune_def)

lemma quote_loop_chunks: "quote_loop L buf s = buf @ concat (quote_chunks L s)"
proof (induction L buf s rule: quote_loop.induct)
  case (1 L buf)
  then show ?case by simp
next
  case (2 L buf c cs)
  obtain r width where rw: "first_rune c cs = (r, width)"
    by (cases "first_rune c cs") auto
  show ?case
  proof (cases "width = 1 \<and> r = RuneError")
    case True
    have "quote_loop L buf (c # cs) = quote_loop L
            (buf @ [backslash, CHR ''x'', lowerhex (of_char c div 16), lowerhex (of_char c mod 16)]) cs"
      using rw True by simp
    also have "\<dots> = (buf @ [backslash, CHR ''x'', lowerhex (of_char c div 16), lowerhex (of_char c mod 16)])
         @ concat (quote_chunks L cs)"
      using "2.IH"(1) [OF rw [symmetric] refl True] .
    also have "\<dots> = buf @ concat (quote_chunks L (c # cs))"
      using rw True by simp
    finally show ?thesis .
  next
    case False
    have "quote_loop L buf (c # cs) = quote_loop L (appendEscapedRune L buf r) (drop (width - 1) cs)"
      using rw False by auto
    also have "\<dots> = appendEscapedRune L buf r @ concat (quote_chunks L (drop (width - 1) cs))"
      using "2.IH"(2) [OF rw [symmetric] refl False] .
    also have "\<dots> = buf @ concat (quote_chunks L (c # cs))"
      using rw False by (auto simp add: appendEscapedRune_app [of L buf])
    finally show ?thesis .
  qed
qed

lemma AppendQuote_text: "AppendQuote L buf s = buf @ Quote L s"
  by (simp add: AppendQuote_def quote_loop_chunks Quote_def)

lemma appendString_text: "appendString L buf s q = buf @ string_text L s q"
  by (simp add: appendString_def AppendQuote_text WriteString_def string_text_def)

lemma appendTime_text: "appendTime L h buf t = buf @ time_text L h t"
  by (simp add: appendTime_def WriteStringIf_def WriteString_def time_text_def)

lemma appendLevel_level_text: "appendLevel h buf lvl = buf @ level_text h lvl"
  by (simp add: appendLevel_text level_text_def)

lemma appendSource_text: "appendSource L h buf src = buf @ source_text L h src"
  by (simp add: appendSource_def WriteStringIf_def WriteString_def WriteByte_def source_text_def
      split: prod.splits)

lemma appendKey_text: "appendKey L h buf k gp = buf @ key_text L h k gp"
  by (simp add: appendKey_def WriteStringIf_def WriteString_def WriteByte_def
      appendString_text key_text_def)

lemma appendError_text: "appendError L h buf e gp = buf @ error_text L h e gp"
  by (simp add: appendError_def WriteStringIf_def WriteString_def WriteByte_def
      appendString_text error_text_def)

lemma appendValue_text: "appendValue L h buf v q = buf @ value_text L h v q"
  by (induction L h buf v q rule: appendValue.induct)
    (simp_all add: appendString_text appendLevel_level_text appendSource_text split: sum.splits)

subsection \<open>Slices\<close>

lemma elems_take: "elems st s = take (slen s) (st ! arr s)"
  by (simp add: elems_def)

lemma frame_refl: "frame s st st"
  by (simp add: frame_def)

lemma frame_trans: "frame s st st1 \<Longrightarrow> frame s st1 st2 \<Longrightarrow> frame s st st2"
  by (auto simp add: frame_def)

lemma frame_valid: "frame s' st st' \<Longrightarrow> valid_slice st s \<Longrightarrow> valid_slice st' s"
  by (auto simp add: frame_def valid_slice_def)

lemma frame_elems: "frame s st st' \<Longrightarrow> elems st' s = elems st s"
  by (simp add: frame_def)

lemma append_slice_props:
  assumes "valid_slice st s" "append_slice L st s x = (st1, s1)"
  shows "valid_slice st1 s1" "elems st1 s1 = elems st s @ [x]" "frame s st st1"
    "\<And>st2. frame s1 st1 st2 \<Longrightarrow> frame s st st2"
    "\<And>s'. valid_slice st s' \<Longrightarrow> valid_slice st1 s'"
proof -
  show "valid_slice st1 s1" "elems st1 s1 = elems st s @ [x]" "frame s st st1"
    "\<And>s'. valid_slice st s' \<Longrightarrow> valid_slice st1 s'"
    using assms
    by (auto simp add: append_slice_def valid_slice_def elems_take frame_def Let_def
        nth_append take_Suc_conv_app_nth nth_list_update split: if_splits)
  show "frame s st st2" if "frame s1 st1 st2" for st2
  proof (cases "slen s < scap s")
    case True
    with assms have st1: "st1 = st[arr s := (st ! arr s)[slen s := x]]"
      and s1: "s1 = s\<lparr>slen := slen s + 1\<rparr>" and a: "arr s < length st"
      and l: "length (st ! arr s) = scap s"
      by (auto simp add: append_slice_def valid_slice_def)
    from that have t: "take (slen s + 1) (st2 ! arr s) = take (slen s + 1) (st1 ! arr s)"
      by (simp add: frame_def elems_take s1)
    have "take (slen s) (st2 ! arr s) = take (slen s) (take (slen s + 1) (st2 ! arr s))"
      by (simp add: min_def)
    also have "\<dots> = take (slen s) (st1 ! arr s)"
      unfolding t by (simp add: min_def)
    also have "\<dots> = take (slen s) (st ! arr s)"
      using a by (simp add: st1)
    finally have e: "elems st2 s = elems st s" by (simp add: elems_take)
    from that show ?thesis
      unfolding frame_def
      by (auto simp add: e st1 s1 nth_list_update)
  next
    case False
    with assms have st1: "st1 = st @ [elems st s @ x # replicate (max (slen s + 1) (growslice L (scap s) (slen s + 1)) - (slen s + 1)) []]"
      and s1: "arr s1 = length st"
      by (auto simp add: append_slice_def Let_def)
    from that have u: "\<forall>p<length st. st2 ! p = st ! p" and l: "length st \<le> length st2"
      by (auto simp add: frame_def st1 s1 nth_append)
    show ?thesis
    proof (cases "scap s = 0")
      case True
      with assms(1) have "slen s = 0" by (simp add: valid_slice_def)
      with u l show ?thesis by (simp add: frame_def elems_def)
    next
      case nz: False
      with assms(1) have "arr s < length st" by (simp add: valid_slice_def)
      with u l show ?thesis by (simp add: frame_def elems_take)
    qed
  qed
qed

subsection \<open>Attributes\<close>

lemma attr_text_Suc:
  "attr_text L (Suc n) h a groupsPrefix gs =
     (let a' = rewritten L h gs a in
      if Equal_zero a' then Some []
      else if Kind_of (Value a') = KindGroup then
        attrs_text L n h (Group (Value a'))
          (if Key a' \<noteq> [] then groupsPrefix @ Key a' @ ''.'' else groupsPrefix)
          (if Key a' \<noteq> [] then gs @ [Key a'] else gs)
      else Some (leaf_text L h a' groupsPrefix @ '' ''))"
  by (simp add: attrs_text_def Let_def)

lemma attr_text_0: "attr_text L 0 h a groupsPrefix gs = None"
  by simp

declare attr_text.simps [simp del]
declare attr_text_0 [simp]

lemma appendAttr_step:
  "appendAttr L (Suc n) h st buf a groupsPrefix gs =
     (let a' = rewritten L h (elems st gs) a in
      if Equal_zero a' then Some (buf, st)
      else if Kind_of (Value a') = KindGroup then
        (if Key a' \<noteq> [] then
           fold_opt (\<lambda>(b, s) groupAttr. appendAttr L n h s b groupAttr
               (groupsPrefix @ Key a' @ ''.'') (snd (append_slice L st gs (Key a'))))
             (Group (Value a')) (buf, fst (append_slice L st gs (Key a')))
         else
           fold_opt (\<lambda>(b, st) groupAttr. appendAttr L n h st b groupAttr groupsPrefix gs)
             (Group (Value a')) (buf, st))
      else Some (buf @ leaf_text L h a' groupsPrefix @ '' '', st))"
proof -
  have leaf: "(case Value x of
          VAny (AnyTintError err) \<Rightarrow>
            Some (WriteByte (appendError L h buf err groupsPrefix) (CHR '' ''), st)
        | _ \<Rightarrow>
            Some (WriteByte (appendValue L h (appendKey L h buf (Key x) groupsPrefix) (Value x) True)
              (CHR '' ''), st))
      = Some (buf @ leaf_text L h x groupsPrefix @ '' '', st)" for x
    by (simp add: leaf_text_def WriteByte_def appendError_text appendKey_text
        appendValue_text [of L h "_ @ _"] del: appendValue.simps
        split: val.splits anyval.splits)
  show ?thesis
    unfolding appendAttr.simps Let_def rewritten_def
    by (simp add: leaf [of "Attr _ _", simplified] leaf split: option.splits prod.splits)
qed

declare appendAttr.simps [simp del]

lemma fold_appendAttr:
  assumes step: "\<And>st buf a. valid_slice st gs \<Longrightarrow>
      rel_option (\<lambda>x t. fst x = buf @ t \<and> frame gs st (snd x)) (f st buf a) (g (elems st gs) a)"
  shows "valid_slice st gs \<Longrightarrow>
      rel_option (\<lambda>x ts. fst x = buf @ concat ts \<and> frame gs st (snd x))
        (fold_opt (\<lambda>(b, st) a. f st b a) xs (buf, st)) (those (map (g (elems st gs)) xs))"
proof (induction xs arbitrary: buf st)
  case Nil
  then show ?case by (simp add: frame_refl)
next
  case (Cons x xs)
  from step [OF Cons.prems, of buf x] show ?case
  proof (cases rule: option.rel_cases)
    case None
    then show ?thesis by simp
  next
    case (Some y t)
    then have b: "fst y = buf @ t" and fr: "frame gs st (snd y)" by simp_all
    from frame_valid [OF fr Cons.prems] have v: "valid_slice (snd y) gs" .
    have e: "elems (snd y) gs = elems st gs" by (rule frame_elems [OF fr])
    from Cons.IH [OF v, of "fst y"]
    have "rel_option (\<lambda>x ts. fst x = fst y @ concat ts \<and> frame gs (snd y) (snd x))
        (fold_opt (\<lambda>(b, st) a. f st b a) xs (fst y, snd y)) (those (map (g (elems st gs)) xs))"
      by (simp add: e)
    then show ?thesis
    proof (cases rule: option.rel_cases)
      case None
      with Some show ?thesis by (cases y) simp
    next
      case (Some z ts)
      with \<open>f st buf x = Some y\<close> \<open>g (elems st gs) x = Some t\<close> b fr show ?thesis
        by (cases y) (auto intro: frame_trans)
    qed
  qed
qed

lemma appendAttr_text:
  "valid_slice st gs \<Longrightarrow>
     rel_option (\<lambda>x t. fst x = buf @ t \<and> frame gs st (snd x))
       (appendAttr L n h st buf a groupsPrefix gs) (attr_text L n h a groupsPrefix (elems st gs))"
proof (induction n arbitrary: st buf a groupsPrefix gs)
  case 0
  then show ?case by (simp add: appendAttr.simps)
next
  case (Suc n)
  let ?a = "rewritten L h (elems st gs) a"
  show ?case
  proof (cases "Equal_zero ?a")
    case True
    then show ?thesis by (simp add: appendAttr_step attr_text_Suc frame_refl)
  next
    case nz: False
    show ?thesis
    proof (cases "Kind_of (Value ?a) = KindGroup")
      case False
      with nz show ?thesis by (simp add: appendAttr_step attr_text_Suc frame_refl)
    next
      case grp: True
      show ?thesis
      proof (cases "Key ?a = []")
        case True
        have "rel_option (\<lambda>x ts. fst x = buf @ concat ts \<and> frame gs st (snd x))
            (fold_opt (\<lambda>(b, st) x. appendAttr L n h st b x groupsPrefix gs) (Group (Value ?a)) (buf, st))
            (those (map (\<lambda>x. attr_text L n h x groupsPrefix (elems st gs)) (Group (Value ?a))))"
          by (rule fold_appendAttr [where g = "\<lambda>gs x. attr_text L n h x groupsPrefix gs",
                OF Suc.IH Suc.prems])
        with nz grp True show ?thesis
          by (simp add: appendAttr_step attr_text_Suc attrs_text_def option.rel_map)
      next
        case False
        obtain st1 gs1 where ap: "append_slice L st gs (Key ?a) = (st1, gs1)"
          by (cases "append_slice L st gs (Key ?a)")
        note p = append_slice_props [OF Suc.prems ap]
        have "rel_option (\<lambda>x ts. fst x = buf @ concat ts \<and> frame gs1 st1 (snd x))
            (fold_opt (\<lambda>(b, st) x. appendAttr L n h st b x (groupsPrefix @ Key ?a @ ''.'') gs1)
               (Group (Value ?a)) (buf, st1))
            (those (map (\<lambda>x. attr_text L n h x (groupsPrefix @ Key ?a @ ''.'') (elems st1 gs1))
               (Group (Value ?a))))"
          by (rule fold_appendAttr [where g = "\<lambda>gs x. attr_text L n h x (groupsPrefix @ Key ?a @ ''.'') gs",
                OF Suc.IH p(1)])
        then have "rel_option (\<lambda>x ts. fst x = buf @ concat ts \<and> frame gs st (snd x))
            (fold_opt (\<lambda>(b, st) x. appendAttr L n h st b x (groupsPrefix @ Key ?a @ ''.'') gs1)
               (Group (Value ?a)) (buf, st1))
            (those (map (\<lambda>x. attr_text L n h x (groupsPrefix @ Key ?a @ ''.'') (elems st gs @ [Key ?a]))
               (Group (Value ?a))))"
          unfolding p(2) by (rule option.rel_mono_strong) (auto intro: p(4))
        with nz grp False show ?thesis
          by (simp add: appendAttr_step attr_text_Suc attrs_text_def option.rel_map ap Let_def)
      qed
    qed
  qed
qed

lemma ends_space_append: "ends_space a \<Longrightarrow> ends_space b \<Longrightarrow> ends_space (a @ b)"
  by (auto simp: ends_space_def last_append)

lemma ends_space_concat: "(\<And>y. y \<in> set ys \<Longrightarrow> ends_space y) \<Longrightarrow> ends_space (concat ys)"
  by (induction ys) (auto simp: ends_space_append, simp add: ends_space_def)

lemma those_SomeD: "those xs = Some ys \<Longrightarrow> y \<in> set ys \<Longrightarrow> Some y \<in> set xs"
  by (induction xs arbitrary: ys) (auto split: option.splits)

lemma attr_text_ends_space:
  "attr_text L n h a groupsPrefix gs = Some s \<Longrightarrow> ends_space s"
proof (induction n arbitrary: a groupsPrefix gs s)
  case 0
  then show ?case by simp
next
  case (Suc n)
  let ?a = "rewritten L h gs a"
  show ?case
  proof (cases "Equal_zero ?a")
    case True
    with Suc.prems show ?thesis by (simp add: attr_text_Suc ends_space_def)
  next
    case nz: False
    show ?thesis
    proof (cases "Kind_of (Value ?a) = KindGroup")
      case False
      with nz Suc.prems show ?thesis by (auto simp add: attr_text_Suc ends_space_def)
    next
      case True
      with nz Suc.prems obtain ys where
        ys: "those (map (\<lambda>x. attr_text L n h x
               (if Key ?a \<noteq> [] then groupsPrefix @ Key ?a @ ''.'' else groupsPrefix)
               (if Key ?a \<noteq> [] then gs @ [Key ?a] else gs)) (Group (Value ?a))) = Some ys"
        and s: "s = concat ys"
        by (auto simp add: attr_text_Suc attrs_text_def Let_def)
      have "ends_space y" if "y \<in> set ys" for y
      proof -
        from those_SomeD [OF ys that] obtain x where
          "attr_text L n h x
               (if Key ?a \<noteq> [] then groupsPrefix @ Key ?a @ ''.'' else groupsPrefix)
               (if Key ?a \<noteq> [] then gs @ [Key ?a] else gs) = Some y" by auto
        then show ?thesis by (rule Suc.IH)
      qed
      then show ?thesis unfolding s by (rule ends_space_concat)
    qed
  qed
qed

lemma attrs_text_ends_space:
  "attrs_text L n h as groupsPrefix gs = Some s \<Longrightarrow> ends_space s"
proof -
  assume a: "attrs_text L n h as groupsPrefix gs = Some s"
  then obtain ys where ys: "those (map (\<lambda>a. attr_text L n h a groupsPrefix gs) as) = Some ys"
    and s: "s = concat ys" by (auto simp: attrs_text_def)
  have "ends_space y" if "y \<in> set ys" for y
  proof -
    from those_SomeD [OF ys that] obtain x where "attr_text L n h x groupsPrefix gs = Some y"
      by auto
    then show ?thesis by (rule attr_text_ends_space)
  qed
  then show ?thesis unfolding s by (rule ends_space_concat)
qed

subsection \<open>Handle\<close>

lemma list_update_last: "xs \<noteq> [] \<Longrightarrow> xs[length xs - Suc 0 := c] = butlast xs @ [c]"
  by (cases xs rule: rev_cases) simp_all

lemma write_line:
  "(if length buf = 0 then Some (s, out, None)
    else (let b = buf[length buf - 1 := CHR 0x0A] in Some (s, out @ [(x, b)], W b)))
   = (if buf = [] then Some (s, out, None)
      else Some (s, out @ [(x, butlast buf @ [newline])], W (butlast buf @ [newline])))"
  by (simp add: Let_def list_update_last newline_def)

lemma Handle_fold:
  "Handle L fuel h r st out =
     (case fold_opt (\<lambda>(b, st) a. appendAttr L fuel h st b a (groupPrefix h) (groups h)) (Attrs r)
             (time_field L h r @ level_field L h r @ source_field L h r @ message_field L h r
                @ attrsPrefix h, st) of
        None \<Rightarrow> None
      | Some x \<Rightarrow>
          if fst x = [] then Some (snd x, out, None)
          else Some (snd x, out @ [(w h, butlast (fst x) @ [newline])],
                     Writer_Write L (w h) (butlast (fst x) @ [newline])))"
proof -
  have "Handle L fuel h r st out =
     (case fold_opt (\<lambda>(b, st) a. appendAttr L fuel h st b a (groupPrefix h) (groups h)) (Attrs r)
             (time_field L h r @ level_field L h r @ source_field L h r @ message_field L h r
                @ attrsPrefix h, st) of
          None \<Rightarrow> None
        | Some (buf, st) \<Rightarrow>
            if length buf = 0 then Some (st, out, None)
            else
              (let buf = buf[length buf - 1 := CHR 0x0A]
               in Some (st, out @ [(w h, buf)], Writer_Write L (w h) buf)))"
    unfolding Handle_def Let_def time_field_def level_field_def source_field_def
      message_field_def newBuffer_def WriteByte_def WriteString_def
      appendTime_text [of L h "[]"] appendLevel_level_text [of h "[]"]
    by (simp add: appendTime_text appendValue_text appendLevel_level_text appendSource_text
        del: appendValue.simps split: option.splits)
  then show ?thesis
    unfolding write_line by (simp split: option.splits prod.splits)
qed

lemma Handle_attrs:
  assumes "valid_slice st (groups h)"
  shows "rel_option
       (\<lambda>x ts. fst x = (time_field L h r @ level_field L h r @ source_field L h r
                          @ message_field L h r @ attrsPrefix h) @ concat ts
              \<and> frame (groups h) st (snd x))
       (fold_opt (\<lambda>(b, st) a. appendAttr L fuel h st b a (groupPrefix h) (groups h)) (Attrs r)
          (time_field L h r @ level_field L h r @ source_field L h r @ message_field L h r
             @ attrsPrefix h, st))
       (those (map (\<lambda>a. attr_text L fuel h a (groupPrefix h) (elems st (groups h))) (Attrs r)))"
  by (rule fold_appendAttr [where g = "\<lambda>gs a. attr_text L fuel h a (groupPrefix h) gs"
        and f = "\<lambda>st b a. appendAttr L fuel h st b a (groupPrefix h) (groups h)",
        OF appendAttr_text assms])

lemma Handle_rendered:
  assumes "valid_slice st (groups h)"
  shows "map_option snd (Handle L fuel h r st out) =
     (case rendered L fuel h (elems st (groups h)) r of
        None \<Rightarrow> None
      | Some line \<Rightarrow>
          if line = [] then Some (out, None)
          else Some (out @ [(w h, butlast line @ [newline])],
                     Writer_Write L (w h) (butlast line @ [newline])))"
  using Handle_attrs [OF assms, of L r fuel]
  by (cases rule: option.rel_cases) (simp_all add: Handle_fold rendered_def)

lemma Handle_frame:
  assumes "valid_slice st (groups h)" "Handle L fuel h r st out = Some (st2, out2, e)"
  shows "frame (groups h) st st2"
  using Handle_attrs [OF assms(1), of L r fuel] assms(2)
  by (cases rule: option.rel_cases) (auto simp add: Handle_fold split: if_splits)

lemma Handle_error_from_write:
  "Handle L fuel h r st out = Some (st2, out2, e) \<Longrightarrow>
     (out2 = out \<and> e = None)
     \<or> (\<exists>line. out2 = out @ [(w h, line)] \<and> e = Writer_Write L (w h) line)"
  by (auto simp add: Handle_fold split: option.splits if_splits)

lemma WithAttrs_attrs:
  assumes "valid_slice st (groups h)"
  shows "rel_option (\<lambda>x ts. fst x = [] @ concat ts \<and> frame (groups h) st (snd x))
       (fold_opt (\<lambda>(b, st) a. appendAttr L fuel h st b a (groupPrefix h) (groups h)) as ([], st))
       (those (map (\<lambda>a. attr_text L fuel h a (groupPrefix h) (elems st (groups h))) as))"
  by (rule fold_appendAttr [where g = "\<lambda>gs a. attr_text L fuel h a (groupPrefix h) gs"
        and f = "\<lambda>st b a. appendAttr L fuel h st b a (groupPrefix h) (groups h)",
        OF appendAttr_text assms])

lemma WithAttrs_state:
  assumes "valid_slice st (groups h)" "as \<noteq> []" "WithAttrs L fuel h as st = Some (h2, st2)"
  shows "\<exists>tx. attrs_text L fuel h as (groupPrefix h) (elems st (groups h)) = Some tx
      \<and> h2 = h\<lparr>attrsPrefix := attrsPrefix h @ tx, skip := 0\<rparr>"
    and "frame (groups h) st st2"
  using WithAttrs_attrs [OF assms(1), of L fuel as] assms(2,3)
  by (cases rule: option.rel_cases;
      auto simp add: WithAttrs_def clone_def Let_def newBuffer_def attrs_text_def
        split: option.splits prod.splits)+

lemma WithGroup_state:
  assumes "name \<noteq> []"
  shows "WithGroup L h name st =
     (h\<lparr>groupPrefix := groupPrefix h @ name @ ''.'',
        groups := snd (append_slice L st (groups h) name), skip := 0\<rparr>,
      fst (append_slice L st (groups h) name))"
  using assms by (simp add: WithGroup_def clone_def Let_def split: prod.splits)

subsection \<open>Reachable states\<close>

lemma NewHandler_fresh:
  "groups (NewHandler wr opts) = nil_slice" "attrsPrefix (NewHandler wr opts) = []"
  by (simp_all add: NewHandler_def Let_def split: option.splits)

lemma valid_nil: "valid_slice st nil_slice"
  by (simp add: valid_slice_def nil_slice_def)

lemma reachable_inv:
  "reachable L st hs \<Longrightarrow> h \<in> set hs \<Longrightarrow>
     valid_slice st (groups h) \<and> ends_space (attrsPrefix h)"
proof (induction arbitrary: h rule: reachable.induct)
  case reach_start
  then show ?case by simp
next
  case (reach_New st hs wr opts)
  then show ?case
    by (auto simp add: NewHandler_fresh valid_nil ends_space_def)
next
  case (reach_WithAttrs st hs h0 fuel as h2 st2)
  from reach_WithAttrs.IH [OF reach_WithAttrs.hyps(2)]
  have v0: "valid_slice st (groups h0)" and e0: "ends_space (attrsPrefix h0)" by simp_all
  show ?case
  proof (cases "as = []")
    case True
    with reach_WithAttrs.hyps(3) have "h2 = h0" "st2 = st" by (simp_all add: WithAttrs_def)
    with reach_WithAttrs show ?thesis by auto
  next
    case False
    from WithAttrs_state [OF v0 False reach_WithAttrs.hyps(3)] obtain tx where
      tx: "attrs_text L fuel h0 as (groupPrefix h0) (elems st (groups h0)) = Some tx"
      and h2: "h2 = h0\<lparr>attrsPrefix := attrsPrefix h0 @ tx, skip := 0\<rparr>"
      and fr: "frame (groups h0) st st2" by auto
    have old: "valid_slice st2 (groups x) \<and> ends_space (attrsPrefix x)" if "x \<in> set hs" for x
      using reach_WithAttrs.IH [OF that] frame_valid [OF fr] by simp
    have "valid_slice st2 (groups h2)" using old [OF reach_WithAttrs.hyps(2)] by (simp add: h2)
    moreover have "ends_space (attrsPrefix h2)"
      using attrs_text_ends_space [OF tx] e0 by (simp add: h2 ends_space_append)
    ultimately show ?thesis using reach_WithAttrs.prems old by auto
  qed
next
  case (reach_WithGroup st hs h0 name h2 st2)
  from reach_WithGroup.IH [OF reach_WithGroup.hyps(2)]
  have v0: "valid_slice st (groups h0)" and e0: "ends_space (attrsPrefix h0)" by simp_all
  show ?case
  proof (cases "name = []")
    case True
    with reach_WithGroup.hyps(3) have "h2 = h0" "st2 = st" by (simp_all add: WithGroup_def)
    with reach_WithGroup show ?thesis by auto
  next
    case False
    obtain s1 g1 where ap: "append_slice L st (groups h0) name = (s1, g1)"
      by (cases "append_slice L st (groups h0) name")
    from reach_WithGroup.hyps(3) have h2: "h2 = h0\<lparr>groupPrefix := groupPrefix h0 @ name @ ''.'',
        groups := g1, skip := 0\<rparr>" and st2: "st2 = s1"
      by (simp_all add: WithGroup_state [OF False] ap)
    note p = append_slice_props [OF v0 ap]
    have old: "valid_slice st2 (groups x) \<and> ends_space (attrsPrefix x)" if "x \<in> set hs" for x
      using reach_WithGroup.IH [OF that] p(5) by (simp add: st2)
    have "valid_slice st2 (groups h2)" using p(1) by (simp add: h2 st2)
    moreover have "ends_space (attrsPrefix h2)" using e0 by (simp add: h2)
    ultimately show ?thesis using reach_WithGroup.prems old by auto
  qed
next
  case (reach_Handle st hs h0 fuel r out st2 out2 e)
  from reach_Handle.IH [OF reach_Handle.hyps(2)]
  have v0: "valid_slice st (groups h0)" by simp
  from Handle_frame [OF v0 reach_Handle.hyps(3)] have fr: "frame (groups h0) st st2" .
  show ?case
    using reach_Handle.IH [OF reach_Handle.prems] frame_valid [OF fr] by simp
qed

subsection \<open>The line of a record\<close>

lemma those_not_None: "(\<And>x. x \<in> set xs \<Longrightarrow> x \<noteq> None) \<Longrightarrow> those xs \<noteq> None"
  by (induction xs) (auto split: option.splits)

lemma Resolve_plain: "plain_val v \<Longrightarrow> Resolve L v = v"
  by (cases v) simp_all

lemma Resolve_not_valuer: "Kind_of v \<noteq> KindLogValuer \<Longrightarrow> Resolve L v = v"
  by (cases v) simp_all

lemma size_child: "x \<in> set as \<Longrightarrow> size x < size (Attr k (VGroup as))"
  by (induction as) auto

lemma rewritten_plain:
  assumes "flat_hook h" "plain_attr a"
  shows "rewritten L h gs a = a \<or> Kind_of (Value (rewritten L h gs a)) \<noteq> KindGroup"
proof (cases a)
  case (Attr k v)
  with assms(2) have rv: "Resolve L v = v" and pv: "plain_val v" by (simp_all add: Resolve_plain)
  show ?thesis
  proof (cases "replaceAttr h")
    case None
    then show ?thesis by (simp add: rewritten_def Attr rv)
  next
    case (Some rep)
    show ?thesis
    proof (cases "Kind_of v = KindGroup")
      case True
      then show ?thesis by (simp add: rewritten_def Attr rv Some)
    next
      case False
      moreover from pv have "Kind_of v \<noteq> KindLogValuer" by (cases v) simp_all
      ultimately have f: "Kind_of (Value (rep gs (Attr k v))) \<noteq> KindGroup"
        "Kind_of (Value (rep gs (Attr k v))) \<noteq> KindLogValuer"
        using assms(1) by (simp_all add: flat_hook_def Some)
      with False show ?thesis
        by (simp add: rewritten_def Attr rv Some Let_def Resolve_not_valuer)
    qed
  qed
qed

lemma attr_text_total:
  assumes "flat_hook h"
  shows "plain_attr a \<Longrightarrow> size a < n \<Longrightarrow> attr_text L n h a groupsPrefix gs \<noteq> None"
proof (induction n arbitrary: a groupsPrefix gs)
  case 0
  then show ?case by simp
next
  case (Suc n)
  let ?a = "rewritten L h gs a"
  show ?case
  proof (cases "Equal_zero ?a \<or> Kind_of (Value ?a) \<noteq> KindGroup")
    case True
    then show ?thesis by (auto simp add: attr_text_Suc Let_def)
  next
    case False
    with rewritten_plain [OF assms Suc.prems(1), of L gs] have eq: "?a = a" by auto
    obtain k v where a: "a = Attr k v" by (cases a)
    with False eq obtain as where v: "v = VGroup as" by (cases v) auto
    have "attr_text L n h x p q \<noteq> None" if "x \<in> set as" for x p q
    proof (rule Suc.IH)
      from Suc.prems(1) that show "plain_attr x" by (simp add: a v list_all_iff)
      from size_child [OF that, of k] Suc.prems(2) show "size x < n" by (simp add: a v)
    qed
    then have "those (map (\<lambda>a. attr_text L n h a p q) as) \<noteq> None" for p q
      by (intro those_not_None) auto
    then have "attrs_text L n h as p q \<noteq> None" for p q
      unfolding attrs_text_def by simp
    with False eq show ?thesis
      by (simp add: attr_text_Suc Let_def a v)
  qed
qed

lemma rendered_total:
  assumes "flat_hook h" "list_all plain_attr (Attrs r)" "list_all (\<lambda>a. size a < fuel) (Attrs r)"
  shows "rendered L fuel h gs r \<noteq> None"
proof -
  have "those (map (\<lambda>a. attr_text L fuel h a (groupPrefix h) gs) (Attrs r)) \<noteq> None"
  proof (rule those_not_None)
    fix x assume "x \<in> set (map (\<lambda>a. attr_text L fuel h a (groupPrefix h) gs) (Attrs r))"
    then obtain a where a: "a \<in> set (Attrs r)"
      and x: "x = attr_text L fuel h a (groupPrefix h) gs" by auto
    from a assms(2,3) have "plain_attr a" "size a < fuel" by (simp_all add: list_all_iff)
    then show "x \<noteq> None" unfolding x by (rule attr_text_total [OF assms(1)])
  qed
  then show ?thesis unfolding rendered_def by simp
qed

lemma fields_end_space:
  "ends_space (time_field L h r)" "ends_space (level_field L h r)"
  "ends_space (source_field L h r)" "ends_space (message_field L h r)"
  by (simp_all add: ends_space_def time_field_def level_field_def source_field_def
      message_field_def Let_def split: option.splits)

lemma rendered_ends_space:
  assumes "ends_space (attrsPrefix h)" "rendered L fuel h gs r = Some line"
  shows "ends_space line"
proof -
  from assms(2) obtain tx where
    t: "attrs_text L fuel h (Attrs r) (groupPrefix h) gs = Some tx"
    and l: "line = time_field L h r @ level_field L h r @ source_field L h r
              @ message_field L h r @ attrsPrefix h @ tx"
    by (auto simp add: rendered_def attrs_text_def)
  show ?thesis
    unfolding l
    by (intro ends_space_append fields_end_space assms(1) attrs_text_ends_space [OF t])
qed

text \<open>
  C1. For every handler that a program can hold (built by \<open>NewHandler\<close>,
  \<open>WithAttrs\<close> and \<open>WithGroup\<close>, in whatever order and with whatever sharing of
  the arrays of group names) and every record, the buffer of \<open>Handle\<close> is, in this
  order, the time field, the level field, the source field (empty when
  \<open>addSource\<close> is off), the message field, the handler's attribute prefix and the
  texts of the record's attributes in their order, under the group prefix of the
  handler and with the hook seeing the names that the handler's \<open>groups\<close> holds in
  the store at the call. Each field and each attribute text is empty or ends with
  the space written after it, so a buffer that is not empty ends with a space;
  that last byte is replaced by a newline and the line is written once to the
  handler's writer, the result being the writer's error. An empty buffer writes
  nothing and returns no error. The call leaves the program in a state it can
  hold, with the names of the handler's groups as they were. \<open>Handle\<close> returns
  whenever the hook returns no group and no \<open>LogValuer\<close> for an attribute that is
  neither, the attributes hold no \<open>LogValuer\<close> and the bound exceeds their sizes.
\<close>

theorem Handle_line:
  assumes "reachable L st hs" and "h \<in> set hs"
  shows
    "map_option snd (Handle L fuel h r st out) =
       (case rendered L fuel h (elems st (groups h)) r of
          None \<Rightarrow> None
        | Some line \<Rightarrow>
            if line = [] then Some (out, None)
            else Some (out @ [(w h, butlast line @ [newline])],
                       Writer_Write L (w h) (butlast line @ [newline])))
     \<and> rendered L fuel h (elems st (groups h)) r =
         map_option
           (\<lambda>ts. time_field L h r @ level_field L h r @ source_field L h r
                  @ message_field L h r @ attrsPrefix h @ concat ts)
           (those (map (\<lambda>a. attr_text L fuel h a (groupPrefix h) (elems st (groups h))) (Attrs r)))
     \<and> ends_space (time_field L h r) \<and> ends_space (level_field L h r)
     \<and> ends_space (source_field L h r) \<and> ends_space (message_field L h r)
     \<and> ends_space (attrsPrefix h)
     \<and> (\<not> addSource h \<longrightarrow> source_field L h r = [])
     \<and> (\<forall>a t. attr_text L fuel h a (groupPrefix h) (elems st (groups h)) = Some t \<longrightarrow> ends_space t)
     \<and> (\<forall>line. rendered L fuel h (elems st (groups h)) r = Some line \<longrightarrow> line \<noteq> [] \<longrightarrow>
           line = butlast line @ '' '')
     \<and> (\<forall>st2 out2 e. Handle L fuel h r st out = Some (st2, out2, e) \<longrightarrow>
           reachable L st2 hs \<and> elems st2 (groups h) = elems st (groups h))
     \<and> (flat_hook h \<and> list_all plain_attr (Attrs r) \<and> list_all (\<lambda>a. size a < fuel) (Attrs r)
          \<longrightarrow> Handle L fuel h r st out \<noteq> None)"
proof -
  from reachable_inv [OF assms] have v: "valid_slice st (groups h)"
    and p: "ends_space (attrsPrefix h)" by simp_all
  note hr = Handle_rendered [OF v, of L fuel r out]
  have last_space: "line = butlast line @ '' ''"
    if "rendered L fuel h (elems st (groups h)) r = Some line" "line \<noteq> []" for line
  proof -
    from rendered_ends_space [OF p that(1)] that(2) have "last line = CHR '' ''"
      by (simp add: ends_space_def)
    with that(2) show ?thesis by (metis append_butlast_last_id)
  qed
  have total: "Handle L fuel h r st out \<noteq> None"
    if "flat_hook h" "list_all plain_attr (Attrs r)" "list_all (\<lambda>a. size a < fuel) (Attrs r)"
  proof
    assume "Handle L fuel h r st out = None"
    with hr have "rendered L fuel h (elems st (groups h)) r = None"
      by (simp split: option.splits if_splits)
    with rendered_total [OF that, of L "elems st (groups h)"] show False by (rule notE)
  qed
  show ?thesis
  proof (intro conjI allI impI)
    show "map_option snd (Handle L fuel h r st out) =
       (case rendered L fuel h (elems st (groups h)) r of
          None \<Rightarrow> None
        | Some line \<Rightarrow>
            if line = [] then Some (out, None)
            else Some (out @ [(w h, butlast line @ [newline])],
                       Writer_Write L (w h) (butlast line @ [newline])))"
      by (rule hr)
    show "rendered L fuel h (elems st (groups h)) r =
         map_option
           (\<lambda>ts. time_field L h r @ level_field L h r @ source_field L h r
                  @ message_field L h r @ attrsPrefix h @ concat ts)
           (those (map (\<lambda>a. attr_text L fuel h a (groupPrefix h) (elems st (groups h))) (Attrs r)))"
      by (rule rendered_def)
    show "ends_space (attrsPrefix h)" by (rule p)
    show "source_field L h r = []" if "\<not> addSource h"
      using that by (simp add: source_field_def)
    show "ends_space t" if "attr_text L fuel h a (groupPrefix h) (elems st (groups h)) = Some t" for a t
      using that by (rule attr_text_ends_space)
    show "line = butlast line @ '' ''"
      if "rendered L fuel h (elems st (groups h)) r = Some line" "line \<noteq> []" for line
      using that by (rule last_space)
    show "reachable L st2 hs" if "Handle L fuel h r st out = Some (st2, out2, e)" for st2 out2 e
      using assms that by (rule reach_Handle)
    show "elems st2 (groups h) = elems st (groups h)"
      if "Handle L fuel h r st out = Some (st2, out2, e)" for st2 out2 e
      using Handle_frame [OF v that] by (rule frame_elems)
    show "Handle L fuel h r st out \<noteq> None"
      if "flat_hook h \<and> list_all plain_attr (Attrs r) \<and> list_all (\<lambda>a. size a < fuel) (Attrs r)"
      using that total by blast
  qed (rule fields_end_space)+
qed

lemma WithGroup_hook: "replaceAttr (fst (WithGroup L h name st)) = replaceAttr h"
  by (simp add: WithGroup_def clone_def Let_def split: prod.splits)

lemma WithAttrs_hook: "WithAttrs L fuel h as st = Some (h2, st2) \<Longrightarrow> replaceAttr h2 = replaceAttr h"
  by (auto simp add: WithAttrs_def clone_def Let_def split: if_splits option.splits prod.splits)

lemma run_values:
  "snd run_e = st_sib"
  "elems (snd run_d) (groups (fst run_d)) = [''a'', ''b'', ''c'', ''d'']"
  "elems (snd run_e) (groups (fst run_d)) = [''a'', ''b'', ''c'', ''e'']"
  "groupPrefix (fst run_d) = ''a.b.c.d.''"
  "map_option (\<lambda>x. ((attrsPrefix (fst x), groupPrefix (fst x), groups (fst x), w (fst x)),
                     (addSource (fst x), level (fst x), timeFormat (fst x), noColor (fst x),
                      skip (fst x)), snd x))
     (WithAttrs lib0 1 (fst run_d) [slog_String ''svc'' ''api''] (snd run_e))
   = Some ((attrsPrefix h_sib, groupPrefix h_sib, groups h_sib, w h_sib),
           (addSource h_sib, level h_sib, timeFormat h_sib, noColor h_sib, skip h_sib), st_sib)"
  by code_simp+

lemma run_bound:
  "WithAttrs lib0 1 (fst run_d) [slog_String ''svc'' ''api''] (snd run_e) = Some (h_sib, st_sib)"
proof -
  from run_values(5) obtain h2 st2 where
    r: "WithAttrs lib0 1 (fst run_d) [slog_String ''svc'' ''api''] (snd run_e) = Some (h2, st2)"
    and f: "attrsPrefix h2 = attrsPrefix h_sib" "groupPrefix h2 = groupPrefix h_sib"
      "groups h2 = groups h_sib" "w h2 = w h_sib" "addSource h2 = addSource h_sib"
      "level h2 = level h_sib" "timeFormat h2 = timeFormat h_sib" "noColor h2 = noColor h_sib"
      "skip h2 = skip h_sib" "st2 = st_sib"
    by auto
  have "replaceAttr h2 = replaceAttr h_src"
    unfolding WithAttrs_hook [OF r] run_d_def run_c_def run_b_def run_a_def WithGroup_hook ..
  also have "\<dots> = replaceAttr h_sib"
    by (simp add: h_src_def h_sib_def NewHandler_def Let_def)
  finally have "h2 = h_sib" using f by (intro Handler.equality) simp_all
  with r f(10) show ?thesis by simp
qed

lemma sib_demo:
  "rendered lib0 3 h_sib [''a'', ''b'', ''c'', ''e''] r_sib =
     Some ''INFO app/main.go:42 Starting server a.b.c.d.svc=api a.b.c.d.addr=:8080 a.b.c.d.req.in=a/b/c/e/req/ ''"
  "Handle lib0 3 h_sib r_sib st_sib [] =
     Some (st_sib @ [[''a'', ''b'', ''c'', ''e'', ''req'', [], [], []]],
           [(1, ''INFO app/main.go:42 Starting server a.b.c.d.svc=api a.b.c.d.addr=:8080 a.b.c.d.req.in=a/b/c/e/req/'' @ [newline])],
           None)"
  "elems st_sib (groups h_sib) = [''a'', ''b'', ''c'', ''e'']"
  by code_simp+

lemma sib_reachable:
  "reachable lib0 st_sib [h_sib, fst run_e, fst run_d, fst run_c, fst run_b, fst run_a, h_src]"
proof -
  have r0: "reachable lib0 [] [h_src]"
    unfolding h_src_def by (rule reach_New [OF reach_start])
  have ra: "reachable lib0 (snd run_a) [fst run_a, h_src]"
    by (rule reach_WithGroup [OF r0, of h_src "''a''"]) (simp_all add: run_a_def)
  have rb: "reachable lib0 (snd run_b) [fst run_b, fst run_a, h_src]"
    by (rule reach_WithGroup [OF ra, of "fst run_a" "''b''"]) (simp_all add: run_b_def)
  have rc: "reachable lib0 (snd run_c) [fst run_c, fst run_b, fst run_a, h_src]"
    by (rule reach_WithGroup [OF rb, of "fst run_b" "''c''"]) (simp_all add: run_c_def)
  have rd: "reachable lib0 (snd run_d) [fst run_d, fst run_c, fst run_b, fst run_a, h_src]"
    by (rule reach_WithGroup [OF rc, of "fst run_c" "''d''"]) (simp_all add: run_d_def)
  have re: "reachable lib0 (snd run_e)
      [fst run_e, fst run_d, fst run_c, fst run_b, fst run_a, h_src]"
    by (rule reach_WithGroup [OF rd, of "fst run_c" "''e''"]) (simp_all add: run_e_def)
  show ?thesis
    by (rule reach_WithAttrs [OF re _ run_bound]) simp
qed

lemma sib_total:
  "flat_hook h_sib" "list_all plain_attr (Attrs r_sib)" "list_all (\<lambda>a. size a < 40) (Attrs r_sib)"
  by (auto simp add: flat_hook_def h_sib_def hook_in_def hook_doc_def r_sib_def slog_String_def)

lemma sib_demo40:
  "rendered lib0 40 h_sib [''a'', ''b'', ''c'', ''e''] r_sib =
     Some ''INFO app/main.go:42 Starting server a.b.c.d.svc=api a.b.c.d.addr=:8080 a.b.c.d.req.in=a/b/c/e/req/ ''"
  by code_simp

lemma loc_demo:
  "rendered lib0 40 h_loc [] r_loc =
     Some (ansiFaint @ ''17'' @ ansiReset @ '' '' @ ansiBrightYellow @ ''WARN'' @ ansiReset @ '' ''
           @ ansiFaint @ ''app/main.go:42'' @ ansiReset @ '' Starting server ''
           @ ansiFaint @ ''addr='' @ ansiReset @ '':8080 '')"
  "elems [] (groups h_loc) = []"
  by code_simp+

theorem Handle_line_witness:
  "reachable lib0 [] [h_loc]
   \<and> map_option snd (Handle lib0 40 h_loc r_loc [] []) =
       Some ([(1, ansiFaint @ ''17'' @ ansiReset @ '' '' @ ansiBrightYellow @ ''WARN'' @ ansiReset
                  @ '' '' @ ansiFaint @ ''app/main.go:42'' @ ansiReset @ '' Starting server ''
                  @ ansiFaint @ ''addr='' @ ansiReset @ '':8080'' @ [newline])],
             None)
   \<and> reachable lib0 st_sib [h_sib, fst run_e, fst run_d, fst run_c, fst run_b, fst run_a, h_src]
   \<and> flat_hook h_sib \<and> list_all plain_attr (Attrs r_sib)
   \<and> list_all (\<lambda>a. size a < 40) (Attrs r_sib)
   \<and> groupPrefix h_sib = ''a.b.c.d.''
   \<and> elems st_sib (groups h_sib) = [''a'', ''b'', ''c'', ''e'']
   \<and> map_option snd (Handle lib0 40 h_sib r_sib st_sib []) =
       Some ([(1, ''INFO app/main.go:42 Starting server a.b.c.d.svc=api a.b.c.d.addr=:8080 a.b.c.d.req.in=a/b/c/e/req/'' @ [newline])],
             None)
   \<and> Handle lib0 40 h_sib r_sib st_sib [] \<noteq> None"
proof -
  have m: "h_sib \<in> set [h_sib, fst run_e, fst run_d, fst run_c, fst run_b, fst run_a, h_src]"
    by simp
  note t = Handle_line [OF sib_reachable m, of 40 r_sib "[]"]
  have rl: "reachable lib0 [] [h_loc]"
    unfolding h_loc_def by (rule reach_New [OF reach_start])
  have ml: "h_loc \<in> set [h_loc]" by simp
  have wl: "w h_loc = 1" by (simp add: h_loc_def NewHandler_def Let_def)
  from Handle_line [OF rl ml, of 40 r_loc "[]"]
  have "map_option snd (Handle lib0 40 h_loc r_loc [] []) =
       (case rendered lib0 40 h_loc (elems [] (groups h_loc)) r_loc of
          None \<Rightarrow> None
        | Some line \<Rightarrow>
            if line = [] then Some ([], None)
            else Some ([] @ [(w h_loc, butlast line @ [newline])],
                       Writer_Write lib0 (w h_loc) (butlast line @ [newline])))"
    by (rule conjunct1)
  then have l: "map_option snd (Handle lib0 40 h_loc r_loc [] []) =
       Some ([(1, ansiFaint @ ''17'' @ ansiReset @ '' '' @ ansiBrightYellow @ ''WARN'' @ ansiReset
                  @ '' '' @ ansiFaint @ ''app/main.go:42'' @ ansiReset @ '' Starting server ''
                  @ ansiFaint @ ''addr='' @ ansiReset @ '':8080'' @ [newline])],
             None)"
    unfolding loc_demo by (simp add: wl lib0_def butlast_append)
  have w1: "w h_sib = 1" by (simp add: h_sib_def)
  have ww: "Writer_Write lib0 x y = None" for x y by (simp add: lib0_def)
  from t have "map_option snd (Handle lib0 40 h_sib r_sib st_sib []) =
       (case rendered lib0 40 h_sib (elems st_sib (groups h_sib)) r_sib of
          None \<Rightarrow> None
        | Some line \<Rightarrow>
            if line = [] then Some ([], None)
            else Some ([] @ [(w h_sib, butlast line @ [newline])],
                       Writer_Write lib0 (w h_sib) (butlast line @ [newline])))"
    by (rule conjunct1)
  then have a: "map_option snd (Handle lib0 40 h_sib r_sib st_sib []) =
       Some ([(1, ''INFO app/main.go:42 Starting server a.b.c.d.svc=api a.b.c.d.addr=:8080 a.b.c.d.req.in=a/b/c/e/req/'' @ [newline])],
             None)"
    by (simp add: sib_demo(3) sib_demo40 w1 ww)
  from t sib_total have b: "Handle lib0 40 h_sib r_sib st_sib [] \<noteq> None"
    by blast
  have "groupPrefix h_sib = ''a.b.c.d.''" by (simp add: h_sib_def)
  with rl l sib_reachable sib_total sib_demo(3) a b show ?thesis by simp
qed

text \<open>
  What sharing does to the fourth handler: it was derived with the group \<open>d\<close>,
  and its prefix says so, but after its sibling was derived with the group \<open>e\<close>
  its \<open>groups\<close> end in \<open>e\<close>, and that is what the hook is told.
\<close>

lemma sibling_overwrites_group:
  "groupPrefix (fst run_d) = ''a.b.c.d.''
   \<and> elems (snd run_d) (groups (fst run_d)) = [''a'', ''b'', ''c'', ''d'']
   \<and> elems (snd run_e) (groups (fst run_d)) = [''a'', ''b'', ''c'', ''e'']"
  using run_values by simp

subsection \<open>Derivation\<close>

text \<open>
  C7. \<open>WithAttrs\<close> on an empty attribute list and \<open>WithGroup\<close> on the empty string
  return the receiver itself (the code returns the pointer \<open>h\<close>) and leave the
  store as it is, whatever the bound on the recursion, so every later call behaves
  as on the receiver.
\<close>

theorem WithAttrs_WithGroup_empty:
  "WithAttrs L fuel h [] st = Some (h, st) \<and> WithGroup L h [] st = (h, st)
   \<and> Handle L fuel (fst (WithGroup L h [] st)) r (snd (WithGroup L h [] st)) out
       = Handle L fuel h r st out"
  by (simp add: WithAttrs_def WithGroup_def)

subsection \<open>The rewrite hook\<close>

lemma rewritten_hook:
  "replaceAttr h = Some rep \<Longrightarrow> Kind_of (Resolve L (Value a)) \<noteq> KindGroup \<Longrightarrow>
   rewritten L h gs a =
     Attr (Key (rep gs (Attr (Key a) (Resolve L (Value a)))))
          (Resolve L (Value (rep gs (Attr (Key a) (Resolve L (Value a))))))"
  by (simp add: rewritten_def Let_def)

lemma rewritten_no_hook:
  "replaceAttr h = None \<Longrightarrow> rewritten L h gs a = Attr (Key a) (Resolve L (Value a))"
  by (simp add: rewritten_def)

lemma leaf_text_error: "leaf_text L h (Attr k (VAny (AnyTintError e))) gp = error_text L h e gp"
  by (simp add: leaf_text_def)

lemma leaf_text_other:
  "(\<And>e. v \<noteq> VAny (AnyTintError e)) \<Longrightarrow>
   leaf_text L h (Attr k v) gp = key_text L h k gp @ value_text L h v True"
  by (simp add: leaf_text_def split: val.splits anyval.splits)

text \<open>
  C5 (amended). When the rewrite hook is configured and, for an attribute that is
  no group, returns the zero attribute (an empty key and, once resolved, the nil
  value), the field is suppressed: \<open>appendAttr\<close> leaves the buffer and the store
  as they were, in every group context. When the returned attribute has an empty
  key and any other value that is no group, the field is still written: a
  \<open>tint.Error\<close> in the error style under the key \<open>err\<close>, any other value under
  the empty key behind the group prefix.
\<close>

theorem hook_zero_attr_suppressed:
  assumes "replaceAttr h = Some rep" and "Kind_of (Resolve L (Value a)) \<noteq> KindGroup"
    and "b = rep (elems st gs) (Attr (Key a) (Resolve L (Value a)))"
    and "v = Resolve L (Value b)"
  shows
    "(Key b = [] \<and> v = VAny AnyNil \<longrightarrow>
        appendAttr L (Suc n) h st buf a groupsPrefix gs = Some (buf, st))
     \<and> (Key b = [] \<and> v = VAny (AnyTintError e) \<longrightarrow>
        appendAttr L (Suc n) h st buf a groupsPrefix gs =
          Some (buf @ (if noColor h then [] else ansiBrightRedFaint)
                  @ string_text L (groupsPrefix @ errKey) True @ ''=''
                  @ (if noColor h then [] else ansiResetFaint) @ string_text L e True
                  @ (if noColor h then [] else ansiReset) @ '' '', st))
     \<and> (Key b = [] \<and> v \<noteq> VAny AnyNil \<and> Kind_of v \<noteq> KindGroup
          \<and> (\<forall>x. v \<noteq> VAny (AnyTintError x)) \<longrightarrow>
        appendAttr L (Suc n) h st buf a groupsPrefix gs =
          Some (buf @ (if noColor h then [] else ansiFaint)
                  @ string_text L groupsPrefix True @ ''=''
                  @ (if noColor h then [] else ansiReset) @ value_text L h v True @ '' '', st))"
proof -
  have r: "rewritten L h (elems st gs) a = Attr (Key b) v"
    using rewritten_hook [OF assms(1,2), of "elems st gs"] by (simp add: assms(3,4))
  show ?thesis
    by (auto simp add: appendAttr_step r Let_def Equal_zero_def leaf_text_error leaf_text_other
        error_text_def key_text_def)
qed

lemma drop_demo:
  "appendAttr lib0 1 h_drop [[''g'']] ''x '' (slog_String ''k'' ''v'') ''g.''
      \<lparr>arr = 0, slen = 1, scap = 1\<rparr> = Some (''x '', [[''g'']])"
  "appendAttr lib0 1 h_nokey [[''g'']] ''x '' (Err (Some ''boom'')) ''g.''
      \<lparr>arr = 0, slen = 1, scap = 1\<rparr> = Some (''x g.err=boom '', [[''g'']])"
  "appendAttr lib0 1 h_nokey [[''g'']] ''x '' (slog_String ''k'' ''v'') ''g.''
      \<lparr>arr = 0, slen = 1, scap = 1\<rparr> = Some (''x g.=v '', [[''g'']])"
  by code_simp+

theorem hook_zero_attr_suppressed_witness:
  "replaceAttr h_drop \<noteq> None \<and> replaceAttr h_nokey \<noteq> None
   \<and> appendAttr lib0 (Suc 0) h_drop [[''g'']] ''x '' (slog_String ''k'' ''v'') ''g.''
        \<lparr>arr = 0, slen = 1, scap = 1\<rparr> = Some (''x '', [[''g'']])
   \<and> appendAttr lib0 (Suc 0) h_nokey [[''g'']] ''x '' (Err (Some ''boom'')) ''g.''
        \<lparr>arr = 0, slen = 1, scap = 1\<rparr> = Some (''x g.err=boom '', [[''g'']])
   \<and> appendAttr lib0 (Suc 0) h_nokey [[''g'']] ''x '' (slog_String ''k'' ''v'') ''g.''
        \<lparr>arr = 0, slen = 1, scap = 1\<rparr> = Some (''x g.=v '', [[''g'']])"
proof -
  have r: "replaceAttr h_drop = Some (\<lambda>gs a. Attr [] (VAny AnyNil))"
    by (simp add: h_drop_def)
  have rn: "replaceAttr h_nokey = Some (\<lambda>gs a. Attr [] (Value a))"
    by (simp add: h_nokey_def)
  have nc: "noColor h_nokey" by (simp add: h_nokey_def h_demo_def NewHandler_def Let_def)
  have k: "Kind_of (Resolve lib0 (Value (slog_String ''k'' ''v''))) \<noteq> KindGroup"
    by (simp add: slog_String_def)
  have ke: "Kind_of (Resolve lib0 (Value (Err (Some ''boom'')))) \<noteq> KindGroup"
    by (simp add: Err_def slog_Any_def)
  have s: "string_text lib0 (''g.'' @ errKey) True = ''g.err''" "string_text lib0 ''boom'' True = ''boom''"
    "string_text lib0 ''g.'' True = ''g.''" "string_text lib0 ''v'' True = ''v''"
    by code_simp+
  from hook_zero_attr_suppressed [OF r k refl refl, where n = 0 and buf = "''x ''"
      and groupsPrefix = "''g.''"]
  have a: "appendAttr lib0 (Suc 0) h_drop [[''g'']] ''x '' (slog_String ''k'' ''v'') ''g.''
        \<lparr>arr = 0, slen = 1, scap = 1\<rparr> = Some (''x '', [[''g'']])"
    by simp
  from hook_zero_attr_suppressed [OF rn ke refl refl, where n = 0 and buf = "''x ''"
      and groupsPrefix = "''g.''" and e = "''boom''"]
  have b: "appendAttr lib0 (Suc 0) h_nokey [[''g'']] ''x '' (Err (Some ''boom'')) ''g.''
        \<lparr>arr = 0, slen = 1, scap = 1\<rparr> = Some (''x g.err=boom '', [[''g'']])"
    using s by (simp add: Err_def slog_Any_def nc)
  from hook_zero_attr_suppressed [OF rn k refl refl, where n = 0 and buf = "''x ''"
      and groupsPrefix = "''g.''"]
  have c: "appendAttr lib0 (Suc 0) h_nokey [[''g'']] ''x '' (slog_String ''k'' ''v'') ''g.''
        \<lparr>arr = 0, slen = 1, scap = 1\<rparr> = Some (''x g.=v '', [[''g'']])"
    using s by (simp add: slog_String_def nc)
  from a b c show ?thesis by (simp add: r rn)
qed

text \<open>
  The claim as stated fails: a hook that only empties the key leaves the field in
  the line. The attribute \<open>k=x\<close> is written as \<open>""=x\<close>, and an error attribute
  keeps its key \<open>err\<close>.
\<close>

theorem empty_key_not_suppressed:
  "Key (the (replaceAttr h_nokey) [] (slog_String ''k'' ''x'')) = []
   \<and> appendAttr lib0 1 h_nokey [] [] (slog_String ''k'' ''x'') [] nil_slice
       = Some ([dquote, dquote, CHR ''='', CHR ''x'', CHR '' ''], [])
   \<and> Key (the (replaceAttr h_nokey) [] (Err (Some ''boom''))) = []
   \<and> appendAttr lib0 1 h_nokey [] [] (Err (Some ''boom'')) [] nil_slice = Some (''err=boom '', [])
   \<and> Handle lib0 1 h_nokey r_demo [] []
       = Some ([], [(1, [dquote, dquote] @ ''=:8080 '' @ [dquote, dquote] @ ''=production'' @ [newline])],
               None)"
  by code_simp

subsection \<open>A failing MarshalText\<close>

lemma key_text_not_empty: "key_text L h k gp \<noteq> []"
  by (simp add: key_text_def)

text \<open>
  C8 (amended). For every attribute whose value, after resolving and rewriting, is
  a \<open>TextMarshaler\<close> whose \<open>MarshalText\<close> returns an error, the failure is
  swallowed: \<open>appendValue\<close> writes nothing for the value, and the only error
  \<open>Handle\<close> ever returns is the one of the writer's \<open>Write\<close>. The field is not
  omitted: its key, the equals sign and the separating space are still written,
  with an empty value.
\<close>

theorem marshal_error_swallowed:
  assumes "Value (rewritten L h (elems st gs) a) = VAny (AnyTextMarshaler (Inl e))"
  shows
    "appendAttr L (Suc n) h st buf a groupsPrefix gs =
       Some (buf @ key_text L h (Key (rewritten L h (elems st gs) a)) groupsPrefix @ '' '', st)
     \<and> appendValue L h buf (VAny (AnyTextMarshaler (Inl e))) quote = buf
     \<and> key_text L h (Key (rewritten L h (elems st gs) a)) groupsPrefix \<noteq> []
     \<and> (\<forall>fuel r s out s' out' err. Handle L fuel h r s out = Some (s', out', err) \<longrightarrow>
           (out' = out \<and> err = None)
           \<or> (\<exists>line. out' = out @ [(w h, line)] \<and> err = Writer_Write L (w h) line))"
proof -
  have "appendAttr L (Suc n) h st buf a groupsPrefix gs =
       Some (buf @ key_text L h (Key (rewritten L h (elems st gs) a)) groupsPrefix @ '' '', st)"
    using assms
    by (simp add: appendAttr_step Let_def Equal_zero_def leaf_text_def)
  moreover have "appendValue L h buf (VAny (AnyTextMarshaler (Inl e))) quote = buf"
    by simp
  ultimately show ?thesis
    using Handle_error_from_write by (simp add: key_text_not_empty)
qed

lemma marshal_demo:
  "Handle lib0 1 h_demo r_marshal [] [] = Some ([], [(1, ''17 INFO msg tm='' @ [newline])], None)"
  by code_simp

theorem marshal_error_swallowed_witness:
  "Value (rewritten lib0 h_demo (elems [] nil_slice) (Attr ''tm'' (VAny (AnyTextMarshaler (Inl ''failed'')))))
     = VAny (AnyTextMarshaler (Inl ''failed''))
   \<and> appendAttr lib0 (Suc 0) h_demo [] ''17 INFO msg '' (Attr ''tm'' (VAny (AnyTextMarshaler (Inl ''failed'')))) [] nil_slice
     = Some (''17 INFO msg tm= '', [])"
proof -
  have v: "Value (rewritten lib0 h_demo (elems [] nil_slice) (Attr ''tm'' (VAny (AnyTextMarshaler (Inl ''failed'')))))
     = VAny (AnyTextMarshaler (Inl ''failed''))"
    by code_simp
  have k: "key_text lib0 h_demo (Key (rewritten lib0 h_demo (elems [] nil_slice) (Attr ''tm'' (VAny (AnyTextMarshaler (Inl ''failed'')))))) []
     = ''tm=''"
    by code_simp
  from marshal_error_swallowed [OF v, where n = 0 and buf = "''17 INFO msg ''" and groupsPrefix = "[]"]
  show ?thesis using v by (simp add: k)
qed

text \<open>
  The claim as stated fails where it says the field is omitted: the record with
  the one attribute \<open>tm\<close> whose \<open>MarshalText\<close> fails is written with \<open>tm=\<close> in
  the line.
\<close>

theorem marshal_error_field_not_omitted:
  "Handle lib0 1 h_demo r_marshal [] [] = Some ([], [(1, ''17 INFO msg tm='' @ [newline])], None)"
  by (rule marshal_demo)

subsection \<open>Errors as attributes\<close>

lemma Err_cases:
  "Err None = Attr errKey (VAny AnyNil)" "Err (Some e) = Attr errKey (VAny (AnyTintError e))"
  by (simp_all add: Err_def slog_Any_def)

text \<open>
  C10. \<open>Err\<close> on the nil error returns the attribute with key \<open>err\<close> and the nil
  value, not wrapped in \<open>Error\<close>; on a non-nil error it returns the key \<open>err\<close>
  with the error wrapped. Where the attribute reaches the rendering as it is (no
  rewrite hook, or one that leaves it), the nil one is written as an ordinary key
  and the default text \<open><nil>\<close>, and the wrapped one by \<open>appendError\<close>, in the
  error style.
\<close>

theorem Err_nil_not_wrapped:
  assumes "rewritten L h (elems st gs) (Err None) = Err None"
    and "rewritten L h (elems st gs) (Err (Some e)) = Err (Some e)"
  shows
    "Err None = Attr errKey (VAny AnyNil)
     \<and> Err (Some e) = Attr errKey (VAny (AnyTintError e))
     \<and> appendAttr L (Suc n) h st buf (Err None) groupsPrefix gs =
         Some (buf @ key_text L h errKey groupsPrefix @ string_text L ''<nil>'' True @ '' '', st)
     \<and> appendAttr L (Suc n) h st buf (Err (Some e)) groupsPrefix gs =
         Some (buf @ error_text L h e groupsPrefix @ '' '', st)"
  using assms
  by (simp add: appendAttr_step Let_def Err_cases Equal_zero_def leaf_text_def errKey_def)

lemma Err_rewritten_no_hook: "replaceAttr h = None \<Longrightarrow> rewritten L h gs (Err x) = Err x"
  by (cases x) (simp_all add: rewritten_no_hook Err_cases)

theorem Err_nil_not_wrapped_witness:
  "rewritten lib0 h_color (elems [] nil_slice) (Err None) = Err None
   \<and> rewritten lib0 h_color (elems [] nil_slice) (Err (Some ''boom'')) = Err (Some ''boom'')
   \<and> appendAttr lib0 (Suc 0) h_color [] [] (Err None) [] nil_slice
       = Some (ansiFaint @ ''err='' @ ansiReset @ ''<nil> '', [])
   \<and> appendAttr lib0 (Suc 0) h_color [] [] (Err (Some ''boom'')) [] nil_slice
       = Some (ansiBrightRedFaint @ ''err='' @ ansiResetFaint @ ''boom'' @ ansiReset @ '' '', [])"
proof -
  have nh: "replaceAttr h_color = None"
    by (simp add: h_color_def NewHandler_def)
  have a: "rewritten lib0 h_color (elems [] nil_slice) (Err None) = Err None"
    and b: "rewritten lib0 h_color (elems [] nil_slice) (Err (Some ''boom'')) = Err (Some ''boom'')"
    by (rule Err_rewritten_no_hook [OF nh])+
  have k: "key_text lib0 h_color errKey [] = ansiFaint @ ''err='' @ ansiReset"
    by code_simp
  have s: "string_text lib0 ''<nil>'' True = ''<nil>''"
    by code_simp
  have e: "error_text lib0 h_color ''boom'' [] = ansiBrightRedFaint @ ''err='' @ ansiResetFaint @ ''boom'' @ ansiReset"
    by code_simp
  from Err_nil_not_wrapped [OF a b, where n = 0 and buf = "[]" and groupsPrefix = "[]"]
  have x: "appendAttr lib0 (Suc 0) h_color [] [] (Err None) [] nil_slice =
         Some ([] @ key_text lib0 h_color errKey [] @ string_text lib0 ''<nil>'' True @ '' '', [])"
    and y: "appendAttr lib0 (Suc 0) h_color [] [] (Err (Some ''boom'')) [] nil_slice =
         Some ([] @ error_text lib0 h_color ''boom'' [] @ '' '', [])"
    by blast+
  show ?thesis
    unfolding x y k s e using a b by simp
qed

subsection \<open>Float arithmetic\<close>

lemma rhe_bound:
  assumes "0 < q"
  shows "\<bar>real_of_int (round_half_even p q) - real_of_int p / real_of_int q\<bar> \<le> 1 / 2"
proof -
  define d where "d = p div q"
  define r where "r = p mod q"
  have p: "p = q * d + r" by (simp add: d_def r_def)
  have r: "0 \<le> r" "r < q" using assms by (simp_all add: r_def)
  have pq: "real_of_int p / real_of_int q = real_of_int d + real_of_int r / real_of_int q"
    using assms by (simp add: p field_simps)
  show ?thesis
  proof (cases "2 * r < q \<or> (2 * r = q \<and> even d)")
    case True
    then have "round_half_even p q = d"
      by (simp add: round_half_even_def d_def r_def Let_def)
    moreover from True have "2 * real_of_int r \<le> real_of_int q" by linarith
    ultimately show ?thesis using assms r by (simp add: pq field_simps)
  next
    case False
    then have "round_half_even p q = d + 1"
      by (simp add: round_half_even_def d_def r_def Let_def)
    moreover from False have "real_of_int q \<le> 2 * real_of_int r" by linarith
    ultimately show ?thesis using assms r by (simp add: pq field_simps)
  qed
qed

lemma scale2_val:
  assumes "0 < q" "scale2 p q e = (p', q')"
  shows "0 < q'" "real_of_int p' / real_of_int q' = real_of_int p / real_of_int q / 2 powi e"
  using assms by (auto simp add: scale2_def power_int_def field_simps split: if_splits)

lemma bitlen_powi:
  assumes "0 < p"
  shows "2 powi (bitlen p - 1) \<le> real_of_int p" "real_of_int p < 2 powi (bitlen p)"
proof -
  from assms have b: "1 \<le> bitlen p" by (auto simp: bitlen_alt_def)
  from bitlen_bounds [OF assms] have "2 ^ nat (bitlen p - 1) \<le> p" "p < 2 ^ nat (bitlen p)" by auto
  then have "real_of_int (2 ^ nat (bitlen p - 1)) \<le> real_of_int p"
    "real_of_int p < real_of_int (2 ^ nat (bitlen p))" by linarith+
  with b show "2 powi (bitlen p - 1) \<le> real_of_int p" "real_of_int p < 2 powi (bitlen p)"
    by (simp_all add: power_int_def)
qed

lemma float64_round_err:
  assumes "0 < p" "0 < q" "float64_round p q = (m, e)"
  shows "\<bar>real_of_int m * 2 powi e - real_of_int p / real_of_int q\<bar>
           \<le> real_of_int p / real_of_int q / 2 ^ 53"
    and "0 \<le> m"
proof -
  define x where "x = real_of_int p / real_of_int q"
  have xpos: "0 < x" using assms by (simp add: x_def)
  define e0 where "e0 = bitlen p - bitlen q"
  obtain p0 q0 where s0: "scale2 p q e0 = (p0, q0)" by (cases "scale2 p q e0")
  define E where "E = (if q0 \<le> p0 then e0 else e0 - 1)"
  obtain p1 q1 where s1: "scale2 p q (E - 52) = (p1, q1)" by (cases "scale2 p q (E - 52)")
  from assms(1,3) have m: "m = round_half_even p1 q1" and e: "e = E - 52"
    by (simp_all add: float64_round_def Let_def e0_def [symmetric] s0 E_def [symmetric] s1)
  from scale2_val [OF assms(2) s0] have q0: "0 < q0"
    and v0: "real_of_int p0 / real_of_int q0 = x / 2 powi e0" by (simp_all add: x_def)
  from scale2_val [OF assms(2) s1] have q1: "0 < q1"
    and v1: "real_of_int p1 / real_of_int q1 = x / 2 powi (E - 52)" by (simp_all add: x_def)
  have up: "x < 2 powi (e0 + 1)"
  proof -
    have "real_of_int p < 2 powi (bitlen p)" by (rule bitlen_powi [OF assms(1)])
    moreover have "2 powi (bitlen q - 1) \<le> real_of_int q" by (rule bitlen_powi [OF assms(2)])
    ultimately have "real_of_int p * 2 powi (bitlen q - 1) < 2 powi (bitlen p) * real_of_int q"
      using assms by (intro mult_less_le_imp_less) auto
    then have "x * 2 powi (bitlen q - 1) < 2 powi (bitlen p)"
      using assms by (simp add: x_def field_simps)
    then have "x < 2 powi (bitlen p) / 2 powi (bitlen q - 1)"
      by (simp add: field_simps)
    also have "\<dots> = 2 powi (e0 + 1)"
      by (simp add: e0_def power_int_diff [symmetric] algebra_simps)
    finally show ?thesis .
  qed
  have lo: "2 powi (e0 - 1) < x"
  proof -
    have "2 powi (bitlen p - 1) \<le> real_of_int p" by (rule bitlen_powi [OF assms(1)])
    moreover have "real_of_int q < 2 powi (bitlen q)" by (rule bitlen_powi [OF assms(2)])
    ultimately have "2 powi (bitlen p - 1) * real_of_int q < real_of_int p * 2 powi (bitlen q)"
      using assms by (intro mult_le_less_imp_less) auto
    then have "2 powi (bitlen p - 1) / 2 powi (bitlen q) < x"
      using assms by (simp add: x_def field_simps)
    moreover have "2 powi (bitlen p - 1) / 2 powi (bitlen q) = (2::real) powi (e0 - 1)"
      by (simp add: e0_def power_int_diff [symmetric] algebra_simps)
    ultimately show ?thesis by simp
  qed
  have test: "q0 \<le> p0 \<longleftrightarrow> 2 powi e0 \<le> x"
  proof -
    have "q0 \<le> p0 \<longleftrightarrow> 1 \<le> real_of_int p0 / real_of_int q0" using q0 by simp
    also have "\<dots> \<longleftrightarrow> 2 powi e0 \<le> x" unfolding v0 by (simp add: field_simps)
    finally show ?thesis .
  qed
  have Elo: "2 powi E \<le> x" using test lo by (auto simp add: E_def)
  have Eup: "x < 2 powi (E + 1)" using test up by (auto simp add: E_def)
  have "\<bar>real_of_int m - x / 2 powi (E - 52)\<bar> \<le> 1 / 2"
    unfolding m v1 [symmetric] by (rule rhe_bound [OF q1])
  then have "\<bar>real_of_int m - x / 2 powi (E - 52)\<bar> * 2 powi (E - 52) \<le> 1 / 2 * 2 powi (E - 52)"
    by (intro mult_right_mono) auto
  moreover have "\<bar>real_of_int m - x / 2 powi (E - 52)\<bar> * 2 powi (E - 52)
      = \<bar>real_of_int m * 2 powi (E - 52) - x\<bar>"
  proof -
    have "\<bar>real_of_int m - x / 2 powi (E - 52)\<bar> * 2 powi (E - 52)
        = \<bar>(real_of_int m - x / 2 powi (E - 52)) * 2 powi (E - 52)\<bar>"
      by (simp add: abs_mult)
    also have "(real_of_int m - x / 2 powi (E - 52)) * 2 powi (E - 52)
        = real_of_int m * 2 powi (E - 52) - x"
      by (simp add: field_simps)
    finally show ?thesis .
  qed
  moreover have "1 / 2 * 2 powi (E - 52) = 2 powi E / (2::real) ^ 53"
    by (simp add: power_int_diff)
  moreover have "2 powi E / (2::real) ^ 53 \<le> x / 2 ^ 53"
    using Elo by (simp add: divide_right_mono)
  ultimately show "\<bar>real_of_int m * 2 powi e - real_of_int p / real_of_int q\<bar>
           \<le> real_of_int p / real_of_int q / 2 ^ 53"
    unfolding e x_def [symmetric] by linarith
  have "0 \<le> p1" using s1 assms(1) by (auto simp add: scale2_def split: if_splits)
  then have "0 \<le> p1 div q1" using q1 by (simp add: pos_imp_zdiv_nonneg_iff)
  then show "0 \<le> m" unfolding m round_half_even_def Let_def by auto
qed

lemma bitlen_1000000: "bitlen 1000000 = 20"
  by (simp add: compute_bitlen)

lemma bitlen_1: "bitlen 1 = 1"
  by (simp add: compute_bitlen)

lemma float64_1e6: "float64_of_int 1000000 = (False, 8589934592000000, - 33)"
  by (simp add: float64_of_int_def float64_round_def bitlen_1000000 bitlen_1 scale2_def
      round_half_even_def Let_def)

lemma thousandths_bound:
  "\<bar>1000 * int (thousandths (float64_div (float64_of_int ns) (float64_of_int 1000000))) - \<bar>ns\<bar>\<bar> * 2 ^ 51 \<le> 500 * 2 ^ 51 + \<bar>ns\<bar>"
proof (cases "ns = 0")
  case True
  then show ?thesis
    unfolding float64_1e6
    by (simp add: float64_of_int_def float64_round_def
        float64_div_def scale2_def thousandths_def round_half_even_def Let_def)
next
  case False
  define a where "a = \<bar>ns\<bar>"
  have apos: "0 < a" using False by (simp add: a_def)
  obtain m1 e1 where f1: "float64_round a 1 = (m1, e1)" by (cases "float64_round a 1")
  define x1 where "x1 = real_of_int m1 * 2 powi e1"
  from float64_round_err [OF apos _ f1] have err1: "\<bar>x1 - real_of_int a\<bar> \<le> real_of_int a / 2 ^ 53"
    and m1nn: "0 \<le> m1" by (simp_all add: x1_def)
  have x1pos: "0 < x1"
  proof -
    have "real_of_int a / 2 ^ 53 < real_of_int a" using apos by simp
    with err1 show ?thesis by linarith
  qed
  then have m1pos: "0 < m1" using m1nn by (cases "m1 = 0") (simp_all add: x1_def)
  obtain p q where sc: "scale2 m1 8589934592000000 (- 33 - e1) = (p, q)"
    by (cases "scale2 m1 8589934592000000 (- 33 - e1)")
  from scale2_val [OF _ sc] have qpos: "0 < q"
    and pq: "real_of_int p / real_of_int q
       = real_of_int m1 / real_of_int 8589934592000000 / 2 powi (- 33 - e1)" by simp_all
  have pq': "real_of_int p / real_of_int q = x1 / 1000000"
    unfolding pq x1_def by (simp add: power_int_diff power_int_minus field_simps)
  have ppos: "0 < p"
  proof -
    have "0 < real_of_int p / real_of_int q" unfolding pq' using x1pos by simp
    with qpos show ?thesis by (simp add: zero_less_divide_iff)
  qed
  obtain m2 e2 where f2: "float64_round p q = (m2, e2)" by (cases "float64_round p q")
  define x2 where "x2 = real_of_int m2 * 2 powi e2"
  from float64_round_err [OF ppos qpos f2] have err2: "\<bar>x2 - x1 / 1000000\<bar> \<le> x1 / 1000000 / 2 ^ 53"
    and m2nn: "0 \<le> m2" by (simp_all add: x2_def pq')
  have em: "float64_div (float64_of_int ns) (float64_of_int 1000000) = (ns < 0, m2, e2)"
    unfolding float64_1e6
    by (simp add: float64_of_int_def float64_div_def a_def [symmetric] f1 sc f2)
  obtain p3 q3 where s3: "scale2 (m2 * 1000) 1 (- e2) = (p3, q3)"
    by (cases "scale2 (m2 * 1000) 1 (- e2)")
  from scale2_val [OF _ s3] have q3: "0 < q3"
    and v3: "real_of_int p3 / real_of_int q3 = 1000 * x2"
    by (simp_all add: x2_def power_int_minus field_simps)
  define k where "k = round_half_even p3 q3"
  have knn: "0 \<le> k"
  proof -
    have "0 \<le> p3" using s3 m2nn by (auto simp add: scale2_def split: if_splits)
    then have "0 \<le> p3 div q3" using q3 by (simp add: pos_imp_zdiv_nonneg_iff)
    then show ?thesis unfolding k_def round_half_even_def Let_def by auto
  qed
  have th: "int (thousandths (float64_div (float64_of_int ns) (float64_of_int 1000000))) = k"
    using knn by (simp add: thousandths_def em s3 k_def)
  have kerr: "\<bar>real_of_int k - 1000 * x2\<bar> \<le> 1 / 2"
    unfolding k_def v3 [symmetric] by (rule rhe_bound [OF q3])
  have x1up: "x1 \<le> 2 * real_of_int a"
  proof -
    have "real_of_int a / 2 ^ 53 \<le> real_of_int a" using apos by simp
    with err1 show ?thesis by linarith
  qed
  have d1: "\<bar>x1 / 1000000 - real_of_int a / 1000000\<bar> = \<bar>x1 - real_of_int a\<bar> / 1000000"
    by (simp add: diff_divide_distrib [symmetric])
  have "\<bar>x2 - real_of_int a / 1000000\<bar> \<le> \<bar>x2 - x1 / 1000000\<bar> + \<bar>x1 - real_of_int a\<bar> / 1000000"
    unfolding d1 [symmetric] by linarith
  also have "\<dots> \<le> x1 / 1000000 / 2 ^ 53 + real_of_int a / 2 ^ 53 / 1000000"
    using err1 err2 by (intro add_mono divide_right_mono) auto
  also have "\<dots> \<le> 2 * real_of_int a / 1000000 / 2 ^ 53 + real_of_int a / 2 ^ 53 / 1000000"
    using x1up by (intro add_mono divide_right_mono) auto
  also have "\<dots> \<le> real_of_int a / 1000000 / 2 ^ 51"
    using apos by simp
  finally have e2: "\<bar>x2 - real_of_int a / 1000000\<bar> \<le> real_of_int a / 1000000 / 2 ^ 51" .
  define d where "d = real_of_int a / 2 ^ 51"
  from e2 have "\<bar>x2 - real_of_int a / 1000000\<bar> \<le> d / 1000000"
    by (simp add: d_def)
  then have l1: "x2 * 1000000 - real_of_int a \<le> d" "- d \<le> x2 * 1000000 - real_of_int a"
    by (simp_all add: abs_le_iff field_simps)
  from kerr have l2: "real_of_int k - 1000 * x2 \<le> 1 / 2" "- (1 / 2) \<le> real_of_int k - 1000 * x2"
    by linarith+
  from l1 l2 have "1000 * real_of_int k - real_of_int a \<le> 500 + d"
    "- (500 + d) \<le> 1000 * real_of_int k - real_of_int a"
    by linarith+
  then have "\<bar>1000 * real_of_int k - real_of_int a\<bar> \<le> 500 + d"
    by (simp add: abs_le_iff)
  then have "\<bar>1000 * real_of_int k - real_of_int a\<bar> * 2 ^ 51 \<le> (500 + d) * 2 ^ 51"
    by (intro mult_right_mono) simp_all
  also have "(500 + d) * 2 ^ 51 = 500 * 2 ^ 51 + real_of_int a"
    by (simp add: d_def field_simps)
  finally have "\<bar>1000 * real_of_int k - real_of_int a\<bar> * 2 ^ 51 \<le> 500 * 2 ^ 51 + real_of_int a" .
  then have "real_of_int (\<bar>1000 * k - a\<bar> * 2 ^ 51) \<le> real_of_int (500 * 2 ^ 51 + a)"
    by simp
  then have "\<bar>1000 * k - a\<bar> * 2 ^ 51 \<le> 500 * 2 ^ 51 + a"
    by (simp only: of_int_le_iff)
  then show ?thesis unfolding th a_def .
qed

lemma thousandths_nearest:
  assumes "\<bar>ns\<bar> < 2 ^ 51"
  shows "\<bar>1000 * int (thousandths (float64_div (float64_of_int ns) (float64_of_int 1000000))) - \<bar>ns\<bar>\<bar> \<le> 500"
proof -
  from thousandths_bound [of ns] assms
  have "\<bar>1000 * int (thousandths (float64_div (float64_of_int ns) (float64_of_int 1000000))) - \<bar>ns\<bar>\<bar> * 2 ^ 51 < 501 * 2 ^ 51"
    by linarith
  then show ?thesis by simp
qed

lemma bitlen_numeral_simps:
  "bitlen (numeral (Num.Bit0 n)) = bitlen (numeral n) + 1"
  "bitlen (numeral (Num.Bit1 n)) = bitlen (numeral n) + 1"
  "bitlen (numeral Num.One) = 1"
  by (subst compute_bitlen, simp)+

subsection \<open>The adapters\<close>

lemma adapter_record_eq:
  "Add L (AddAttrs (NewRecord now LevelInfo [] pc) [slog_String ''msg'' s]) i
     = adapter_record L now pc s i"
  by (simp add: Add_def AddAttrs_def NewRecord_def adapter_record_def isEmptyGroup_def
      slog_String_def)

lemma level_field_Info:
  "replaceAttr h = None \<Longrightarrow> Level r = LevelInfo \<Longrightarrow>
   level_field L h r =
     (if noColor h then [] else ansiBrightGreen) @ ''INFO'' @ (if noColor h then [] else ansiReset)
       @ '' ''"
  by (simp add: level_field_def level_text_def appendLevel_text LevelInfo_def band_text_def
      band_color_def band_base_def delta_text_def)

text \<open>
  C9. Whenever the gate of \<open>Warn\<close> (at Warn) or of \<open>Error\<close> (at Error) passes, on
  the handler and on the logger alike, the record handed to \<open>Handle\<close> carries the
  level Info, not Warn or Error; without a rewrite hook its level field is the
  INFO band.
\<close>

theorem Warn_Error_tagged_Info:
  "(Enabled h LevelWarn \<longrightarrow>
      Handler_Warn L fuel h now pc s i st out
        = map_option drop_error (Handle L fuel h (adapter_record L now pc s i) st out))
   \<and> (Enabled h LevelError \<longrightarrow>
      Handler_Error L fuel h now pc s i st out
        = map_option drop_error (Handle L fuel h (adapter_record L now pc s i) st out))
   \<and> (Enabled (Logger_Handler lg) LevelWarn \<longrightarrow>
      Logger_Warn L fuel lg now pc s i st out
        = map_option drop_error
            (Handle L fuel (Logger_Handler lg) (adapter_record L now pc s i) st out))
   \<and> (Enabled (Logger_Handler lg) LevelError \<longrightarrow>
      Logger_Error L fuel lg now pc s i st out
        = map_option drop_error
            (Handle L fuel (Logger_Handler lg) (adapter_record L now pc s i) st out))
   \<and> Level (adapter_record L now pc s i) = LevelInfo
   \<and> Level (adapter_record L now pc s i) \<noteq> LevelWarn
   \<and> Level (adapter_record L now pc s i) \<noteq> LevelError
   \<and> (replaceAttr h = None \<longrightarrow>
        level_field L h (adapter_record L now pc s i) =
          (if noColor h then [] else ansiBrightGreen) @ ''INFO''
            @ (if noColor h then [] else ansiReset) @ '' '')"
proof -
  have l: "Level (adapter_record L now pc s i) = LevelInfo"
    by (simp add: adapter_record_def)
  have ne: "LevelInfo \<noteq> LevelWarn" "LevelInfo \<noteq> LevelError"
    by (simp_all add: LevelInfo_def LevelWarn_def LevelError_def)
  show ?thesis
    by (simp add: Handler_Warn_def Handler_Error_def Logger_Warn_def Logger_Error_def Let_def
        adapter_record_eq l level_field_Info ne)
qed

lemma warn_demo:
  "Handle lib0 (Suc 0) (h_demo\<lparr>level := LevelWarn\<rparr>) (adapter_record lib0 \<lparr>instant = 17, mono = None\<rparr> 0 ''careful'' []) [] []
     = Some ([], [(1, ''17 INFO  msg=careful'' @ [newline])], None)"
  "Enabled (h_demo\<lparr>level := LevelWarn\<rparr>) LevelWarn"
  "Enabled (h_demo\<lparr>level := LevelWarn\<rparr>) LevelError"
  by code_simp+

theorem Warn_Error_tagged_Info_witness:
  "Enabled (h_demo\<lparr>level := LevelWarn\<rparr>) LevelWarn
   \<and> Enabled (h_demo\<lparr>level := LevelWarn\<rparr>) LevelError
   \<and> Handler_Warn lib0 1 (h_demo\<lparr>level := LevelWarn\<rparr>) \<lparr>instant = 17, mono = None\<rparr> 0 ''careful'' [] [] []
       = Some ([], [(1, ''17 INFO  msg=careful'' @ [newline])])
   \<and> Handler_Error lib0 1 (h_demo\<lparr>level := LevelWarn\<rparr>) \<lparr>instant = 17, mono = None\<rparr> 0 ''careful'' [] [] []
       = Some ([], [(1, ''17 INFO  msg=careful'' @ [newline])])
   \<and> Logger_Warn lib0 1 \<lparr>Logger_Handler = h_demo\<lparr>level := LevelWarn\<rparr>\<rparr> \<lparr>instant = 17, mono = None\<rparr> 0 ''careful'' [] [] []
       = Some ([], [(1, ''17 INFO  msg=careful'' @ [newline])])
   \<and> Logger_Error lib0 1 \<lparr>Logger_Handler = h_demo\<lparr>level := LevelWarn\<rparr>\<rparr> \<lparr>instant = 17, mono = None\<rparr> 0 ''careful'' [] [] []
       = Some ([], [(1, ''17 INFO  msg=careful'' @ [newline])])"
  using Warn_Error_tagged_Info [of "h_demo\<lparr>level := LevelWarn\<rparr>" lib0 1
      "\<lparr>instant = 17, mono = None\<rparr>" 0 "''careful''" "[]" "[]" "[]"
      "\<lparr>Logger_Handler = h_demo\<lparr>level := LevelWarn\<rparr>\<rparr>"]
  by (simp add: warn_demo drop_error_def)

lemma digit_char_is_digit: "d < 10 \<Longrightarrow> is_digit (digit_char d)"
proof -
  assume "d < 10"
  then have "d < length ''0123456789''" by simp
  then have "''0123456789'' ! d \<in> set ''0123456789''" by (rule nth_mem)
  then show ?thesis by (simp only: is_digit_def digit_char_def)
qed

lemma FormatUint_digits: "list_all is_digit (FormatUint n) \<and> FormatUint n \<noteq> []"
proof (induction n rule: FormatUint.induct)
  case (1 n)
  show ?case
  proof (cases "n < 10")
    case True
    then show ?thesis
      by (subst (1 2) FormatUint.simps) (simp add: digit_char_is_digit)
  next
    case False
    with 1 have "list_all is_digit (FormatUint (n div 10))" by simp
    with False show ?thesis
      by (subst (1 2) FormatUint.simps) (simp add: digit_char_is_digit)
  qed
qed

lemma float64_div_sign:
  "fst (float64_div (float64_of_int ns) (float64_of_int 1000000)) = (ns < 0)"
  unfolding float64_1e6 by (simp add: float64_div_def float64_of_int_def split: prod.splits)

lemma Sprintf_3fms_form:
  "\<exists>k ip fp. Sprintf_3fms ns = (if ns < 0 then ''-'' else []) @ ip @ ''.'' @ fp @ ''ms''
      \<and> ip = FormatUint (k div 1000) \<and> ip \<noteq> [] \<and> list_all is_digit ip
      \<and> fp = [digit_char (k div 100 mod 10), digit_char (k div 10 mod 10), digit_char (k mod 10)]
      \<and> length fp = 3 \<and> list_all is_digit fp
      \<and> \<bar>1000 * int k - \<bar>ns\<bar>\<bar> * 2 ^ 51 \<le> 500 * 2 ^ 51 + \<bar>ns\<bar>
      \<and> (\<bar>ns\<bar> < 2 ^ 51 \<longrightarrow> \<bar>1000 * int k - \<bar>ns\<bar>\<bar> \<le> 500)"
proof -
  define k where "k = thousandths (float64_div (float64_of_int ns) (float64_of_int 1000000))"
  let ?fp = "[digit_char (k div 100 mod 10), digit_char (k div 10 mod 10), digit_char (k mod 10)]"
  have "Sprintf_3fms ns = (if ns < 0 then ''-'' else []) @ FormatUint (k div 1000) @ ''.'' @ ?fp @ ''ms''"
    by (simp add: Sprintf_3fms_def Sprintf_3f_def float64_div_sign k_def Let_def)
  moreover have "list_all is_digit ?fp" by (simp add: digit_char_is_digit)
  moreover note FormatUint_digits [of "k div 1000"]
  moreover have "\<bar>1000 * int k - \<bar>ns\<bar>\<bar> * 2 ^ 51 \<le> 500 * 2 ^ 51 + \<bar>ns\<bar>"
    unfolding k_def by (rule thousandths_bound)
  moreover have "\<bar>1000 * int k - \<bar>ns\<bar>\<bar> \<le> 500" if "\<bar>ns\<bar> < 2 ^ 51"
    unfolding k_def using that by (rule thousandths_nearest)
  ultimately show ?thesis
    by (intro exI [of _ k] exI [of _ "FormatUint (k div 1000)"] exI [of _ ?fp]) simp
qed

lemma trace_record_eq:
  "(let r = NewRecord now LevelInfo [] pc;
        r = (if err \<noteq> None then AddAttrs r [Err err] else r);
        r = (if rows = - 1 then
               AddAttrs r [slog_String ''time'' (Sprintf_3fms elapsed), slog_String ''sql'' ''-'']
             else
               AddAttrs r [slog_String ''time'' (Sprintf_3fms elapsed), slog_String ''sql'' sql])
    in r) = trace_record now pc sql rows elapsed err"
  by (cases err)
    (simp_all add: Let_def NewRecord_def AddAttrs_def trace_record_def slog_String_def
      isEmptyGroup_def Err_cases)

lemma Handler_Trace_record:
  "Enabled h LevelInfo \<Longrightarrow>
   Handler_Trace L fuel h now pc (sql, rows) elapsed err st out
     = map_option drop_error (Handle L fuel h (trace_record now pc sql rows elapsed err) st out)"
  unfolding Handler_Trace_def using trace_record_eq [of now pc err rows elapsed sql]
  by (simp add: Let_def)

lemma Logger_Trace_record:
  "Enabled (Logger_Handler lg) LevelInfo \<Longrightarrow>
   Logger_Trace L fuel lg now pc (sql, rows) elapsed err st out
     = map_option drop_error
         (Handle L fuel (Logger_Handler lg) (trace_record now pc sql rows elapsed err) st out)"
  unfolding Logger_Trace_def using trace_record_eq [of now pc err rows elapsed sql]
  by (simp add: Let_def)

lemma string_attr_unchanged:
  "rewritten L h (elems st gs) (slog_String k v) = slog_String k v \<Longrightarrow>
   appendAttr L (Suc n) h st buf (slog_String k v) groupsPrefix gs =
     Some (buf @ key_text L h k groupsPrefix @ string_text L v True @ '' '', st)"
  by (simp add: appendAttr_step slog_String_def Equal_zero_def leaf_text_def)

lemma error_attr_unchanged:
  "rewritten L h (elems st gs) (Err (Some e)) = Err (Some e) \<Longrightarrow>
   appendAttr L (Suc n) h st buf (Err (Some e)) groupsPrefix gs =
     Some (buf @ error_text L h e groupsPrefix @ '' '', st)"
  by (simp add: appendAttr_step Err_cases Equal_zero_def leaf_text_def)

text \<open>
  C6 (amended). Every \<open>Trace\<close> call that passes the gate (at Info) hands to
  \<open>Handle\<close> an Info record whose attributes are, in this order: the wrapped error
  under the key \<open>err\<close> when an error was supplied; under the key \<open>time\<close> the
  elapsed time as the text of \<open>%.3fms\<close>; and under the key \<open>sql\<close> the placeholder
  \<open>-\<close> when the row count is -1 and the SQL text otherwise. The time text is a
  minus sign when the elapsed time is negative, the digits of the integer part, a
  point, exactly three digits and \<open>ms\<close>; the figure is the elapsed time in
  milliseconds rounded to thousandths through \<open>float64\<close>, within half a
  microsecond of the elapsed time when that is below \<open>2 ^ 51\<close> nanoseconds.
  Each of the three attributes is written under its key, the strings under the
  quoting rule and the error in the error style, when there is no rewrite hook
  or the hook leaves the attribute as it is.
\<close>

theorem Trace_record:
  "(Enabled h LevelInfo \<longrightarrow>
      Handler_Trace L fuel h now pc (sql, rows) elapsed err st out
        = map_option drop_error (Handle L fuel h (trace_record now pc sql rows elapsed err) st out))
   \<and> (Enabled (Logger_Handler lg) LevelInfo \<longrightarrow>
      Logger_Trace L fuel lg now pc (sql, rows) elapsed err st out
        = map_option drop_error
            (Handle L fuel (Logger_Handler lg) (trace_record now pc sql rows elapsed err) st out))
   \<and> Level (trace_record now pc sql rows elapsed err) = LevelInfo
   \<and> Attrs (trace_record now pc sql rows elapsed None) =
        [slog_String ''time'' (Sprintf_3fms elapsed),
         slog_String ''sql'' (if rows = - 1 then ''-'' else sql)]
   \<and> Attrs (trace_record now pc sql rows elapsed (Some e)) =
        [Err (Some e), slog_String ''time'' (Sprintf_3fms elapsed),
         slog_String ''sql'' (if rows = - 1 then ''-'' else sql)]
   \<and> (\<exists>k ip fp. Sprintf_3fms elapsed = (if elapsed < 0 then ''-'' else []) @ ip @ ''.'' @ fp @ ''ms''
         \<and> ip = FormatUint (k div 1000) \<and> ip \<noteq> [] \<and> list_all is_digit ip
         \<and> fp = [digit_char (k div 100 mod 10), digit_char (k div 10 mod 10), digit_char (k mod 10)]
         \<and> length fp = 3 \<and> list_all is_digit fp
         \<and> \<bar>1000 * int k - \<bar>elapsed\<bar>\<bar> * 2 ^ 51 \<le> 500 * 2 ^ 51 + \<bar>elapsed\<bar>
         \<and> (\<bar>elapsed\<bar> < 2 ^ 51 \<longrightarrow> \<bar>1000 * int k - \<bar>elapsed\<bar>\<bar> \<le> 500))
   \<and> (rewritten L h (elems st gs) (slog_String ''time'' (Sprintf_3fms elapsed))
         = slog_String ''time'' (Sprintf_3fms elapsed) \<longrightarrow>
       appendAttr L (Suc n) h st buf (slog_String ''time'' (Sprintf_3fms elapsed)) groupsPrefix gs
         = Some (buf @ key_text L h ''time'' groupsPrefix
                   @ string_text L (Sprintf_3fms elapsed) True @ '' '', st))
   \<and> (rewritten L h (elems st gs) (slog_String ''sql'' (if rows = - 1 then ''-'' else sql))
         = slog_String ''sql'' (if rows = - 1 then ''-'' else sql) \<longrightarrow>
       appendAttr L (Suc n) h st buf (slog_String ''sql'' (if rows = - 1 then ''-'' else sql))
           groupsPrefix gs
         = Some (buf @ key_text L h ''sql'' groupsPrefix
                   @ string_text L (if rows = - 1 then ''-'' else sql) True @ '' '', st))
   \<and> (rewritten L h (elems st gs) (Err (Some e)) = Err (Some e) \<longrightarrow>
       appendAttr L (Suc n) h st buf (Err (Some e)) groupsPrefix gs
         = Some (buf @ error_text L h e groupsPrefix @ '' '', st))"
proof (intro conjI impI)
  show "\<exists>k ip fp. Sprintf_3fms elapsed = (if elapsed < 0 then ''-'' else []) @ ip @ ''.'' @ fp @ ''ms''
         \<and> ip = FormatUint (k div 1000) \<and> ip \<noteq> [] \<and> list_all is_digit ip
         \<and> fp = [digit_char (k div 100 mod 10), digit_char (k div 10 mod 10), digit_char (k mod 10)]
         \<and> length fp = 3 \<and> list_all is_digit fp
         \<and> \<bar>1000 * int k - \<bar>elapsed\<bar>\<bar> * 2 ^ 51 \<le> 500 * 2 ^ 51 + \<bar>elapsed\<bar>
         \<and> (\<bar>elapsed\<bar> < 2 ^ 51 \<longrightarrow> \<bar>1000 * int k - \<bar>elapsed\<bar>\<bar> \<le> 500)"
    by (rule Sprintf_3fms_form)
qed (simp_all add: Handler_Trace_record Logger_Trace_record trace_record_def Err_cases
    slog_String_def string_attr_unchanged [unfolded slog_String_def]
    error_attr_unchanged [unfolded Err_cases])

lemma Enabled_demo: "Enabled h_demo LevelInfo" "Enabled h_doc LevelInfo"
  by (simp_all add: Enabled_def h_demo_def h_doc_def NewHandler_def Let_def LevelDebug_def
      LevelInfo_def word_sle_eq)

lemma Sprintf_demo: "Sprintf_3fms 12345678 = ''12.346ms''"
  unfolding Sprintf_3fms_def float64_1e6
  by (simp add: Sprintf_3f_def float64_of_int_def float64_round_def float64_div_def scale2_def
      thousandths_def round_half_even_def Let_def bitlen_numeral_simps FormatUint.simps
      digit_char_def)

text \<open>
  More values of the time text: an elapsed time of no or one nanosecond, a tie
  between two thousandths (decided by the float nearest to \<open>0.0025\<close>, which lies
  above it), a negative elapsed time, and the largest 64-bit one.
\<close>

lemma Sprintf_examples:
  "Sprintf_3fms 0 = ''0.000ms''" "Sprintf_3fms 1 = ''0.000ms''" "Sprintf_3fms 2500 = ''0.003ms''"
  "Sprintf_3fms (- 1500) = ''-0.002ms''"
  "Sprintf_3fms 9223372036854775807 = ''9223372036854.775ms''"
  unfolding Sprintf_3fms_def float64_1e6
  by (simp_all add: Sprintf_3f_def float64_of_int_def float64_round_def float64_div_def scale2_def
      thousandths_def round_half_even_def Let_def bitlen_numeral_simps FormatUint.simps
      digit_char_def)

lemma trace_record_demo:
  "trace_record \<lparr>instant = 17, mono = None\<rparr> 0 ''SELECT 1'' 3 12345678 None
     = \<lparr>Time = \<lparr>instant = 17, mono = None\<rparr>, Message = [], Level = LevelInfo, PC = 0,
        Attrs = [Attr ''time'' (VString ''12.346ms''), Attr ''sql'' (VString ''SELECT 1'')]\<rparr>"
  "trace_record \<lparr>instant = 17, mono = None\<rparr> 0 ''SELECT 1'' (- 1) 12345678 (Some ''boom'')
     = \<lparr>Time = \<lparr>instant = 17, mono = None\<rparr>, Message = [], Level = LevelInfo, PC = 0,
        Attrs = [Attr errKey (VAny (AnyTintError ''boom'')), Attr ''time'' (VString ''12.346ms''),
                 Attr ''sql'' (VString ''-'')]\<rparr>"
  by (simp_all add: trace_record_def Sprintf_demo)

lemma trace_demo:
  "Handle lib0 (Suc 0) h_demo
     \<lparr>Time = \<lparr>instant = 17, mono = None\<rparr>, Message = [], Level = LevelInfo, PC = 0,
        Attrs = [Attr ''time'' (VString ''12.346ms''), Attr ''sql'' (VString ''SELECT 1'')]\<rparr> [] []
     = Some ([], [(1, ''17 INFO  time=12.346ms sql='' @ [dquote] @ ''SELECT 1'' @ [dquote, newline])], None)"
  "Handle lib0 (Suc 0) h_demo
     \<lparr>Time = \<lparr>instant = 17, mono = None\<rparr>, Message = [], Level = LevelInfo, PC = 0,
        Attrs = [Attr errKey (VAny (AnyTintError ''boom'')), Attr ''time'' (VString ''12.346ms''),
                 Attr ''sql'' (VString ''-'')]\<rparr> [] []
     = Some ([], [(1, ''17 INFO  err=boom time=12.346ms sql=-'' @ [newline])], None)"
  "Handle lib0 (Suc 0) h_doc
     \<lparr>Time = \<lparr>instant = 17, mono = None\<rparr>, Message = [], Level = LevelInfo, PC = 0,
        Attrs = [Attr ''time'' (VString ''12.346ms''), Attr ''sql'' (VString ''SELECT 1'')]\<rparr> [] []
     = Some ([], [(1, ''INFO  sql='' @ [dquote] @ ''SELECT 1'' @ [dquote, newline])], None)"
  "appendAttr lib0 (Suc 0) h_demo [] [] (Attr ''time'' (VString ''12.346ms'')) [] nil_slice
     = Some (''time=12.346ms '', [])"
  by code_simp+

theorem Trace_record_witness:
  "Enabled h_demo LevelInfo
   \<and> Sprintf_3fms 12345678 = ''12.346ms''
   \<and> Handler_Trace lib0 (Suc 0) h_demo \<lparr>instant = 17, mono = None\<rparr> 0 (''SELECT 1'', 3) 12345678 None [] []
       = Some ([], [(1, ''17 INFO  time=12.346ms sql='' @ [dquote] @ ''SELECT 1'' @ [dquote, newline])])
   \<and> Handler_Trace lib0 (Suc 0) h_demo \<lparr>instant = 17, mono = None\<rparr> 0 (''SELECT 1'', - 1) 12345678 (Some ''boom'') [] []
       = Some ([], [(1, ''17 INFO  err=boom time=12.346ms sql=-'' @ [newline])])
   \<and> rewritten lib0 h_demo (elems [] nil_slice) (slog_String ''time'' (Sprintf_3fms 12345678))
       = slog_String ''time'' (Sprintf_3fms 12345678)
   \<and> appendAttr lib0 (Suc 0) h_demo [] [] (slog_String ''time'' (Sprintf_3fms 12345678)) [] nil_slice
       = Some (''time=12.346ms '', [])"
proof -
  note t1 = Trace_record [of h_demo lib0 "Suc 0" "\<lparr>instant = 17, mono = None\<rparr>" 0 "''SELECT 1''" 3
      12345678 None "[]" "[]"]
  note t2 = Trace_record [of h_demo lib0 "Suc 0" "\<lparr>instant = 17, mono = None\<rparr>" 0 "''SELECT 1''" "- 1"
      12345678 "Some ''boom''" "[]" "[]"]
  from t1 have a: "Handler_Trace lib0 (Suc 0) h_demo \<lparr>instant = 17, mono = None\<rparr> 0 (''SELECT 1'', 3) 12345678 None [] []
    = map_option drop_error (Handle lib0 (Suc 0) h_demo (trace_record \<lparr>instant = 17, mono = None\<rparr> 0 ''SELECT 1'' 3 12345678 None) [] [])"
    using Enabled_demo(1) by blast
  from t2 have b: "Handler_Trace lib0 (Suc 0) h_demo \<lparr>instant = 17, mono = None\<rparr> 0 (''SELECT 1'', - 1) 12345678 (Some ''boom'') [] []
    = map_option drop_error (Handle lib0 (Suc 0) h_demo (trace_record \<lparr>instant = 17, mono = None\<rparr> 0 ''SELECT 1'' (- 1) 12345678 (Some ''boom'')) [] [])"
    using Enabled_demo(1) by blast
  have nh: "replaceAttr h_demo = None"
    by (simp add: h_demo_def NewHandler_def Let_def)
  have r: "rewritten lib0 h_demo (elems [] nil_slice) (slog_String ''time'' (Sprintf_3fms 12345678))
       = slog_String ''time'' (Sprintf_3fms 12345678)"
    by (simp add: rewritten_no_hook [OF nh] slog_String_def)
  have c: "appendAttr lib0 (Suc 0) h_demo [] [] (slog_String ''time'' (Sprintf_3fms 12345678)) [] nil_slice
       = Some (''time=12.346ms '', [])"
    by (simp add: Sprintf_demo slog_String_def trace_demo(4))
  show ?thesis
    unfolding a b trace_record_demo trace_demo using Enabled_demo(1) r c
    by (simp add: drop_error_def Sprintf_demo)
qed

text \<open>
  The claim as stated fails where it has the elapsed time always rendered: a
  rewrite hook can rewrite or delete the attributes of \<open>Trace\<close>. The hook of the
  package documentation, which drops the built-in time by its key \<open>time\<close> outside
  all groups, deletes the elapsed time of \<open>Trace\<close> with it, since \<open>Trace\<close> puts it
  under the same key: the line holds the level, the empty message and the SQL
  text only.
\<close>

theorem trace_time_deleted_by_hook:
  "Enabled h_doc LevelInfo
   \<and> replaceAttr h_doc = Some hook_doc
   \<and> Handler_Trace lib0 (Suc 0) h_doc \<lparr>instant = 17, mono = None\<rparr> 0 (''SELECT 1'', 3) 12345678 None [] []
       = Some ([], [(1, ''INFO  sql='' @ [dquote] @ ''SELECT 1'' @ [dquote, newline])])"
proof -
  have "replaceAttr h_doc = Some hook_doc"
    by (simp add: h_doc_def NewHandler_def Let_def)
  then show ?thesis
    using Enabled_demo(2)
    by (simp add: Handler_Trace_record trace_record_demo trace_demo drop_error_def)
qed

subsection \<open>Derived handlers\<close>

text \<open>
  \<open>clone\<close> copies nine fields and leaves \<open>skip\<close> at Go's zero value, so a handler
  derived by \<open>WithGroup\<close> or \<open>WithAttrs\<close> is the parent with the extended prefix
  and \<open>skip\<close> reset; the parent is a value and is not changed.
\<close>

lemma clone_copies:
  "attrsPrefix (clone h) = attrsPrefix h" "groupPrefix (clone h) = groupPrefix h"
  "groups (clone h) = groups h" "w (clone h) = w h" "addSource (clone h) = addSource h"
  "level (clone h) = level h" "replaceAttr (clone h) = replaceAttr h"
  "timeFormat (clone h) = timeFormat h" "noColor (clone h) = noColor h"
  "skip (clone h) = 0"
  by (simp_all add: clone_def)

text \<open>
  C4. The claim has every piece of handler state copied into the derived
  handler, the skip count among them. The code does not do that: a handler built
  with options has the skip count 4, and both the handler derived from it by
  \<open>WithGroup\<close> and the one derived by \<open>WithAttrs\<close> have the skip count 0, because
  \<open>clone\<close> leaves the field out.
\<close>

theorem clone_drops_skip:
  "skip h_demo = 4
   \<and> skip (fst (WithGroup lib0 h_demo ''g'' [])) = 0
   \<and> map_option (\<lambda>x. skip (fst x)) (WithAttrs lib0 1 h_demo [slog_String ''k'' ''v''] []) = Some 0"
  by code_simp

subsection \<open>Quoting\<close>

lemma needsQuoting_loop_iff:
  "needsQuoting_loop L rs \<longleftrightarrow>
     (\<exists>r\<in>set rs. unicode_IsSpace L r \<or> r = 0x22 \<or> r = 0x3D \<or> \<not> unicode_IsPrint L r)"
  by (induction rs) auto

lemma needsQuoting_iff:
  "needsQuoting L s \<longleftrightarrow>
     s = [] \<or> (\<exists>r\<in>set (runes s). unicode_IsSpace L r \<or> r = 0x22 \<or> r = 0x3D \<or> \<not> unicode_IsPrint L r)"
  by (simp add: needsQuoting_def needsQuoting_loop_iff)

lemma escaped_plain_Cons: "plain_char c \<Longrightarrow> escaped (c # ys) = escaped ys"
  by (cases ys) (simp_all add: plain_char_def)

lemma escaped_plain_append: "plain_text ch \<Longrightarrow> escaped (ch @ ys) = escaped ys"
  by (induction ch) (simp_all add: plain_text_def escaped_plain_Cons)

lemma escaped_chunk_append: "chunk_ok ch \<Longrightarrow> escaped (ch @ ys) = escaped ys"
  unfolding chunk_ok_def
  by (auto simp add: escaped_plain_append)

lemma escaped_concat: "(\<And>ch. ch \<in> set chs \<Longrightarrow> chunk_ok ch) \<Longrightarrow> escaped (concat chs)"
  by (induction chs) (simp_all add: escaped_chunk_append)

lemma lowerhex_plain: "d < 16 \<Longrightarrow> plain_char (lowerhex d)"
proof -
  assume "d < 16"
  then have "d < length ''0123456789abcdef''" by simp
  then have "''0123456789abcdef'' ! d \<in> set ''0123456789abcdef''" by (rule nth_mem)
  then have "lowerhex d \<in> set ''0123456789abcdef''" by (simp only: lowerhex_def)
  then show ?thesis by (auto simp add: plain_char_def backslash_def dquote_def)
qed

lemma byte_plain:
  assumes "0 \<le> n" "n < 0x100" "n \<noteq> 0x22" "n \<noteq> 0x5C"
  shows "plain_char (char_of (n::int))"
proof -
  have t: "take_bit 8 n = n"
    using assms(1,2) by (simp add: take_bit_int_eq_self)
  have "of_char backslash = (0x5C::int)" "of_char dquote = (0x22::int)"
    by (simp_all add: backslash_def dquote_def)
  with t assms(3,4) show ?thesis
    by (simp add: plain_char_def char_of_eq_iff)
qed

lemma high_plain: "0x80 \<le> n \<Longrightarrow> n < 0x100 \<Longrightarrow> plain_char (char_of (n::int))"
  by (rule byte_plain) simp_all

lemma lead_plain:
  assumes "0 \<le> r" "r \<le> hi" "0 < k" "hi div k < 0x100 - b" "0x80 \<le> b"
  shows "plain_char (char_of (b + r div k :: int))"
proof (rule high_plain)
  from assms(1,3) have "0 \<le> r div k" by (simp add: pos_imp_zdiv_nonneg_iff)
  with assms(5) show "0x80 \<le> b + r div k" by linarith
  from assms(2,3) have "r div k \<le> hi div k" by (intro zdiv_mono1) simp_all
  with assms(4) show "b + r div k < 0x100" by linarith
qed

lemma cont_plain: "plain_char (char_of (0x80 + x mod 64 :: int))"
proof (rule high_plain)
  have "0 \<le> x mod 64" "x mod 64 < 64" by simp_all
  then show "0x80 \<le> 0x80 + x mod 64" "0x80 + x mod 64 < 0x100" by linarith+
qed

lemma utf8_AppendRune_plain:
  assumes "r \<noteq> 0x22" "r \<noteq> 0x5C"
  shows "plain_text (utf8_AppendRune r)"
proof -
  consider (one) "0 \<le> r" "r \<le> 0x7F" | (two) "0x7F < r" "r \<le> 0x7FF"
    | (bad) "r < 0 \<or> 0x10FFFF < r \<or> (0xD800 \<le> r \<and> r \<le> 0xDFFF)"
    | (three) "0x7FF < r" "r \<le> 0xFFFF" "\<not> (0xD800 \<le> r \<and> r \<le> 0xDFFF)"
    | (four) "0xFFFF < r" "r \<le> 0x10FFFF"
    by linarith
  then show ?thesis
  proof cases
    case one
    then have "plain_char (char_of r)"
      using assms by (intro byte_plain) simp_all
    with one show ?thesis
      by (simp add: utf8_AppendRune_def plain_text_def)
  next
    case two
    have "plain_char (char_of (0xC0 + r div 64))"
      using two by (intro lead_plain [where hi = "0x7FF"]) simp_all
    with two show ?thesis
      by (simp add: utf8_AppendRune_def plain_text_def cont_plain)
  next
    case bad
    have "plain_char (char_of (0xEF::int))" "plain_char (char_of (0xBF::int))"
      "plain_char (char_of (0xBD::int))"
      by (rule high_plain; simp)+
    moreover from bad have "utf8_AppendRune r =
        [char_of (0xEF::int), char_of (0xBF::int), char_of (0xBD::int)]"
      unfolding utf8_AppendRune_def by auto
    ultimately show ?thesis
      by (simp add: plain_text_def)
  next
    case three
    have "plain_char (char_of (0xE0 + r div 4096))"
      using three by (intro lead_plain [where hi = "0xFFFF"]) simp_all
    with three show ?thesis
      by (auto simp add: utf8_AppendRune_def plain_text_def cont_plain)
  next
    case four
    have "plain_char (char_of (0xF0 + r div 262144))"
      using four by (intro lead_plain [where hi = "0x10FFFF"]) simp_all
    with four show ?thesis
      by (simp add: utf8_AppendRune_def plain_text_def cont_plain)
  qed
qed

lemma hex_plain: "plain_char (lowerhex (nat (x mod 16)))"
  by (rule lowerhex_plain) simp

lemma esc_chunk: "plain_text rest \<Longrightarrow> chunk_ok (backslash # x # rest)"
  by (simp add: chunk_ok_def)

lemma if_chunk: "chunk_ok a \<Longrightarrow> chunk_ok b \<Longrightarrow> chunk_ok (if c then a else b)"
  by simp

lemma appendEscapedRune_chunk: "chunk_ok (appendEscapedRune L [] r)"
proof (cases "r = 0x22 \<or> r = 0x5C")
  case True
  then show ?thesis
    by (simp add: appendEscapedRune_def chunk_ok_def plain_text_def)
next
  case False
  have x: "plain_char (CHR ''x'')" "plain_char (CHR ''u'')" "plain_char (CHR ''U'')"
    "plain_char (CHR ''f'')" "plain_char (CHR ''d'')"
    by (simp_all add: plain_char_def backslash_def dquote_def)
  have h256: "plain_char (lowerhex (nat (r mod 256 div 16)))"
    by (rule lowerhex_plain) simp
  have two: "chunk_ok [backslash, y]" for y
    by (simp add: chunk_ok_def plain_text_def)
  have pr: "chunk_ok (utf8_AppendRune r)"
    using False utf8_AppendRune_plain [of r] by (simp add: chunk_ok_def)
  have b: "chunk_ok [backslash, CHR ''x'', lowerhex (nat (r mod 256 div 16)), lowerhex (nat (r mod 16))]"
    by (rule esc_chunk) (simp add: plain_text_def x h256 hex_plain)
  have c: "chunk_ok [backslash, CHR ''u'', CHR ''f'', CHR ''f'', CHR ''f'', CHR ''d'']"
    by (rule esc_chunk) (simp add: plain_text_def x)
  have d: "chunk_ok [backslash, CHR ''u'', lowerhex (nat (r div 4096 mod 16)),
               lowerhex (nat (r div 256 mod 16)), lowerhex (nat (r div 16 mod 16)),
               lowerhex (nat (r mod 16))]"
    by (rule esc_chunk) (simp add: plain_text_def x hex_plain)
  have e: "chunk_ok [backslash, CHR ''U'', lowerhex (nat (r div 268435456 mod 16)),
               lowerhex (nat (r div 16777216 mod 16)), lowerhex (nat (r div 1048576 mod 16)),
               lowerhex (nat (r div 65536 mod 16)), lowerhex (nat (r div 4096 mod 16)),
               lowerhex (nat (r div 256 mod 16)), lowerhex (nat (r div 16 mod 16)),
               lowerhex (nat (r mod 16))]"
    by (rule esc_chunk) (simp add: plain_text_def x hex_plain)
  have "appendEscapedRune L [] r =
     (if strconv_IsPrint L r then utf8_AppendRune r
      else if r = 7 then [backslash, CHR ''a'']
      else if r = 8 then [backslash, CHR ''b'']
      else if r = 12 then [backslash, CHR ''f'']
      else if r = 10 then [backslash, CHR ''n'']
      else if r = 13 then [backslash, CHR ''r'']
      else if r = 9 then [backslash, CHR ''t'']
      else if r = 11 then [backslash, CHR ''v'']
      else if r < 0x20 \<or> r = 0x7F then
        [backslash, CHR ''x'', lowerhex (nat (r mod 256 div 16)), lowerhex (nat (r mod 16))]
      else if 0x10FFFF < r \<or> (0xD800 \<le> r \<and> r \<le> 0xDFFF) then
        [backslash, CHR ''u'', CHR ''f'', CHR ''f'', CHR ''f'', CHR ''d'']
      else if r < 0x10000 then
        [backslash, CHR ''u'', lowerhex (nat (r div 4096 mod 16)),
               lowerhex (nat (r div 256 mod 16)), lowerhex (nat (r div 16 mod 16)),
               lowerhex (nat (r mod 16))]
      else
        [backslash, CHR ''U'', lowerhex (nat (r div 268435456 mod 16)),
               lowerhex (nat (r div 16777216 mod 16)), lowerhex (nat (r div 1048576 mod 16)),
               lowerhex (nat (r div 65536 mod 16)), lowerhex (nat (r div 4096 mod 16)),
               lowerhex (nat (r div 256 mod 16)), lowerhex (nat (r div 16 mod 16)),
               lowerhex (nat (r mod 16))])"
    using False unfolding appendEscapedRune_def append_Nil by (simp only: if_False)
  then show ?thesis
    by (simp only:) (intro if_chunk two pr b c d e)
qed

lemma byte_hex_plain: "plain_char (lowerhex (of_char c div 16))" "plain_char (lowerhex (of_char c mod 16))"
proof -
  have "(of_char c :: nat) mod 256 < 256" by simp
  then have "(of_char c :: nat) < 256" by (simp only: of_char_mod_256)
  then have "(of_char c :: nat) < 16 * 16" by simp
  then have "(of_char c :: nat) div 16 < 16" by (rule less_mult_imp_div_less)
  then show "plain_char (lowerhex (of_char c div 16))" by (rule lowerhex_plain)
  show "plain_char (lowerhex (of_char c mod 16))" by (rule lowerhex_plain) simp
qed

lemma quote_chunks_ok: "ch \<in> set (quote_chunks L s) \<Longrightarrow> chunk_ok ch"
proof (induction L s arbitrary: ch rule: quote_chunks.induct)
  case (1 L)
  then show ?case by simp
next
  case (2 L c cs)
  obtain r width where rw: "first_rune c cs = (r, width)"
    by (cases "first_rune c cs") auto
  have x: "plain_char (CHR ''x'')"
    by (simp add: plain_char_def backslash_def dquote_def)
  show ?case
  proof (cases "width = 1 \<and> r = RuneError")
    case True
    with "2.prems" rw have
      "ch = [backslash, CHR ''x'', lowerhex (of_char c div 16), lowerhex (of_char c mod 16)]
       \<or> ch \<in> set (quote_chunks L cs)" by auto
    then show ?thesis
    proof
      assume "ch = [backslash, CHR ''x'', lowerhex (of_char c div 16), lowerhex (of_char c mod 16)]"
      then show ?thesis
        by (simp add: chunk_ok_def plain_text_def byte_hex_plain)
    next
      assume "ch \<in> set (quote_chunks L cs)"
      then show ?thesis by (rule "2.IH"(1) [OF rw [symmetric] refl True])
    qed
  next
    case False
    with "2.prems" rw have
      "ch = appendEscapedRune L [] r \<or> ch \<in> set (quote_chunks L (drop (width - 1) cs))" by auto
    then show ?thesis
    proof
      assume "ch = appendEscapedRune L [] r"
      then show ?thesis by (simp add: appendEscapedRune_chunk)
    next
      assume "ch \<in> set (quote_chunks L (drop (width - 1) cs))"
      then show ?thesis by (rule "2.IH"(2) [OF rw [symmetric] refl False])
    qed
  qed
qed

lemma Quote_escaped: "escaped (concat (quote_chunks L s))"
  by (rule escaped_concat) (rule quote_chunks_ok)

lemma quote_chunks_dquote: "quote_chunks L (dquote # cs) = [backslash, dquote] # quote_chunks L cs"
proof -
  have "first_rune dquote cs = (0x22, 1)"
    by (simp add: first_rune_def dquote_def)
  then show ?thesis
    by (simp add: appendEscapedRune_def RuneError_def dquote_def char_of_eq_iff)
qed

text \<open>
  C2 (amended). For every string rendered with quoting enabled (the values and
  keys of attributes and the error text), quoting is applied if and only if the
  string is empty or holds a rune that is a space, the double quote, the equals
  sign or not printable; every other string is emitted raw. A quoted string
  stands between two double quotes, with every double quote inside backslashed
  and none left bare. A string rendered with quoting disabled (a built-in field
  that came back from the rewrite hook) is emitted raw, whatever it holds.
\<close>

theorem appendString_quoting:
  "appendString L buf s quote =
     (if quote \<and> (s = [] \<or> (\<exists>r\<in>set (runes s).
            unicode_IsSpace L r \<or> r = 0x22 \<or> r = 0x3D \<or> \<not> unicode_IsPrint L r))
      then buf @ [dquote] @ concat (quote_chunks L s) @ [dquote]
      else buf @ s)
   \<and> escaped (concat (quote_chunks L s))
   \<and> quote_chunks L (dquote # cs) = [backslash, dquote] # quote_chunks L cs
   \<and> appendValue L h buf (VString s) quote = appendString L buf s quote
   \<and> (replaceAttr h = None \<longrightarrow>
        appendAttr L (Suc n) h st buf (slog_String k s) groupsPrefix gs =
          Some (appendString L (appendKey L h buf k groupsPrefix) s True @ '' '', st))"
proof (intro conjI impI)
  show "appendString L buf s quote =
     (if quote \<and> (s = [] \<or> (\<exists>r\<in>set (runes s).
            unicode_IsSpace L r \<or> r = 0x22 \<or> r = 0x3D \<or> \<not> unicode_IsPrint L r))
      then buf @ [dquote] @ concat (quote_chunks L s) @ [dquote]
      else buf @ s)"
    unfolding appendString_text string_text_def needsQuoting_iff Quote_def by auto
  show "escaped (concat (quote_chunks L s))"
    by (rule Quote_escaped)
  show "quote_chunks L (dquote # cs) = [backslash, dquote] # quote_chunks L cs"
    by (rule quote_chunks_dquote)
  show "appendValue L h buf (VString s) quote = appendString L buf s quote"
    by simp
  show "appendAttr L (Suc n) h st buf (slog_String k s) groupsPrefix gs =
          Some (appendString L (appendKey L h buf k groupsPrefix) s True @ '' '', st)"
    if "replaceAttr h = None"
    using that
    by (simp add: appendAttr_step rewritten_no_hook slog_String_def Equal_zero_def leaf_text_def
        appendString_text appendKey_text)
qed

lemma quoting_demo:
  "runes [CHR ''a'', dquote, CHR ''b''] = [0x61, 0x22, 0x62]"
  "quote_chunks lib0 [CHR ''a'', dquote, CHR ''b''] = [''a'', [backslash, dquote], ''b'']"
  "runes ''ab'' = [0x61, 0x62]"
  by code_simp+

theorem appendString_quoting_witness:
  "appendString lib0 ''k='' [CHR ''a'', dquote, CHR ''b''] True
     = ''k='' @ [dquote, CHR ''a'', backslash, dquote, CHR ''b'', dquote]
   \<and> appendString lib0 ''k='' ''ab'' True = ''k=ab''
   \<and> appendString lib0 ''k='' [CHR ''a'', dquote, CHR ''b''] False = ''k='' @ [CHR ''a'', dquote, CHR ''b'']"
proof -
  note t = appendString_quoting [where L = lib0 and buf = "''k=''", THEN conjunct1]
  have p: "unicode_IsSpace lib0 r = (r = 32 \<or> (9 \<le> r \<and> r \<le> 13))"
    "unicode_IsPrint lib0 r = (32 \<le> r \<and> r < 127)" for r
    by (simp_all add: lib0_def)
  show ?thesis
    unfolding t quoting_demo by (simp add: p)
qed

text \<open>
  The claim as stated fails for a string value that \<open>Handle\<close> renders with
  quoting disabled: with a hook that returns every attribute as it is, the
  message \<open>a b\<close> is written raw although it holds a space, while the attribute
  value \<open>a b\<close> of the same record is quoted.
\<close>

theorem unquoted_string_value:
  "needsQuoting lib0 ''a b''
   \<and> appendValue lib0 h_ident [] (VString ''a b'') False = ''a b''
   \<and> Handle lib0 1 h_ident r_spaced [] []
       = Some ([], [(1, ''17 INFO a b k='' @ [dquote] @ ''a b'' @ [dquote, newline])], None)"
  by code_simp

end
